(* ===== verification/Prelude.thy ===== *)
theory Prelude
  imports Main "HOL-Library.Word" "HOL-Library.Monad_Syntax"
begin

text \<open>
  Types, abbreviations and generic facts that every component shares.

  \<^item> C integers keep their width: \<open>int\<close> is \<open>s32\<close>, read with \<open>sint\<close> where the code compares
    or prints it; \<open>unsigned int\<close> is \<open>u32\<close>; \<open>unsigned char\<close> is \<open>u8\<close>.
  \<^item> A return value of type \<open>'a option\<close> in a \<open>do\<close> block is a C execution: \<open>None\<close> is undefined
    behaviour (a null dereference, an access outside an array, an unrepresentable conversion). Signed
    arithmetic is the exception: it has the two's-complement value, also where C leaves an overflow undefined.
  \<^item> \<open>rc\<close> is what an \<open>int\<close> function of the library returns: the code and the \<open>errno\<close> it
    assigned on that path, if any.
  \<^item> The lemmas prove word equations bit by bit (\<open>word_eq_bits\<close>) and bounds from the highest
    set bit (\<open>bits_below\<close>).
\<close>

unbundle bit_operations_syntax

type_synonym u8 = "8 word"
type_synonym u16 = "16 word"
type_synonym u32 = "32 word"
type_synonym s32 = "32 word"

datatype errno = EPERM | ENOENT | EIO | EBADF | EINVAL | ENOBUFS | ETIMEDOUT | Eother nat

type_synonym rc = "int \<times> errno option"

abbreviation rc_ok :: rc where "rc_ok \<equiv> (0, None)"

definition fail :: "errno \<Rightarrow> rc" where "fail e = (1, Some e)"

lemma fail_simps [simp]: "fst (fail e) = 1" "snd (fail e) = Some e" "fail e \<noteq> (0, x)" "(0, x) \<noteq> fail e" "fail e = fail e' \<longleftrightarrow> e = e'"
  by (auto simp: fail_def)

section \<open>Bytes and bits\<close>

text \<open>
  \<open>byte_at d i\<close> is the C expression \<open>d[i]\<close> of an \<open>unsigned char\<close> array, promoted to \<open>int\<close>; outside the array it is \<open>None\<close>.
  \<open>byte d i\<close> is its value where it has one; it appears in specifications and proofs, not in the model.
\<close>

definition byte :: "u8 list \<Rightarrow> nat \<Rightarrow> s32" where
  "byte d i = ucast (d ! i)"

definition byte_at :: "u8 list \<Rightarrow> nat \<Rightarrow> s32 option" where
  "byte_at d i = (if i < length d then Some (ucast (d ! i)) else None)"

lemma byte_at_in: "i < length d \<Longrightarrow> byte_at d i = Some (byte d i)"
  by (simp add: byte_at_def byte_def)

lemma byte_at_7:
  assumes "7 \<le> length d"
  shows "byte_at d 0 = Some (byte d 0)" "byte_at d (Suc 0) = Some (byte d (Suc 0))" "byte_at d 2 = Some (byte d 2)" "byte_at d 3 = Some (byte d 3)"
    "byte_at d 4 = Some (byte d 4)" "byte_at d 5 = Some (byte d 5)" "byte_at d 6 = Some (byte d 6)"
  using assms by (auto intro!: byte_at_in)

lemma byte_at_9: "9 \<le> length d \<Longrightarrow> byte_at d 7 = Some (byte d 7)" "9 \<le> length d \<Longrightarrow> byte_at d 8 = Some (byte d 8)"
  by (auto intro!: byte_at_in)

lemmas byte_at_simps = byte_at_7 byte_at_9

lemma byte_at_take: "byte_at (take n d) i = (if i < n then byte_at d i else None)"
  by (simp add: byte_at_def)

text \<open>\<open>BIT(x)\<close>, that is \<open>1 << x\<close>, at the width of \<open>int\<close>.\<close>

definition BIT :: "nat \<Rightarrow> s32" where
  "BIT n = push_bit n 1"

lemma bit_BIT [simp]: "bit (BIT n) m \<longleftrightarrow> m = n \<and> m < 32"
  by (auto simp: BIT_def bit_simps)

lemma BIT_numeral: "BIT (numeral k) = push_bit (numeral k) 1" "BIT 0 = 1" "BIT (Suc n) = push_bit (Suc n) 1"
  by (simp_all add: BIT_def)

named_theorems mask_simps \<open>constant masks of the packet layouts as shifted \<open>mask\<close> terms\<close>

lemma masks_s32 [mask_simps]:
  "(0x7F::s32) = mask 7" "(0x60::s32) = push_bit 5 (mask 2)" "(0x1F::s32) = mask 5"
  "(0x78::s32) = push_bit 3 (mask 4)" "(0x07::s32) = mask 3" "(0x3F::s32) = mask 6"
  "(0x7C::s32) = push_bit 2 (mask 5)" "(0x70::s32) = push_bit 4 (mask 3)"
  "(0x0F::s32) = mask 4" "(0x18::s32) = push_bit 3 (mask 2)" "(0x1C::s32) = push_bit 2 (mask 3)"
  "(0x03::s32) = mask 2" "(0x01::s32) = mask 1" "(0x80::s32) = push_bit 7 (mask 1)"
  by code_simp+

text \<open>A single-bit test \<open>e & m\<close> is the bit.\<close>

lemma and_exp_zero: "n < 32 \<Longrightarrow> ((x :: s32) AND 2 ^ n = 0) = (\<not> bit x n)"
  by (simp add: and_exp_eq_0_iff_not_bit)

lemma tst_simps:
  "((x :: s32) AND 1 = 0) = (\<not> bit x 0)" "(x AND 2 = 0) = (\<not> bit x 1)" "(x AND 4 = 0) = (\<not> bit x 2)"
  "(x AND 8 = 0) = (\<not> bit x 3)" "(x AND 0x10 = 0) = (\<not> bit x 4)" "(x AND 0x20 = 0) = (\<not> bit x 5)"
  "(x AND 0x40 = 0) = (\<not> bit x 6)" "(x AND 0x80 = 0) = (\<not> bit x 7)"
  using and_exp_zero [of 0 x] and_exp_zero [of 1 x] and_exp_zero [of 2 x] and_exp_zero [of 3 x]
    and_exp_zero [of 4 x] and_exp_zero [of 5 x] and_exp_zero [of 6 x] and_exp_zero [of 7 x]
  by simp_all

lemma word_eq_bits:
  "list_all (\<lambda>n. bit a n = bit b n) [0..<LENGTH('a)] \<Longrightarrow> a = (b :: 'a::len word)"
  by (auto intro!: bit_word_eqI simp: list_all_iff)

lemma upt_32: "[0..<32] = [0, Suc 0, 2, 3, 4, 5, 6, 7, 8, 9, 10, 11, 12, 13, 14, 15, 16, 17, 18, 19, 20,
    21, 22, 23, 24, 25, 26, 27, 28, 29, 30, 31]"
  by code_simp

lemma upt_8: "[0..<8] = [0, Suc 0, 2, 3, 4, 5, 6, 7]"
  by code_simp

lemma bit_out_of_range: "LENGTH('a) \<le> n \<Longrightarrow> bit (x :: 'a::len word) n = False"
  by (auto dest: bit_imp_le_length)

lemma bit_times_2: "bit ((a :: 'a::len word) * 2) n = bit (2 * a) n"
  by (simp add: mult.commute)

lemmas bitwise = bit_times_2 upt_32 upt_8 byte_def bit_simps bit_out_of_range numeral_2_eq_2 [symmetric]
  numeral_3_eq_3 [symmetric] Suc_numeral

lemma sint_Suc_s32: "(k :: s32) \<noteq> 2 ^ 31 - 1 \<Longrightarrow> sint (k + 1) = sint k + 1"
proof -
  assume k: "k \<noteq> 2 ^ 31 - 1"
  have "sint k \<noteq> 2 ^ 31 - 1"
  proof
    assume "sint k = 2 ^ 31 - 1"
    then have "(of_int (sint k) :: s32) = of_int (2 ^ 31 - 1)" by (rule arg_cong)
    then show False using k by simp
  qed
  then have "sint k + 1 < 2 ^ 31" "- (2 ^ 31) \<le> sint k" using sint_lt [of k] sint_ge [of k] by simp_all
  then show ?thesis by (simp add: sint_word_ariths signed_take_bit_int_eq_self)
qed

lemma bits_below:
  assumes "\<And>n. bit (x :: 'a::len word) n \<Longrightarrow> n < k"
  shows "uint x < 2 ^ k"
proof -
  have "take_bit k x = x"
    by (rule bit_eqI) (auto simp: bit_simps dest: assms)
  then show ?thesis
    by (metis take_bit_int_less_exp unsigned_take_bit_eq)
qed

text \<open>The same with the bits from \<open>k\<close> up checked one by one.\<close>

lemma bits_belowI:
  assumes "list_all (\<lambda>n. \<not> bit (v :: s32) n) [k..<32]" and "bit v n"
  shows "n < k"
proof (rule ccontr)
  assume "\<not> n < k"
  moreover have "n < 32"
    using bit_imp_le_length [OF assms(2)] by simp
  ultimately show False
    using assms by (auto simp: list_all_iff)
qed

lemma sint_small:
  assumes "uint (x :: s32) < 2 ^ k" and "k \<le> 31"
  shows "sint x = uint x"
proof -
  have "uint x < 2 ^ 31"
    using assms power_increasing [of k 31 "2::int"] by simp
  then show ?thesis
    by (simp add: sint_uint signed_take_bit_eq_if_positive take_bit_int_eq_self bit_iff_odd
        signed_take_bit_int_eq_self)
qed

lemma sint_bits_below:
  assumes "\<And>n. bit (x :: s32) n \<Longrightarrow> n < k" and "k \<le> 31"
  shows "0 \<le> sint x \<and> sint x < 2 ^ k"
  using bits_below [of x k] sint_small [of x k] assms by simp

lemma sint_of_int_s32: "- (2 ^ 31) \<le> k \<Longrightarrow> k < 2 ^ 31 \<Longrightarrow> sint (of_int k :: s32) = k"
  by (simp add: signed_of_int signed_take_bit_int_eq_self)

lemma sint_uminus_s32:
  assumes "- (2 ^ 31) < sint (x :: s32)"
  shows "sint (- x) = - sint x"
proof -
  have "sint (- x) = sint (of_int (- sint x) :: s32)"
    by simp
  also have "\<dots> = - sint x"
    using assms sint_lt [of x] by (intro sint_of_int_s32) auto
  finally show ?thesis .
qed

section \<open>Integers in memory, little endian\<close>

definition le16 :: "u16 \<Rightarrow> u8 list" where
  "le16 x = [ucast x, ucast (drop_bit 8 x)]"

definition le32 :: "u32 \<Rightarrow> u8 list" where
  "le32 x = [ucast x, ucast (drop_bit 8 x), ucast (drop_bit 16 x), ucast (drop_bit 24 x)]"

definition get16 :: "u8 list \<Rightarrow> nat \<Rightarrow> u16" where
  "get16 b i = ucast (b ! i) OR push_bit 8 (ucast (b ! (i + 1)))"

definition get32 :: "u8 list \<Rightarrow> nat \<Rightarrow> u32" where
  "get32 b i = ucast (b ! i) OR push_bit 8 (ucast (b ! (i + 1))) OR push_bit 16 (ucast (b ! (i + 2)))
     OR push_bit 24 (ucast (b ! (i + 3)))"

lemma upt_16: "[0..<16] = [0, Suc 0, 2, 3, 4, 5, 6, 7, 8, 9, 10, 11, 12, 13, 14, 15]"
  by code_simp

lemma get_le16: "ucast (ucast x :: u8) OR push_bit 8 (ucast (ucast (drop_bit 8 x) :: u8)) = (x :: u16)"
  by (rule word_eq_bits) (simp add: bitwise upt_16)

lemma get_le32:
  "ucast (ucast x :: u8) OR push_bit 8 (ucast (ucast (drop_bit 8 x) :: u8))
     OR push_bit 16 (ucast (ucast (drop_bit 16 x) :: u8)) OR push_bit 24 (ucast (ucast (drop_bit 24 x) :: u8)) = (x :: u32)"
  by (rule word_eq_bits) (simp add: bitwise)

lemma length_le [simp]: "length (le16 x) = 2" "length (le32 y) = 4"
  by (simp_all add: le16_def le32_def)

lemma get_le [simp]:
  "get16 (le16 x @ r) 0 = x" "get32 (le32 y @ r) 0 = y" "get16 (le16 x) 0 = x" "get32 (le32 y) 0 = y"
  by (simp_all add: get16_def get32_def le16_def le32_def get_le16 get_le32)

lemma get_append:
  "get16 (xs @ ys) (length xs + i) = get16 ys i" "get32 (xs @ ys) (length xs + i) = get32 ys i"
  by (simp_all add: get16_def get32_def nth_append add.assoc)

section \<open>Lists as C arrays\<close>

text \<open>\<open>buf_write b off d\<close> stores \<open>d\<close> at offset \<open>off\<close> of an array; \<open>None\<close> if it does not fit.\<close>

definition buf_write :: "'a list \<Rightarrow> nat \<Rightarrow> 'a list \<Rightarrow> 'a list option" where
  "buf_write b off d =
     (if off + length d \<le> length b then Some (take off b @ d @ drop (off + length d) b) else None)"

lemma buf_write_SomeD: "buf_write b off d = Some b' \<Longrightarrow> length b' = length b"
  by (auto simp: buf_write_def split: if_splits)

lemma buf_write_total: "off + length d \<le> length b \<Longrightarrow> \<exists>b'. buf_write b off d = Some b' \<and> length b' = length b"
  by (auto simp: buf_write_def)

text \<open>What \<open>find\<close> finds.\<close>

lemma find_SomeD: "find P xs = Some x \<Longrightarrow> x \<in> set xs \<and> P x"
  by (auto simp: find_Some_iff)

end
