(* ===== verification/Tablet_State.thy ===== *)
theory Tablet_State
  imports Prelude
begin

text \<open>
  The public data of \<^verbatim>\<open>wacom/wactablet.h\<close>: the model record, the tool types, buttons and
  fields, the value and state structures, and \<open>WacomCopyState\<close> of \<^verbatim>\<open>wacom/wactablet.c\<close>.

  \<open>WACOMSTATE.values\<close> is the array \<open>values_arr\<close> of \<open>WACOMFIELD_MAX\<close> entries (\<open>values\<close> is a
  keyword). \<open>wf_state\<close> is what the header's comments ask of a state: the array has its size
  and \<open>uValueCnt\<close> says so.
\<close>

section \<open>Constants\<close>

abbreviation (input) WACOMVENDOR_UNKNOWN :: u32 where "WACOMVENDOR_UNKNOWN \<equiv> 0x0000"
abbreviation (input) WACOMVENDOR_WACOM :: u32 where "WACOMVENDOR_WACOM \<equiv> 0x056A"
abbreviation (input) WACOMVENDOR_TPC :: u32 where "WACOMVENDOR_TPC \<equiv> 0xFFFFFF01"

abbreviation (input) WACOMCLASS_SERIAL :: u32 where "WACOMCLASS_SERIAL \<equiv> 0x0001"
abbreviation (input) WACOMCLASS_USB :: u32 where "WACOMCLASS_USB \<equiv> 0x0002"

abbreviation (input) WACOMDEVICE_UNKNOWN :: u32 where "WACOMDEVICE_UNKNOWN \<equiv> 0x0000"
abbreviation (input) WACOMDEVICE_ARTPAD :: u32 where "WACOMDEVICE_ARTPAD \<equiv> 0x0001"
abbreviation (input) WACOMDEVICE_ARTPADII :: u32 where "WACOMDEVICE_ARTPADII \<equiv> 0x0002"
abbreviation (input) WACOMDEVICE_DIGITIZER :: u32 where "WACOMDEVICE_DIGITIZER \<equiv> 0x0003"
abbreviation (input) WACOMDEVICE_DIGITIZERII :: u32 where "WACOMDEVICE_DIGITIZERII \<equiv> 0x0004"
abbreviation (input) WACOMDEVICE_PENPARTNER :: u32 where "WACOMDEVICE_PENPARTNER \<equiv> 0x0005"
abbreviation (input) WACOMDEVICE_GRAPHIRE :: u32 where "WACOMDEVICE_GRAPHIRE \<equiv> 0x0006"
abbreviation (input) WACOMDEVICE_GRAPHIRE2 :: u32 where "WACOMDEVICE_GRAPHIRE2 \<equiv> 0x0007"
abbreviation (input) WACOMDEVICE_GRAPHIRE3 :: u32 where "WACOMDEVICE_GRAPHIRE3 \<equiv> 0x0008"
abbreviation (input) WACOMDEVICE_GRAPHIRE4 :: u32 where "WACOMDEVICE_GRAPHIRE4 \<equiv> 0x0009"
abbreviation (input) WACOMDEVICE_INTUOS :: u32 where "WACOMDEVICE_INTUOS \<equiv> 0x000A"
abbreviation (input) WACOMDEVICE_INTUOS2 :: u32 where "WACOMDEVICE_INTUOS2 \<equiv> 0x000B"
abbreviation (input) WACOMDEVICE_CINTIQ :: u32 where "WACOMDEVICE_CINTIQ \<equiv> 0x000C"
abbreviation (input) WACOMDEVICE_PTU :: u32 where "WACOMDEVICE_PTU \<equiv> 0x000D"
abbreviation (input) WACOMDEVICE_VOLITO :: u32 where "WACOMDEVICE_VOLITO \<equiv> 0x000E"
abbreviation (input) WACOMDEVICE_VOLITO2 :: u32 where "WACOMDEVICE_VOLITO2 \<equiv> 0x000F"
abbreviation (input) WACOMDEVICE_TPC :: u32 where "WACOMDEVICE_TPC \<equiv> 0x0010"
abbreviation (input) WACOMDEVICE_INTUOS3 :: u32 where "WACOMDEVICE_INTUOS3 \<equiv> 0x0011"
abbreviation (input) WACOMDEVICE_CINTIQV5 :: u32 where "WACOMDEVICE_CINTIQV5 \<equiv> 0x0012"
abbreviation (input) WACOMDEVICE_MO :: u32 where "WACOMDEVICE_MO \<equiv> 0x0013"

abbreviation (input) WACOMTOOLTYPE_NONE :: s32 where "WACOMTOOLTYPE_NONE \<equiv> 0x00"
abbreviation (input) WACOMTOOLTYPE_PEN :: s32 where "WACOMTOOLTYPE_PEN \<equiv> 0x01"
abbreviation (input) WACOMTOOLTYPE_PENCIL :: s32 where "WACOMTOOLTYPE_PENCIL \<equiv> 0x02"
abbreviation (input) WACOMTOOLTYPE_BRUSH :: s32 where "WACOMTOOLTYPE_BRUSH \<equiv> 0x03"
abbreviation (input) WACOMTOOLTYPE_ERASER :: s32 where "WACOMTOOLTYPE_ERASER \<equiv> 0x04"
abbreviation (input) WACOMTOOLTYPE_AIRBRUSH :: s32 where "WACOMTOOLTYPE_AIRBRUSH \<equiv> 0x05"
abbreviation (input) WACOMTOOLTYPE_MOUSE :: s32 where "WACOMTOOLTYPE_MOUSE \<equiv> 0x06"
abbreviation (input) WACOMTOOLTYPE_LENS :: s32 where "WACOMTOOLTYPE_LENS \<equiv> 0x07"
abbreviation (input) WACOMTOOLTYPE_PAD :: s32 where "WACOMTOOLTYPE_PAD \<equiv> 0x08"
abbreviation (input) WACOMTOOLTYPE_TOUCH :: s32 where "WACOMTOOLTYPE_TOUCH \<equiv> 0x09"
abbreviation (input) WACOMTOOLTYPE_MAX :: s32 where "WACOMTOOLTYPE_MAX \<equiv> 0x0A"

abbreviation (input) WACOMBUTTON_LEFT :: nat where "WACOMBUTTON_LEFT \<equiv> 0"
abbreviation (input) WACOMBUTTON_MIDDLE :: nat where "WACOMBUTTON_MIDDLE \<equiv> 1"
abbreviation (input) WACOMBUTTON_RIGHT :: nat where "WACOMBUTTON_RIGHT \<equiv> 2"
abbreviation (input) WACOMBUTTON_EXTRA :: nat where "WACOMBUTTON_EXTRA \<equiv> 3"
abbreviation (input) WACOMBUTTON_SIDE :: nat where "WACOMBUTTON_SIDE \<equiv> 4"
abbreviation (input) WACOMBUTTON_TOUCH :: nat where "WACOMBUTTON_TOUCH \<equiv> 5"
abbreviation (input) WACOMBUTTON_STYLUS :: nat where "WACOMBUTTON_STYLUS \<equiv> 6"
abbreviation (input) WACOMBUTTON_STYLUS2 :: nat where "WACOMBUTTON_STYLUS2 \<equiv> 7"
abbreviation (input) WACOMBUTTON_BT0 :: nat where "WACOMBUTTON_BT0 \<equiv> 8"
abbreviation (input) WACOMBUTTON_MAX :: nat where "WACOMBUTTON_MAX \<equiv> 32"

abbreviation (input) WACOMFIELD_TOOLTYPE :: nat where "WACOMFIELD_TOOLTYPE \<equiv> 0"
abbreviation (input) WACOMFIELD_SERIAL :: nat where "WACOMFIELD_SERIAL \<equiv> 1"
abbreviation (input) WACOMFIELD_PROXIMITY :: nat where "WACOMFIELD_PROXIMITY \<equiv> 2"
abbreviation (input) WACOMFIELD_BUTTONS :: nat where "WACOMFIELD_BUTTONS \<equiv> 3"
abbreviation (input) WACOMFIELD_POSITION_X :: nat where "WACOMFIELD_POSITION_X \<equiv> 4"
abbreviation (input) WACOMFIELD_POSITION_Y :: nat where "WACOMFIELD_POSITION_Y \<equiv> 5"
abbreviation (input) WACOMFIELD_ROTATION_Z :: nat where "WACOMFIELD_ROTATION_Z \<equiv> 6"
abbreviation (input) WACOMFIELD_DISTANCE :: nat where "WACOMFIELD_DISTANCE \<equiv> 7"
abbreviation (input) WACOMFIELD_PRESSURE :: nat where "WACOMFIELD_PRESSURE \<equiv> 8"
abbreviation (input) WACOMFIELD_TILT_X :: nat where "WACOMFIELD_TILT_X \<equiv> 9"
abbreviation (input) WACOMFIELD_TILT_Y :: nat where "WACOMFIELD_TILT_Y \<equiv> 10"
abbreviation (input) WACOMFIELD_ABSWHEEL :: nat where "WACOMFIELD_ABSWHEEL \<equiv> 11"
abbreviation (input) WACOMFIELD_RELWHEEL :: nat where "WACOMFIELD_RELWHEEL \<equiv> 12"
abbreviation (input) WACOMFIELD_THROTTLE :: nat where "WACOMFIELD_THROTTLE \<equiv> 13"
abbreviation (input) WACOMFIELD_MAX :: nat where "WACOMFIELD_MAX \<equiv> 14"

section \<open>Structures\<close>

record WACOMMODEL =
  uClass :: u32
  uVendor :: u32
  uDevice :: u32
  uSubType :: u32

definition zero_model :: WACOMMODEL where
  "zero_model = \<lparr>uClass = 0, uVendor = 0, uDevice = 0, uSubType = 0\<rparr>"

record WACOMVALUE =
  nValue :: s32
  nMin :: s32
  nMax :: s32
  nReserved :: s32

definition zero_value :: WACOMVALUE where
  "zero_value = \<lparr>nValue = 0, nMin = 0, nMax = 0, nReserved = 0\<rparr>"

record WACOMSTATE =
  uValueCnt :: u32
  uValid :: u32
  values_arr :: "WACOMVALUE list"

text \<open>\<open>WACOMSTATE_INIT\<close>: the count is set, everything else is zero.\<close>

definition WACOMSTATE_INIT :: WACOMSTATE where
  "WACOMSTATE_INIT =
     \<lparr>uValueCnt = of_nat WACOMFIELD_MAX, uValid = 0, values_arr = replicate WACOMFIELD_MAX zero_value\<rparr>"

definition wf_state :: "WACOMSTATE \<Rightarrow> bool" where
  "wf_state s \<longleftrightarrow> uValueCnt s = of_nat WACOMFIELD_MAX \<and> length (values_arr s) = WACOMFIELD_MAX"

lemma wf_state_INIT [simp]: "wf_state WACOMSTATE_INIT"
  by (simp add: wf_state_def WACOMSTATE_INIT_def)

record WACOMCLASSREC =
  cr_pszName :: string
  cr_pszDesc :: string
  cr_uDeviceClass :: u32

record WACOMDEVICEREC =
  dr_pszName :: string
  dr_pszDesc :: string
  dr_pszVendorName :: string
  dr_pszVendorDesc :: string
  dr_pszClass :: string
  dr_model :: WACOMMODEL

section \<open>Reading and writing fields\<close>

abbreviation get_nValue :: "nat \<Rightarrow> WACOMSTATE \<Rightarrow> s32" where "get_nValue f s \<equiv> nValue (values_arr s ! f)"
abbreviation get_nMin :: "nat \<Rightarrow> WACOMSTATE \<Rightarrow> s32" where "get_nMin f s \<equiv> nMin (values_arr s ! f)"
abbreviation get_nMax :: "nat \<Rightarrow> WACOMSTATE \<Rightarrow> s32" where "get_nMax f s \<equiv> nMax (values_arr s ! f)"

definition put_nValue :: "nat \<Rightarrow> s32 \<Rightarrow> WACOMSTATE \<Rightarrow> WACOMSTATE" where
  "put_nValue f v s = s\<lparr>values_arr := (values_arr s)[f := (values_arr s ! f)\<lparr>nValue := v\<rparr>]\<rparr>"

definition put_nMin :: "nat \<Rightarrow> s32 \<Rightarrow> WACOMSTATE \<Rightarrow> WACOMSTATE" where
  "put_nMin f v s = s\<lparr>values_arr := (values_arr s)[f := (values_arr s ! f)\<lparr>nMin := v\<rparr>]\<rparr>"

definition put_nMax :: "nat \<Rightarrow> s32 \<Rightarrow> WACOMSTATE \<Rightarrow> WACOMSTATE" where
  "put_nMax f v s = s\<lparr>values_arr := (values_arr s)[f := (values_arr s ! f)\<lparr>nMax := v\<rparr>]\<rparr>"

lemma put_uValueCnt [simp]:
  "uValueCnt (put_nValue f v s) = uValueCnt s" "uValueCnt (put_nMin f v s) = uValueCnt s"
  "uValueCnt (put_nMax f v s) = uValueCnt s"
  by (simp_all add: put_nValue_def put_nMin_def put_nMax_def)

lemma put_uValid [simp]:
  "uValid (put_nValue f v s) = uValid s" "uValid (put_nMin f v s) = uValid s"
  "uValid (put_nMax f v s) = uValid s"
  by (simp_all add: put_nValue_def put_nMin_def put_nMax_def)

lemma put_length [simp]:
  "length (values_arr (put_nValue f v s)) = length (values_arr s)"
  "length (values_arr (put_nMin f v s)) = length (values_arr s)"
  "length (values_arr (put_nMax f v s)) = length (values_arr s)"
  by (simp_all add: put_nValue_def put_nMin_def put_nMax_def)

lemma wf_state_put [simp]:
  "wf_state (put_nValue f v s) = wf_state s" "wf_state (put_nMin f v s) = wf_state s"
  "wf_state (put_nMax f v s) = wf_state s"
  by (simp_all add: wf_state_def)

lemma get_put_nValue [simp]:
  "f < length (values_arr s) \<Longrightarrow> get_nValue g (put_nValue f v s) = (if g = f then v else get_nValue g s)"
  "get_nMin g (put_nValue f v s) = get_nMin g s" "get_nMax g (put_nValue f v s) = get_nMax g s"
  by (auto simp: put_nValue_def nth_list_update, (cases "f < length (values_arr s)"; auto simp: nth_list_update list_update_beyond)+)

lemma get_put_nMin [simp]:
  "f < length (values_arr s) \<Longrightarrow> get_nMin g (put_nMin f v s) = (if g = f then v else get_nMin g s)"
  "get_nValue g (put_nMin f v s) = get_nValue g s" "get_nMax g (put_nMin f v s) = get_nMax g s"
  by (auto simp: put_nMin_def nth_list_update, (cases "f < length (values_arr s)"; auto simp: nth_list_update list_update_beyond)+)

lemma get_put_nMax [simp]:
  "f < length (values_arr s) \<Longrightarrow> get_nMax g (put_nMax f v s) = (if g = f then v else get_nMax g s)"
  "get_nValue g (put_nMax f v s) = get_nValue g s" "get_nMin g (put_nMax f v s) = get_nMin g s"
  by (auto simp: put_nMax_def nth_list_update, (cases "f < length (values_arr s)"; auto simp: nth_list_update list_update_beyond)+)

lemma wf_state_length: "wf_state s \<Longrightarrow> length (values_arr s) = 14"
  by (simp add: wf_state_def)

text \<open>\<open>memset(values, 0, n * sizeof(WACOMVALUE))\<close>.\<close>

definition zero_values :: "nat \<Rightarrow> WACOMSTATE \<Rightarrow> WACOMSTATE option" where
  "zero_values n s = do {
     vs \<leftarrow> buf_write (values_arr s) 0 (replicate n zero_value);
     Some (s\<lparr>values_arr := vs\<rparr>)
   }"

lemma zero_values_wf:
  "wf_state s \<Longrightarrow>
   zero_values (unat (uValueCnt s)) s = Some (s\<lparr>values_arr := replicate WACOMFIELD_MAX zero_value\<rparr>)"
  by (simp add: zero_values_def buf_write_def wf_state_def)

section \<open>WacomCopyState\<close>

text \<open>A null pointer is \<open>None\<close>; the result carries the destination after the call.\<close>

definition WacomCopyState ::
  "WACOMSTATE option \<Rightarrow> WACOMSTATE option \<Rightarrow> (rc \<times> WACOMSTATE option) option" where
  "WacomCopyState pDest pSrc =
     (case (pSrc, pDest) of
        (Some src, Some dst) \<Rightarrow>
          (if uValueCnt src = 0 \<or> uValueCnt dst = 0 then Some (fail EINVAL, pDest)
           else
             (let uCnt = (if uValueCnt dst < uValueCnt src then uValueCnt dst else uValueCnt src);
                  dst1 = dst\<lparr>uValid := uValid src\<rparr>
              in if unat uCnt \<le> length (values_arr src)
                 then do {
                   vs \<leftarrow> buf_write (values_arr dst) 0 (take (unat uCnt) (values_arr src));
                   Some (rc_ok, Some (dst1\<lparr>values_arr := vs\<rparr>))
                 }
                 else None))
      | _ \<Rightarrow> Some (fail EINVAL, pDest))"

lemma WacomCopyState_wf:
  "wf_state d \<Longrightarrow> wf_state s \<Longrightarrow>
   WacomCopyState (Some d) (Some s) = Some (rc_ok, Some (d\<lparr>uValid := uValid s, values_arr := values_arr s\<rparr>))"
  by (simp add: WacomCopyState_def wf_state_def buf_write_def)

lemma WacomCopyState_eq:
  assumes "wf_state d" and "wf_state s"
  shows "WacomCopyState (Some d) (Some s) = Some (rc_ok, Some s)"
  using assms by (simp add: WacomCopyState_wf wf_state_def)

end
