(* ===== verification/CLib.thy ===== *)
theory CLib
  imports Prelude
begin

text \<open>
  What the sources use of the C library's string functions: \<open>strcasecmp\<close>, \<open>strncmp\<close>, \<open>atoi\<close>
  and \<open>sscanf\<close> with \<open>%d\<close> and literal characters. A C string is the list of its bytes
  without the terminating NUL; \<open>c_str\<close> cuts an array at its first NUL. Names the program holds
  as literals are HOL strings; \<open>asc\<close> gives their bytes.
\<close>

section \<open>Strings\<close>

definition asc :: "string \<Rightarrow> u8 list" where
  "asc s = map of_char s"

lemma asc_simps [simp]: "asc [] = []" "asc (c # s) = of_char c # asc s" "asc (s @ t) = asc s @ asc t"
  by (simp_all add: asc_def)

lemma length_asc [simp]: "length (asc s) = length s"
  by (simp add: asc_def)

definition c_str :: "u8 list \<Rightarrow> u8 list" where
  "c_str b = takeWhile (\<lambda>x. x \<noteq> 0) b"

lemma c_str_no_nul: "0 \<notin> set s \<Longrightarrow> c_str (s @ 0 # r) = s"
  unfolding c_str_def by (subst takeWhile_append2) auto

definition tolower :: "char \<Rightarrow> char" where
  "tolower c = (let n = (of_char c :: nat) in if 65 \<le> n \<and> n \<le> 90 then char_of (n + 32) else c)"

text \<open>\<open>strcasecmp(a, b) == 0\<close>\<close>

definition strcasecmp_eq :: "string \<Rightarrow> string \<Rightarrow> bool" where
  "strcasecmp_eq a b \<longleftrightarrow> map tolower a = map tolower b"

lemma strcasecmp_eq_refl [simp]: "strcasecmp_eq a a"
  by (simp add: strcasecmp_eq_def)

text \<open>\<open>strncmp(a, b, n) == 0\<close> for two C strings\<close>

definition strncmp_eq :: "u8 list \<Rightarrow> u8 list \<Rightarrow> nat \<Rightarrow> bool" where
  "strncmp_eq a b n \<longleftrightarrow> take n a = take n b"

section \<open>Decimal scanning\<close>

definition isspace :: "u8 \<Rightarrow> bool" where
  "isspace b \<longleftrightarrow> b = 32 \<or> 9 \<le> b \<and> b \<le> 13"

definition isdigit :: "u8 \<Rightarrow> bool" where
  "isdigit b \<longleftrightarrow> 48 \<le> b \<and> b \<le> 57"

definition digits_value :: "u8 list \<Rightarrow> int" where
  "digits_value ds = foldl (\<lambda>v d. v * 10 + (uint d - 48)) 0 ds"

text \<open>
  One \<open>%d\<close>: skip white space, an optional sign, at least one digit. A value that does not fit
  an \<open>int\<close> makes the behaviour undefined (C11 7.21.6.2, paragraph 10).
\<close>

datatype scan_result = ScanFail | ScanUB | ScanOk s32 "u8 list"

definition scan_sign :: "u8 list \<Rightarrow> bool \<times> u8 list" where
  "scan_sign s = (case s of [] \<Rightarrow> (False, [])
     | b # r \<Rightarrow> if b = 0x2D then (True, r) else if b = 0x2B then (False, r) else (False, s))"

definition scan_d :: "u8 list \<Rightarrow> scan_result" where
  "scan_d s =
     (let (neg, s2) = scan_sign (dropWhile isspace s);
          ds = takeWhile isdigit s2;
          v = (if neg then - digits_value ds else digits_value ds)
      in if ds = [] then ScanFail
         else if v < - (2 ^ 31) \<or> 2 ^ 31 \<le> v then ScanUB
         else ScanOk (of_int v) (dropWhile isdigit s2))"

text \<open>
  \<open>sscanf\<close> gives the values assigned, in order; the number the C function returns is their
  count (a negative return before the first conversion counts as none, which is all the callers
  distinguish).
\<close>

datatype fmt = Fd | Fch u8

fun sscanf :: "fmt list \<Rightarrow> u8 list \<Rightarrow> s32 list option" where
  "sscanf [] s = Some []"
| "sscanf (Fch c # fs) [] = Some []"
| "sscanf (Fch c # fs) (b # s) = (if b = c then sscanf fs s else Some [])"
| "sscanf (Fd # fs) s =
     (case scan_d s of ScanFail \<Rightarrow> Some [] | ScanUB \<Rightarrow> None
      | ScanOk v r \<Rightarrow> map_option ((#) v) (sscanf fs r))"

definition atoi :: "u8 list \<Rightarrow> s32 option" where
  "atoi s = (case scan_d s of ScanFail \<Rightarrow> Some 0 | ScanUB \<Rightarrow> None | ScanOk v r \<Rightarrow> Some v)"

lemma sscanf_length: "sscanf fs s = Some vs \<Longrightarrow> length vs \<le> length (filter (\<lambda>f. f = Fd) fs)"
  by (induction fs s arbitrary: vs rule: sscanf.induct) (fastforce split: scan_result.splits if_splits)+

section \<open>Decimal printing, the inverse of scanning\<close>

fun dec :: "nat \<Rightarrow> u8 list" where
  "dec n = (if n < 10 then [of_nat (48 + n)] else dec (n div 10) @ [of_nat (48 + n mod 10)])"

declare dec.simps [simp del]

lemma isdigit_of_nat: "n < 10 \<Longrightarrow> isdigit (of_nat (48 + n))"
proof -
  assume "n < 10"
  then have "n \<in> {0, 1, 2, 3, 4, 5, 6, 7, 8, 9}" by auto
  then show ?thesis by (auto simp: isdigit_def)
qed

lemma dec_digits: "list_all isdigit (dec n)"
proof (induction n rule: dec.induct)
  case (1 n)
  then show ?case
    using isdigit_of_nat [of "n"] isdigit_of_nat [of "n mod 10"]
    by (cases "n < 10") (auto simp: dec.simps [of n] simp del: of_nat_add)
qed

lemma dec_nonempty [simp]: "dec n \<noteq> []"
  by (subst dec.simps) simp

lemma uint_digit: "n < 10 \<Longrightarrow> uint (of_nat (48 + n) :: u8) = int (48 + n)"
proof -
  assume "n < 10"
  then have "n \<in> {0, 1, 2, 3, 4, 5, 6, 7, 8, 9}" by auto
  then show ?thesis by auto
qed

lemma digits_value_dec: "digits_value (dec n) = int n"
proof (induction n rule: dec.induct)
  case (1 n)
  show ?case
  proof (cases "n < 10")
    case True
    then show ?thesis
      using uint_digit [of n] by (simp add: dec.simps [of n] digits_value_def del: of_nat_add)
  next
    case False
    have "digits_value (dec n) = digits_value (dec (n div 10)) * 10 + (uint (of_nat (48 + n mod 10) :: u8) - 48)"
      using False by (simp add: dec.simps [of n] digits_value_def)
    also have "\<dots> = int (n div 10) * 10 + int (n mod 10)"
      using 1 False uint_digit [of "n mod 10"] by simp
    finally show ?thesis by (simp add: zdiv_int zmod_int)
  qed
qed

lemma isdigit_not: "isdigit b \<Longrightarrow> \<not> isspace b \<and> b \<noteq> 0x2D \<and> b \<noteq> 0x2B"
  by (auto simp: isdigit_def isspace_def word_le_nat_alt)

lemma takeWhile_dec:
  assumes "r = [] \<or> \<not> isdigit (hd r)"
  shows "takeWhile isdigit (dec n @ r) = dec n" "dropWhile isdigit (dec n @ r) = r"
proof -
  have d: "\<forall>x\<in>set (dec n). isdigit x"
    using dec_digits [of n] by (simp add: list_all_iff)
  have r: "takeWhile isdigit r = []" "dropWhile isdigit r = r"
    using assms by (cases r; auto)+
  show "takeWhile isdigit (dec n @ r) = dec n"
    using d r by (simp add: takeWhile_append)
  show "dropWhile isdigit (dec n @ r) = r"
    using d r by (simp add: dropWhile_append)
qed

lemma scan_d_dec:
  assumes "n < 2 ^ 31" and "r = [] \<or> \<not> isdigit (hd r)"
  shows "scan_d (dec n @ r) = ScanOk (of_nat n) r"
proof -
  obtain b ds where b: "dec n = b # ds"
    by (cases "dec n") auto
  have "isdigit b"
    using dec_digits [of n] b by simp
  then have s: "dropWhile isspace (dec n @ r) = dec n @ r" "scan_sign (dec n @ r) = (False, dec n @ r)"
    using isdigit_not [of b] by (auto simp: b scan_sign_def)
  show ?thesis
    using assms(1) by (simp add: scan_d_def s takeWhile_dec [OF assms(2)] digits_value_dec)
qed

end
