(* ===== verification/Serial_Tables.thy ===== *)
theory Serial_Tables
  imports Tablet_State CLib
begin

text \<open>
  \<^verbatim>\<open>wacom/wacserial.c\<close>, the static part: the tablet object and the table records, the
  capability masks, the device tables, and the functions that search them
  (\<open>WacomGetSupportedSerialDeviceList\<close>, \<open>WacomGetSerialDeviceFromName\<close>, \<open>SerialFindModel\<close>).

  A function pointer is a datatype value naming the function. A pointer into a static table is
  the record it points to; a null pointer is \<open>None\<close>. A table that ends in a \<open>{ NULL }\<close> entry is
  the list of the entries before it, so \<open>pSubTypes\<close> is \<open>None\<close> for a null pointer and
  \<open>Some []\<close> for an empty table.
\<close>

section \<open>Data\<close>

datatype IDENTFUNC = SerialIdentDefault_fn | SerialIdentTabletPC_fn | SerialIdentWacom_fn

datatype INITFUNC = SerialInitTabletPC_fn | SerialInitWacom_fn

datatype PARSEFUNC = SerialParseWacomV_fn | SerialParseWacomIV_1_4_fn | SerialParseWacomIV_1_3_fn
  | SerialParseWacomIV_1_2_fn | SerialParseTabletPC_fn

record SERIALSUBTYPE =
  st_pszName :: string
  st_pszDesc :: string
  st_uSubType :: u32
  st_pszIdent :: string
  st_pfnInit :: "INITFUNC option"

record SERIALDEVICE =
  dv_pszName :: string
  dv_pszDesc :: string
  dv_uDevice :: u32
  dv_pSubTypes :: "SERIALSUBTYPE list option"
  dv_nProtocol :: s32
  dv_uPacketLength :: u32
  dv_uCaps :: u32
  dv_nMinBaudRate :: s32
  dv_pfnIdent :: "IDENTFUNC option"

record SERIALVENDOR =
  vn_pszName :: string
  vn_pszDesc :: string
  vn_uVendor :: u32
  vn_pDevices :: "SERIALDEVICE list"

record SERIALTABLET =
  s_fd :: int
  s_pVendor :: "SERIALVENDOR option"
  s_pDevice :: "SERIALDEVICE option"
  s_pSubType :: "SERIALSUBTYPE option"
  s_uPacketLength :: u32
  s_nVerMajor :: s32
  s_nVerMinor :: s32
  s_nVerRelease :: s32
  s_pfnIdent :: "IDENTFUNC option"
  s_pfnInit :: "INITFUNC option"
  s_pfnParse :: "PARSEFUNC option"
  s_nToolID :: s32
  s_state :: WACOMSTATE
  s_nBitErrors :: s32
  s_modelRequested :: WACOMMODEL

text \<open>
  The object \<open>WacomOpenSerialTablet\<close> allocates: zeroed, with the descriptor, the value count and
  the requested model filled in. (The table of functions is the same for every serial tablet and
  the engine only takes log messages; neither is a field here.)
\<close>

definition new_serial_tablet :: "int \<Rightarrow> WACOMMODEL option \<Rightarrow> SERIALTABLET" where
  "new_serial_tablet fd pModel =
    \<lparr>s_fd = fd, s_pVendor = None, s_pDevice = None, s_pSubType = None, s_uPacketLength = 0,
     s_nVerMajor = 0, s_nVerMinor = 0, s_nVerRelease = 0,
     s_pfnIdent = None, s_pfnInit = None, s_pfnParse = None, s_nToolID = 0,
     s_state = \<lparr>uValueCnt = of_nat WACOMFIELD_MAX, uValid = 0,
                values_arr = replicate WACOMFIELD_MAX zero_value\<rparr>,
     s_nBitErrors = 0,
     s_modelRequested = (case pModel of None \<Rightarrow> zero_model | Some m \<Rightarrow> m)\<rparr>"

lemma new_serial_tablet_wf [simp]: "wf_state (s_state (new_serial_tablet fd m))"
  by (simp add: new_serial_tablet_def wf_state_def)

section \<open>Capability masks\<close>

definition ARTPAD_CAPS :: u32 where
  "ARTPAD_CAPS = BIT WACOMFIELD_TOOLTYPE OR BIT WACOMFIELD_PROXIMITY OR BIT WACOMFIELD_BUTTONS
     OR BIT WACOMFIELD_POSITION_X OR BIT WACOMFIELD_POSITION_Y OR BIT WACOMFIELD_PRESSURE"

definition ARTPADII_CAPS :: u32 where
  "ARTPADII_CAPS = BIT WACOMFIELD_TOOLTYPE OR BIT WACOMFIELD_PROXIMITY OR BIT WACOMFIELD_BUTTONS
     OR BIT WACOMFIELD_POSITION_X OR BIT WACOMFIELD_POSITION_Y OR BIT WACOMFIELD_PRESSURE"

definition DIGITIZER_CAPS :: u32 where
  "DIGITIZER_CAPS = BIT WACOMFIELD_TOOLTYPE OR BIT WACOMFIELD_PROXIMITY OR BIT WACOMFIELD_BUTTONS
     OR BIT WACOMFIELD_POSITION_X OR BIT WACOMFIELD_POSITION_Y OR BIT WACOMFIELD_PRESSURE
     OR BIT WACOMFIELD_TILT_X OR BIT WACOMFIELD_TILT_Y"

definition DIGITIZERII_CAPS :: u32 where
  "DIGITIZERII_CAPS = BIT WACOMFIELD_TOOLTYPE OR BIT WACOMFIELD_PROXIMITY OR BIT WACOMFIELD_BUTTONS
     OR BIT WACOMFIELD_POSITION_X OR BIT WACOMFIELD_POSITION_Y OR BIT WACOMFIELD_PRESSURE
     OR BIT WACOMFIELD_TILT_X OR BIT WACOMFIELD_TILT_Y"

definition PENPARTNER_CAPS :: u32 where
  "PENPARTNER_CAPS = BIT WACOMFIELD_TOOLTYPE OR BIT WACOMFIELD_PROXIMITY OR BIT WACOMFIELD_BUTTONS
     OR BIT WACOMFIELD_POSITION_X OR BIT WACOMFIELD_POSITION_Y OR BIT WACOMFIELD_PRESSURE"

definition GRAPHIRE_CAPS :: u32 where
  "GRAPHIRE_CAPS = BIT WACOMFIELD_TOOLTYPE OR BIT WACOMFIELD_PROXIMITY OR BIT WACOMFIELD_BUTTONS
     OR BIT WACOMFIELD_POSITION_X OR BIT WACOMFIELD_POSITION_Y OR BIT WACOMFIELD_PRESSURE
     OR BIT WACOMFIELD_TILT_X OR BIT WACOMFIELD_TILT_Y"

definition CINTIQ_CAPS :: u32 where
  "CINTIQ_CAPS = BIT WACOMFIELD_TOOLTYPE OR BIT WACOMFIELD_PROXIMITY OR BIT WACOMFIELD_BUTTONS
     OR BIT WACOMFIELD_POSITION_X OR BIT WACOMFIELD_POSITION_Y OR BIT WACOMFIELD_PRESSURE
     OR BIT WACOMFIELD_TILT_X OR BIT WACOMFIELD_TILT_Y"

definition INTUOS_CAPS :: u32 where
  "INTUOS_CAPS = BIT WACOMFIELD_TOOLTYPE OR BIT WACOMFIELD_SERIAL OR BIT WACOMFIELD_PROXIMITY
     OR BIT WACOMFIELD_BUTTONS OR BIT WACOMFIELD_POSITION_X OR BIT WACOMFIELD_POSITION_Y
     OR BIT WACOMFIELD_ROTATION_Z OR BIT WACOMFIELD_DISTANCE OR BIT WACOMFIELD_PRESSURE
     OR BIT WACOMFIELD_TILT_X OR BIT WACOMFIELD_TILT_Y OR BIT WACOMFIELD_ABSWHEEL
     OR BIT WACOMFIELD_RELWHEEL OR BIT WACOMFIELD_THROTTLE"

definition TABLETPC_CAPS :: u32 where
  "TABLETPC_CAPS = BIT WACOMFIELD_TOOLTYPE OR BIT WACOMFIELD_SERIAL OR BIT WACOMFIELD_PROXIMITY
     OR BIT WACOMFIELD_BUTTONS OR BIT WACOMFIELD_POSITION_X OR BIT WACOMFIELD_POSITION_Y
     OR BIT WACOMFIELD_PRESSURE"

definition INTUOS2_CAPS :: u32 where
  "INTUOS2_CAPS = INTUOS_CAPS"

abbreviation (input) PROTOCOL_4 :: s32 where "PROTOCOL_4 \<equiv> 4"
abbreviation (input) PROTOCOL_5 :: s32 where "PROTOCOL_5 \<equiv> 5"

definition WACOM_SUBTYPE :: "string \<Rightarrow> string \<Rightarrow> u32 \<Rightarrow> SERIALSUBTYPE" where
  "WACOM_SUBTYPE i d s = \<lparr>st_pszName = i, st_pszDesc = d, st_uSubType = s, st_pszIdent = i,
     st_pfnInit = Some SerialInitWacom_fn\<rparr>"

definition TPC_SUBTYPE :: "string \<Rightarrow> string \<Rightarrow> u32 \<Rightarrow> SERIALSUBTYPE" where
  "TPC_SUBTYPE i d s = \<lparr>st_pszName = i, st_pszDesc = d, st_uSubType = s, st_pszIdent = i,
     st_pfnInit = Some SerialInitTabletPC_fn\<rparr>"

definition WACOM_DEVICE_P4 ::
  "string \<Rightarrow> string \<Rightarrow> u32 \<Rightarrow> SERIALSUBTYPE list option \<Rightarrow> u32 \<Rightarrow> SERIALDEVICE" where
  "WACOM_DEVICE_P4 n d i s c = \<lparr>dv_pszName = n, dv_pszDesc = d, dv_uDevice = i, dv_pSubTypes = s,
     dv_nProtocol = PROTOCOL_4, dv_uPacketLength = 7, dv_uCaps = c, dv_nMinBaudRate = 9600,
     dv_pfnIdent = Some SerialIdentWacom_fn\<rparr>"

definition WACOM_DEVICE_P5 ::
  "string \<Rightarrow> string \<Rightarrow> u32 \<Rightarrow> SERIALSUBTYPE list option \<Rightarrow> u32 \<Rightarrow> SERIALDEVICE" where
  "WACOM_DEVICE_P5 n d i s c = \<lparr>dv_pszName = n, dv_pszDesc = d, dv_uDevice = i, dv_pSubTypes = s,
     dv_nProtocol = PROTOCOL_5, dv_uPacketLength = 9, dv_uCaps = c, dv_nMinBaudRate = 9600,
     dv_pfnIdent = Some SerialIdentWacom_fn\<rparr>"

definition TPC_DEVICE ::
  "string \<Rightarrow> string \<Rightarrow> u32 \<Rightarrow> SERIALSUBTYPE list option \<Rightarrow> u32 \<Rightarrow> SERIALDEVICE" where
  "TPC_DEVICE n d i s c = \<lparr>dv_pszName = n, dv_pszDesc = d, dv_uDevice = i, dv_pSubTypes = s,
     dv_nProtocol = 0, dv_uPacketLength = 9, dv_uCaps = c, dv_nMinBaudRate = 19200,
     dv_pfnIdent = Some SerialIdentTabletPC_fn\<rparr>"

section \<open>Tables\<close>

definition xArtPadII :: "SERIALSUBTYPE list" where
  "xArtPadII = [WACOM_SUBTYPE ''KT-0405-R'' ''Wacom ArtPadII 4x5'' 1]"

definition xDigitizerII :: "SERIALSUBTYPE list" where
  "xDigitizerII =
    [WACOM_SUBTYPE ''UD-0608-R'' ''Wacom DigitizerII 6x8'' 1,
     WACOM_SUBTYPE ''UD-1212-R'' ''Wacom DigitizerII 12x12'' 2,
     WACOM_SUBTYPE ''UD-1218-R'' ''Wacom DigitizerII 12x18'' 3,
     WACOM_SUBTYPE ''UD-1825-R'' ''Wacom DigitizerII 18x25'' 4]"

definition xPenPartner :: "SERIALSUBTYPE list" where
  "xPenPartner = [WACOM_SUBTYPE ''CT-0405-R'' ''Wacom PenPartner'' 1]"

definition xGraphire :: "SERIALSUBTYPE list" where
  "xGraphire = [WACOM_SUBTYPE ''ET-0405-R'' ''Wacom Graphire'' 1]"

definition xIntuos :: "SERIALSUBTYPE list" where
  "xIntuos =
    [WACOM_SUBTYPE ''GD-0405-R'' ''Wacom Intuos 4x5'' 1,
     WACOM_SUBTYPE ''GD-0608-R'' ''Wacom Intuos 6x8'' 2,
     WACOM_SUBTYPE ''GD-0912-R'' ''Wacom Intuos 9x12'' 3,
     WACOM_SUBTYPE ''GD-1212-R'' ''Wacom Intuos 12x12'' 4,
     WACOM_SUBTYPE ''GD-1218-R'' ''Wacom Intuos 12x18'' 5]"

definition xIntuos2 :: "SERIALSUBTYPE list" where
  "xIntuos2 =
    [WACOM_SUBTYPE ''XD-0405-R'' ''Wacom Intuos2 4x5'' 1,
     WACOM_SUBTYPE ''XD-0608-R'' ''Wacom Intuos2 6x8'' 2,
     WACOM_SUBTYPE ''XD-0912-R'' ''Wacom Intuos2 9x12'' 3,
     WACOM_SUBTYPE ''XD-1212-R'' ''Wacom Intuos2 12x12'' 4,
     WACOM_SUBTYPE ''XD-1218-R'' ''Wacom Intuos2 12x18'' 5]"

definition xCintiq :: "SERIALSUBTYPE list" where
  "xCintiq =
    [WACOM_SUBTYPE ''PL-250'' ''Wacom PL-250'' 1,
     WACOM_SUBTYPE ''PL-270'' ''Wacom PL-270'' 2,
     WACOM_SUBTYPE ''PL-400'' ''Wacom PL-400'' 3,
     WACOM_SUBTYPE ''PL-500'' ''Wacom PL-500'' 4,
     WACOM_SUBTYPE ''PL-550'' ''Wacom PL-550'' 5,
     WACOM_SUBTYPE ''PL-600'' ''Wacom PL-600'' 6,
     WACOM_SUBTYPE ''PL-600SX'' ''Wacom PL-600SX'' 7,
     WACOM_SUBTYPE ''PL-800'' ''Wacom PL-800'' 8]"

definition xWacomDevices :: "SERIALDEVICE list" where
  "xWacomDevices =
    [WACOM_DEVICE_P4 ''art'' ''ArtPad'' WACOMDEVICE_ARTPAD None ARTPAD_CAPS,
     WACOM_DEVICE_P4 ''art2'' ''ArtPadII'' WACOMDEVICE_ARTPADII (Some xArtPadII) ARTPADII_CAPS,
     WACOM_DEVICE_P4 ''dig'' ''Digitizer'' WACOMDEVICE_DIGITIZER None DIGITIZERII_CAPS,
     WACOM_DEVICE_P4 ''dig2'' ''Digitizer II'' WACOMDEVICE_DIGITIZERII (Some xDigitizerII) DIGITIZERII_CAPS,
     WACOM_DEVICE_P4 ''pp'' ''PenPartner'' WACOMDEVICE_PENPARTNER (Some xPenPartner) PENPARTNER_CAPS,
     WACOM_DEVICE_P4 ''gr'' ''Graphire'' WACOMDEVICE_GRAPHIRE (Some xGraphire) GRAPHIRE_CAPS,
     WACOM_DEVICE_P4 ''pl'' ''Cintiq (PL)'' WACOMDEVICE_CINTIQ (Some xCintiq) CINTIQ_CAPS,
     WACOM_DEVICE_P5 ''int'' ''Intuos'' WACOMDEVICE_INTUOS (Some xIntuos) INTUOS_CAPS,
     WACOM_DEVICE_P5 ''int2'' ''Intuos2'' WACOMDEVICE_INTUOS2 (Some xIntuos2) INTUOS2_CAPS]"

definition xTabletPC :: "SERIALSUBTYPE list" where
  "xTabletPC = [TPC_SUBTYPE ''tpc'' ''Tablet PC Screen'' 1]"

definition xtpcDevices :: "SERIALDEVICE list" where
  "xtpcDevices = [TPC_DEVICE ''tpc'' ''TabletPC'' WACOMDEVICE_TPC (Some xTabletPC) TABLETPC_CAPS]"

definition xWacomVendor :: SERIALVENDOR where
  "xWacomVendor = \<lparr>vn_pszName = ''wacom'', vn_pszDesc = ''Wacom'', vn_uVendor = WACOMVENDOR_WACOM,
     vn_pDevices = xWacomDevices\<rparr>"

definition xtpcVendor :: SERIALVENDOR where
  "xtpcVendor = \<lparr>vn_pszName = ''Wacom'', vn_pszDesc = ''Wacom'', vn_uVendor = WACOMVENDOR_TPC,
     vn_pDevices = xtpcDevices\<rparr>"

definition xVendors :: "SERIALVENDOR list" where
  "xVendors = [xWacomVendor, xtpcVendor]"

lemmas subtype_tables = xArtPadII_def xDigitizerII_def xPenPartner_def xGraphire_def xIntuos_def
  xIntuos2_def xCintiq_def xTabletPC_def WACOM_SUBTYPE_def TPC_SUBTYPE_def

lemmas device_tables = xWacomDevices_def xtpcDevices_def WACOM_DEVICE_P4_def WACOM_DEVICE_P5_def
  TPC_DEVICE_def

lemmas vendor_tables = xVendors_def xWacomVendor_def xtpcVendor_def

lemma xWacomVendor_neq [simp]: "xWacomVendor \<noteq> xtpcVendor" "xtpcVendor \<noteq> xWacomVendor"
  by (simp_all add: vendor_tables)

section \<open>The supported-device list\<close>

definition serial_devrec :: "SERIALVENDOR \<Rightarrow> SERIALDEVICE \<Rightarrow> WACOMDEVICEREC" where
  "serial_devrec v d =
    \<lparr>dr_pszName = dv_pszName d, dr_pszDesc = dv_pszDesc d, dr_pszVendorName = vn_pszName v,
     dr_pszVendorDesc = vn_pszDesc v, dr_pszClass = ''serial'',
     dr_model = \<lparr>uClass = WACOMCLASS_SERIAL, uVendor = vn_uVendor v, uDevice = dv_uDevice d, uSubType = 0\<rparr>\<rparr>"

text \<open>
  The first loop counts the devices, the second fills the records; \<open>assert\<close> compares the two.
  The arguments say whether \<open>ppList\<close> and \<open>pnSize\<close> are non-null.
\<close>

fun serial_count :: "SERIALVENDOR list \<Rightarrow> nat" where
  "serial_count [] = 0"
| "serial_count (v # vs) = length (vn_pDevices v) + serial_count vs"

fun serial_fill :: "SERIALVENDOR list \<Rightarrow> WACOMDEVICEREC list" where
  "serial_fill [] = []"
| "serial_fill (v # vs) = map (serial_devrec v) (vn_pDevices v) @ serial_fill vs"

definition WacomGetSupportedSerialDeviceList ::
  "bool \<Rightarrow> bool \<Rightarrow> (rc \<times> (WACOMDEVICEREC list \<times> nat) option) option" where
  "WacomGetSupportedSerialDeviceList ppList pnSize =
     (if \<not> ppList \<or> \<not> pnSize then Some (fail EINVAL, None)
      else (let nCnt = serial_count xVendors; recs = serial_fill xVendors
            in if length recs = nCnt then Some (rc_ok, Some (recs, nCnt)) else None))"

section \<open>Names\<close>

fun serial_name_lookup :: "string \<Rightarrow> SERIALVENDOR list \<Rightarrow> SERIALDEVICE option" where
  "serial_name_lookup n [] = None"
| "serial_name_lookup n (v # vs) =
     (case find (\<lambda>d. strcasecmp_eq n (dv_pszName d)) (vn_pDevices v) of
        Some d \<Rightarrow> Some d | None \<Rightarrow> serial_name_lookup n vs)"

text \<open>The device number (0 when there is none) and the \<open>errno\<close> assigned.\<close>

definition WacomGetSerialDeviceFromName :: "string option \<Rightarrow> u32 \<times> errno option" where
  "WacomGetSerialDeviceFromName pszName =
     (case pszName of None \<Rightarrow> (0, Some EINVAL)
      | Some n \<Rightarrow> (case serial_name_lookup n xVendors of
                     Some d \<Rightarrow> (dv_uDevice d, None) | None \<Rightarrow> (0, Some ENOENT)))"

section \<open>SerialFindModel\<close>

text \<open>
  The search over the vendors. A subtype number given for a device whose \<open>pSubTypes\<close> is null
  is a null dereference in the third loop's condition: \<open>None\<close>.
\<close>

type_synonym found = "SERIALVENDOR option \<times> SERIALDEVICE option \<times> SERIALSUBTYPE option"

fun find_in_vendors :: "WACOMMODEL \<Rightarrow> SERIALVENDOR list \<Rightarrow> (rc \<times> found) option" where
  "find_in_vendors m [] = Some (fail ENOENT, None, None, None)"
| "find_in_vendors m (v # vs) =
     (if uVendor m = 0 \<or> uVendor m = vn_uVendor v then
        (case find (\<lambda>d. uDevice m = dv_uDevice d) (vn_pDevices v) of
           Some d \<Rightarrow>
             (if uSubType m = 0 then Some (rc_ok, Some v, Some d, None)
              else (case dv_pSubTypes d of
                      None \<Rightarrow> None
                    | Some subs \<Rightarrow>
                        (case find (\<lambda>s. uSubType m = st_uSubType s) subs of
                           Some s \<Rightarrow> Some (rc_ok, Some v, Some d, Some s)
                         | None \<Rightarrow>
                             if uVendor m = 0 then find_in_vendors m vs
                             else Some (fail ENOENT, None, None, None))))
         | None \<Rightarrow>
             if uVendor m \<noteq> 0 then Some (fail ENOENT, None, None, None)
             else find_in_vendors m vs)
      else find_in_vendors m vs)"

definition SerialFindModel :: "WACOMMODEL option \<Rightarrow> (rc \<times> found) option" where
  "SerialFindModel pModel =
     (case pModel of
        None \<Rightarrow> Some (fail EINVAL, None, None, None)
      | Some m \<Rightarrow>
          if uDevice m = 0 then Some (rc_ok, None, None, None)
          else find_in_vendors m xVendors)"

end
