(* ===== verification/Catalog.thy ===== *)
theory Catalog
  imports Tablet_State CLib
begin

text \<open>
  The interface \<^verbatim>\<open>wacom/wactablet.c\<close> relies on in \<^verbatim>\<open>wacserial.c\<close> and \<^verbatim>\<open>wacusb.c\<close>: a list
  of the supported devices and a function from names to device numbers. Each side keeps its
  tables to itself; the locale states what they promise together, and the facts a client needs are
  proved from that.
\<close>

locale device_catalog =
  fixes recs :: "WACOMDEVICEREC list"
    and lookup :: "string option \<Rightarrow> u32 \<times> errno option"
    and dev_class :: u32
  assumes listed_class: "r \<in> set recs \<Longrightarrow> uClass (dr_model r) = dev_class \<and> uDevice (dr_model r) \<noteq> 0"
    and lookup_listed: "r \<in> set recs \<Longrightarrow> lookup (Some (dr_pszName r)) = (uDevice (dr_model r), None)"
    and lookup_cases: "lookup (Some n) = (d, e) \<Longrightarrow>
       (e = None \<and> (\<exists>r\<in>set recs. strcasecmp_eq n (dr_pszName r) \<and> d = uDevice (dr_model r))) \<or>
       (e = Some ENOENT \<and> d = 0 \<and> (\<forall>r\<in>set recs. \<not> strcasecmp_eq n (dr_pszName r)))"
    and lookup_null: "lookup None = (0, Some EINVAL)"
begin

text \<open>A name is known exactly when the number is not 0.\<close>

lemma lookup_known: "fst (lookup (Some n)) \<noteq> 0 \<longleftrightarrow> (\<exists>r\<in>set recs. strcasecmp_eq n (dr_pszName r))"
proof (cases "lookup (Some n)")
  case (Pair d e)
  from lookup_cases [OF this] show ?thesis using Pair listed_class by auto
qed

lemma lookup_zero_errno: "lookup n = (0, e) \<Longrightarrow> e \<noteq> None"
  using lookup_cases [of "the n" 0 e] lookup_null listed_class by (cases n) auto

lemma lookup_nonzero: "fst (lookup n) \<noteq> 0 \<Longrightarrow> snd (lookup n) = None"
  using lookup_cases [of "the n" "fst (lookup n)" "snd (lookup n)"] lookup_null by (cases n) auto

text \<open>Two listed names that differ only in case are the same device.\<close>

lemma listed_names_agree:
  assumes "r \<in> set recs" and "r' \<in> set recs" and "dr_pszName r = dr_pszName r'"
  shows "uDevice (dr_model r) = uDevice (dr_model r')"
  using lookup_listed [OF assms(1)] lookup_listed [OF assms(2)] assms(3) by simp

end

end
