(* ===== verification/Serial_Catalog.thy ===== *)
theory Serial_Catalog
  imports Serial_Tables Catalog
begin

text \<open>
  The properties of the tables of \<^verbatim>\<open>wacserial.c\<close>: the list of supported devices, the
  lookup by name, and \<open>SerialFindModel\<close>.
\<close>

section \<open>The list and the names\<close>

lemma serial_count_fill: "length (serial_fill vs) = serial_count vs"
  by (induction vs) simp_all

definition serial_recs :: "WACOMDEVICEREC list" where
  "serial_recs = serial_fill xVendors"

lemma list_succeeds: "WacomGetSupportedSerialDeviceList True True = Some (rc_ok, Some (serial_recs, length serial_recs))"
  by (simp add: WacomGetSupportedSerialDeviceList_def Let_def serial_count_fill serial_recs_def)

lemma serial_listed_class:
  "list_all (\<lambda>r. uClass (dr_model r) = WACOMCLASS_SERIAL \<and> uDevice (dr_model r) \<noteq> 0) serial_recs"
  by code_simp

lemma serial_lookup_listed:
  "list_all (\<lambda>r. WacomGetSerialDeviceFromName (Some (dr_pszName r)) = (uDevice (dr_model r), None)) serial_recs"
  by code_simp

lemma serial_name_lookup_Some:
  "serial_name_lookup n vs = Some d \<Longrightarrow> \<exists>r\<in>set (serial_fill vs). strcasecmp_eq n (dr_pszName r) \<and> uDevice (dr_model r) = dv_uDevice d"
proof (induction vs)
  case (Cons v vs)
  show ?case
  proof (cases "find (\<lambda>d. strcasecmp_eq n (dv_pszName d)) (vn_pDevices v)")
    case None
    then show ?thesis using Cons by auto
  next
    case (Some d')
    then have "d' \<in> set (vn_pDevices v)" "strcasecmp_eq n (dv_pszName d')" "d = d'"
      using Cons.prems find_SomeD [OF Some] by auto
    then show ?thesis by (intro bexI [of _ "serial_devrec v d'"]) (auto simp: serial_devrec_def)
  qed
qed simp

lemma serial_name_lookup_None:
  "serial_name_lookup n vs = None \<Longrightarrow> \<forall>r\<in>set (serial_fill vs). \<not> strcasecmp_eq n (dr_pszName r)"
  by (induction vs) (auto simp: serial_devrec_def find_None_iff split: option.splits)

interpretation serial_catalog: device_catalog serial_recs WacomGetSerialDeviceFromName WACOMCLASS_SERIAL
proof unfold_locales
  show "uClass (dr_model r) = WACOMCLASS_SERIAL \<and> uDevice (dr_model r) \<noteq> 0" if "r \<in> set serial_recs" for r
    using that serial_listed_class by (auto simp: list_all_iff)
  show "WacomGetSerialDeviceFromName (Some (dr_pszName r)) = (uDevice (dr_model r), None)" if "r \<in> set serial_recs" for r
    using that serial_lookup_listed by (auto simp: list_all_iff)
  show "(e = None \<and> (\<exists>r\<in>set serial_recs. strcasecmp_eq n (dr_pszName r) \<and> d = uDevice (dr_model r))) \<or>
      (e = Some ENOENT \<and> d = 0 \<and> (\<forall>r\<in>set serial_recs. \<not> strcasecmp_eq n (dr_pszName r)))"
    if "WacomGetSerialDeviceFromName (Some n) = (d, e)" for n d e
    using that serial_name_lookup_Some [of n xVendors] serial_name_lookup_None [of n xVendors]
    by (auto simp: WacomGetSerialDeviceFromName_def serial_recs_def split: option.splits)
  show "WacomGetSerialDeviceFromName None = (0, Some EINVAL)"
    by (simp add: WacomGetSerialDeviceFromName_def)
qed

section \<open>SerialFindModel\<close>

text \<open>A search among the devices that have the number asked for.\<close>

definition model_matches :: "WACOMMODEL \<Rightarrow> found \<Rightarrow> bool" where
  "model_matches m fnd \<longleftrightarrow>
     (case fnd of
        (Some v, Some d, s) \<Rightarrow>
          v \<in> set xVendors \<and> d \<in> set (vn_pDevices v) \<and> dv_uDevice d = uDevice m \<and>
          (uVendor m \<noteq> 0 \<longrightarrow> vn_uVendor v = uVendor m) \<and>
          (case s of None \<Rightarrow> uSubType m = 0
           | Some s' \<Rightarrow> st_uSubType s' = uSubType m \<and> (case dv_pSubTypes d of None \<Rightarrow> False | Some subs \<Rightarrow> s' \<in> set subs))
      | _ \<Rightarrow> False)"

lemma find_matches:
  "find_in_vendors m vs = Some (rc_ok, fnd) \<Longrightarrow> set vs \<subseteq> set xVendors \<Longrightarrow> model_matches m fnd"
proof (induction vs)
  case (Cons v vs)
  show ?case
  proof (cases "find_in_vendors m vs = Some (rc_ok, fnd)")
    case True
    then show ?thesis using Cons by simp
  next
    case False
    then obtain d where d: "find (\<lambda>d. uDevice m = dv_uDevice d) (vn_pDevices v) = Some d"
      "uVendor m = 0 \<or> uVendor m = vn_uVendor v"
      "(uSubType m = 0 \<and> fnd = (Some v, Some d, None)) \<or>
       (\<exists>subs s. dv_pSubTypes d = Some subs \<and> find (\<lambda>s. uSubType m = st_uSubType s) subs = Some s \<and> fnd = (Some v, Some d, Some s))"
      using Cons.prems by (auto split: if_splits option.splits)
    have v: "v \<in> set xVendors" using Cons.prems(2) by simp
    have "d \<in> set (vn_pDevices v)" "dv_uDevice d = uDevice m" using find_SomeD [OF d(1)] by auto
    with d(2,3) v show ?thesis
      by (auto simp: model_matches_def dest: find_SomeD)
  qed
qed simp

text \<open>The devices without a table of subtypes.\<close>

lemma null_subtypes:
  "find_in_vendors m xVendors = None \<longleftrightarrow>
     uSubType m \<noteq> 0 \<and> (uVendor m = 0 \<or> uVendor m = WACOMVENDOR_WACOM) \<and>
     (uDevice m = WACOMDEVICE_ARTPAD \<or> uDevice m = WACOMDEVICE_DIGITIZER)"
proof (cases "uDevice m \<in> {1, 2, 3, 4, 5, 6, 0xA, 0xB, 0xC, 0x10}")
  case True
  then show ?thesis
    by (elim insertE emptyE; simp add: vendor_tables device_tables split: option.splits)
next
  case False
  then show ?thesis by (simp add: vendor_tables device_tables)
qed

text \<open>What \<open>SerialFindModel\<close> finds is what was asked for. It refuses a null model with \<open>EINVAL\<close>,
  finds nothing for device 0, and otherwise either returns a vendor, one of its devices with the number
  asked for and, when a subtype was asked for, the one of that device with that number (and only then
  one); or it fails with \<open>ENOENT\<close>.\<close>

theorem find_model_sound:
  "SerialFindModel None = Some (fail EINVAL, None, None, None) \<and>
   (uDevice m = 0 \<longrightarrow> SerialFindModel (Some m) = Some (rc_ok, None, None, None)) \<and>
   (uDevice m \<noteq> 0 \<longrightarrow> SerialFindModel (Some m) = Some (rc, fnd) \<longrightarrow>
      rc = rc_ok \<and> model_matches m fnd \<or> rc = fail ENOENT \<and> fnd = (None, None, None))"
proof -
  have "rc = rc_ok \<or> rc = fail ENOENT \<and> fnd = (None, None, None)" if "find_in_vendors m vs = Some (rc, fnd)" for vs
    using that by (induction vs) (auto split: if_splits option.splits)
  then show ?thesis
    using find_matches [of m xVendors fnd] by (auto simp: SerialFindModel_def)
qed

theorem find_model_sound_witness:
  "let m = \<lparr>uClass = 1, uVendor = 0, uDevice = WACOMDEVICE_INTUOS2, uSubType = 3\<rparr>;
       fnd = (Some xWacomVendor, Some (xWacomDevices ! 8), Some (xIntuos2 ! 2))
   in model_matches m fnd"
proof -
  let ?m = "\<lparr>uClass = 1, uVendor = 0, uDevice = WACOMDEVICE_INTUOS2, uSubType = 3\<rparr>"
  let ?f = "(Some xWacomVendor, Some (xWacomDevices ! 8), Some (xIntuos2 ! 2))"
  have "SerialFindModel (Some ?m) = Some (rc_ok, ?f)"
    by (simp add: SerialFindModel_def vendor_tables device_tables subtype_tables)
  with find_model_sound [of ?m rc_ok ?f] show ?thesis by simp
qed

text \<open>\<open>SerialFindModel\<close> dereferences a null pointer exactly when a subtype number is given for a
  device without a table of subtypes, the \<open>ArtPad\<close> or the \<open>Digitizer\<close>; for every other model it is
  defined.\<close>

theorem find_model_null:
  "SerialFindModel (Some m) = None \<longleftrightarrow>
     uSubType m \<noteq> 0 \<and> (uVendor m = 0 \<or> uVendor m = WACOMVENDOR_WACOM) \<and>
     (uDevice m = WACOMDEVICE_ARTPAD \<or> uDevice m = WACOMDEVICE_DIGITIZER)"
  using null_subtypes [of m] by (auto simp: SerialFindModel_def)

text \<open>The list, the names and the search agree. \<open>WacomGetSupportedSerialDeviceList\<close> lists ten
  devices; each listed name, in any mixture of cases, looks up to a device number, and the exact
  name to the listed one, and \<open>SerialFindModel\<close> finds the device of the listed model; a name that
  is not listed gives 0 and \<open>ENOENT\<close>.\<close>

theorem catalog_consistent:
  "\<exists>recs. WacomGetSupportedSerialDeviceList True True = Some (rc_ok, Some (recs, 10)) \<and>
     list_all (\<lambda>r. WacomGetSerialDeviceFromName (Some (dr_pszName r)) = (uDevice (dr_model r), None) \<and>
       (case SerialFindModel (Some (dr_model r)) of
          Some (rc, Some v, Some d, None) \<Rightarrow> rc = rc_ok \<and> dv_pszName d = dr_pszName r \<and> vn_pszName v = dr_pszVendorName r
        | _ \<Rightarrow> False)) recs \<and>
     (fst (WacomGetSerialDeviceFromName (Some n)) \<noteq> 0 \<longleftrightarrow> list_ex (\<lambda>r. strcasecmp_eq n (dr_pszName r)) recs) \<and>
     (list_ex (\<lambda>r. strcasecmp_eq n (dr_pszName r)) recs \<or> WacomGetSerialDeviceFromName (Some n) = (0, Some ENOENT))"
proof -
  have len: "length serial_recs = 10" by code_simp
  have all: "list_all (\<lambda>r. WacomGetSerialDeviceFromName (Some (dr_pszName r)) = (uDevice (dr_model r), None) \<and>
       (case SerialFindModel (Some (dr_model r)) of
          Some (rc, Some v, Some d, None) \<Rightarrow> rc = rc_ok \<and> dv_pszName d = dr_pszName r \<and> vn_pszName v = dr_pszVendorName r
        | _ \<Rightarrow> False)) serial_recs"
    by code_simp
  have unknown: "list_ex (\<lambda>r. strcasecmp_eq n (dr_pszName r)) serial_recs \<or> WacomGetSerialDeviceFromName (Some n) = (0, Some ENOENT)"
    using serial_catalog.lookup_cases [of n "fst (WacomGetSerialDeviceFromName (Some n))" "snd (WacomGetSerialDeviceFromName (Some n))"]
    by (auto simp: list_ex_iff prod_eq_iff)
  show ?thesis
    using list_succeeds all unknown serial_catalog.lookup_known [of n] by (auto simp: len list_ex_iff)
qed

end
