(* ===== verification/Serial_Parse.thy ===== *)
theory Serial_Parse
  imports Serial_Tables
begin

text \<open>
  \<^verbatim>\<open>wacom/wacserial.c\<close>, the packet parsers: \<open>SerialParseWacomV\<close>, the three protocol IV
  parsers, \<open>SerialParseTabletPC\<close>, and \<open>SerialParseData\<close>, which checks the high bits and
  dispatches. A parser takes the tablet, the packet buffer, its length and the caller's state
  (\<open>None\<close> for a null pointer) and gives the return code, the tablet and the caller's state after
  the call; \<open>None\<close> as a whole is undefined behaviour, and every byte is read with \<open>byte_at\<close>, which gives \<open>None\<close>
  outside the packet. The decoders take the bytes they depend on, promoted to \<open>int\<close>.
\<close>

type_synonym parse_out = "(rc \<times> SERIALTABLET \<times> WACOMSTATE option) option"

abbreviation set_nValue :: "nat \<Rightarrow> s32 \<Rightarrow> SERIALTABLET \<Rightarrow> SERIALTABLET" where
  "set_nValue f v ps \<equiv> ps\<lparr>s_state := put_nValue f v (s_state ps)\<rparr>"

abbreviation cur_nValue :: "nat \<Rightarrow> SERIALTABLET \<Rightarrow> s32" where
  "cur_nValue f ps \<equiv> get_nValue f (s_state ps)"

text \<open>\<open>return pState ? WacomCopyState(pState,&pSerial->state) : 0;\<close>\<close>

definition copy_out :: "SERIALTABLET \<Rightarrow> WACOMSTATE option \<Rightarrow> parse_out" where
  "copy_out ps pState =
     (case pState of
        None \<Rightarrow> Some (rc_ok, ps, None)
      | Some d \<Rightarrow> do {
          (r, d') \<leftarrow> WacomCopyState (Some d) (Some (s_state ps));
          Some (r, ps, d')
        })"

text \<open>\<open>c ? a : b\<close> on a masked byte, and tests of a single bit.\<close>

abbreviation tst :: "s32 \<Rightarrow> bool" where "tst e \<equiv> e \<noteq> 0"

section \<open>Protocol V\<close>

definition v_x :: "s32 \<Rightarrow> s32 \<Rightarrow> s32 \<Rightarrow> s32" where
  "v_x b1 b2 b3 = push_bit 9 (b1 AND 0x7F) OR push_bit 2 (b2 AND 0x7F)
     OR drop_bit 5 (b3 AND 0x60)"

definition v_y :: "s32 \<Rightarrow> s32 \<Rightarrow> s32 \<Rightarrow> s32" where
  "v_y b3 b4 b5 = push_bit 11 (b3 AND 0x1F) OR push_bit 4 (b4 AND 0x7F)
     OR drop_bit 3 (b5 AND 0x78)"

definition v_toolid :: "s32 \<Rightarrow> s32 \<Rightarrow> s32" where
  "v_toolid b1 b2 = push_bit 5 (b1 AND 0x7F) OR drop_bit 2 (b2 AND 0x7C)"

definition v_serial :: "s32 \<Rightarrow> s32 \<Rightarrow> s32 \<Rightarrow> s32 \<Rightarrow> s32 \<Rightarrow> s32 \<Rightarrow> s32" where
  "v_serial b2 b3 b4 b5 b6 b7 = push_bit 30 (b2 AND 0x03) OR push_bit 23 (b3 AND 0x7F)
     OR push_bit 16 (b4 AND 0x7F) OR push_bit 9 (b5 AND 0x7F)
     OR push_bit 2 (b6 AND 0x7F) OR drop_bit 5 (b7 AND 0x60)"

text \<open>The \<open>switch\<close> on the tool id.\<close>

definition v_tool :: "s32 \<Rightarrow> s32" where
  "v_tool toolid =
     (if toolid = 0x812 \<or> toolid = 0x012 then WACOMTOOLTYPE_PENCIL
      else if toolid = 0x822 \<or> toolid = 0x852 \<or> toolid = 0x842 \<or> toolid = 0x022
      then WACOMTOOLTYPE_PEN
      else if toolid = 0x832 \<or> toolid = 0x032 then WACOMTOOLTYPE_BRUSH
      else if toolid = 0x007 \<or> toolid = 0x09C \<or> toolid = 0x094 then WACOMTOOLTYPE_MOUSE
      else if toolid = 0x096 then WACOMTOOLTYPE_LENS
      else if toolid = 0x82A \<or> toolid = 0x85A \<or> toolid = 0x91A \<or> toolid = 0x0FA
      then WACOMTOOLTYPE_ERASER
      else if toolid = 0x112 then WACOMTOOLTYPE_AIRBRUSH
      else WACOMTOOLTYPE_PEN)"

text \<open>The ten-bit value in bytes 5 and 6 (pressure, wheel, throttle).\<close>

definition v_ten :: "s32 \<Rightarrow> s32 \<Rightarrow> s32" where
  "v_ten b5 b6 = push_bit 7 (b5 AND 0x07) OR (b6 AND 0x7F)"

definition v_tilt :: "s32 \<Rightarrow> s32" where
  "v_tilt b = (let t = b AND 0x3F in if tst (b AND 0x40) then t - 0x40 else t)"

definition v_pen_button :: "s32 \<Rightarrow> s32 \<Rightarrow> s32" where
  "v_pen_button b0 press =
     (if 10 < sint press then BIT WACOMBUTTON_TOUCH else 0)
     OR (if tst (b0 AND 0x02) then BIT WACOMBUTTON_STYLUS else 0)
     OR (if tst (b0 AND 0x04) then BIT WACOMBUTTON_STYLUS2 else 0)"

text \<open>The mouse buttons and the wheel depend on the tool that came into proximity.\<close>

definition v_mouse_button :: "s32 \<Rightarrow> s32 \<Rightarrow> s32 \<times> s32" where
  "v_mouse_button toolid b8 =
     (if toolid = 0x094 then (drop_bit 1 (b8 AND 0x70) OR (b8 AND 0x07), 0)
      else if toolid = 0x096 then (b8 AND 0x1F, 0)
      else (drop_bit 2 (b8 AND 0x1C),
            - (b8 AND 1) + drop_bit 1 (b8 AND 2)))"

definition v_mouse_mask :: "s32 \<Rightarrow> s32 \<Rightarrow> s32" where
  "v_mouse_mask old button =
     (old AND NOT (BIT WACOMBUTTON_LEFT OR BIT WACOMBUTTON_RIGHT OR BIT WACOMBUTTON_MIDDLE
                   OR BIT WACOMBUTTON_EXTRA OR BIT WACOMBUTTON_SIDE))
     OR (if tst (button AND 1) then BIT WACOMBUTTON_LEFT else 0)
     OR (if tst (button AND 2) then BIT WACOMBUTTON_MIDDLE else 0)
     OR (if tst (button AND 4) then BIT WACOMBUTTON_RIGHT else 0)
     OR (if tst (button AND 8) then BIT WACOMBUTTON_EXTRA else 0)
     OR (if tst (button AND 16) then BIT WACOMBUTTON_SIDE else 0)"

definition v_rot :: "s32 \<Rightarrow> s32 \<Rightarrow> s32" where
  "v_rot b6 b7 = (let rot = push_bit 7 (b6 AND 0x0F) OR (b7 AND 0x7F)
              in if sint rot < 900 then - rot else 1799 - rot)"

definition SerialParseWacomV ::
  "SERIALTABLET \<Rightarrow> u8 list \<Rightarrow> nat \<Rightarrow> WACOMSTATE option \<Rightarrow> parse_out" where
  "SerialParseWacomV ps d uLength pState =
     (if uLength \<noteq> 9 then Some (fail EINVAL, ps, pState)
      else do {
        b0 \<leftarrow> byte_at d 0;
        \<comment> \<open>in\<close>
        if b0 AND 0xFC = 0xC0 then do {
          b1 \<leftarrow> byte_at d 1; b2 \<leftarrow> byte_at d 2; b3 \<leftarrow> byte_at d 3; b4 \<leftarrow> byte_at d 4; b5 \<leftarrow> byte_at d 5; b6 \<leftarrow> byte_at d 6; b7 \<leftarrow> byte_at d 7;
          let toolid = v_toolid b1 b2;
          let ps1 = ps\<lparr>s_nToolID := toolid\<rparr>;
          let ps2 = set_nValue WACOMFIELD_PROXIMITY 1 ps1;
          let ps3 = set_nValue WACOMFIELD_SERIAL (v_serial b2 b3 b4 b5 b6 b7) ps2;
          let ps4 = set_nValue WACOMFIELD_TOOLTYPE (v_tool toolid) ps3;
          copy_out ps4 pState
        }
        \<comment> \<open>out\<close>
        else if b0 AND 0xFE = 0x80 then do {
          st \<leftarrow> zero_values (unat (uValueCnt (s_state ps))) (s_state ps);
          copy_out (ps\<lparr>s_nToolID := 0, s_state := st\<rparr>) pState
        }
        \<comment> \<open>pen data\<close>
        else if b0 AND 0xB8 = 0xA0 \<or> b0 AND 0xBE = 0xB4 then do {
          b1 \<leftarrow> byte_at d 1; b2 \<leftarrow> byte_at d 2; b3 \<leftarrow> byte_at d 3; b4 \<leftarrow> byte_at d 4; b5 \<leftarrow> byte_at d 5; b7 \<leftarrow> byte_at d 7; b8 \<leftarrow> byte_at d 8; b6 \<leftarrow> byte_at d 6;
          let pen = (b0 AND 0xB8 = 0xA0);
          let press = (if pen then v_ten b5 b6 else 0);
          let button = (if pen then v_pen_button b0 press else 0);
          let wheel = (if pen then 0 else v_ten b5 b6);
          let ps1 = set_nValue WACOMFIELD_POSITION_X (v_x b1 b2 b3) ps;
          let ps2 = set_nValue WACOMFIELD_POSITION_Y (v_y b3 b4 b5) ps1;
          let ps3 = set_nValue WACOMFIELD_TILT_X (v_tilt b7) ps2;
          let ps4 = set_nValue WACOMFIELD_TILT_Y (v_tilt b8) ps3;
          let ps5 = set_nValue WACOMFIELD_PRESSURE press ps4;
          let ps6 = set_nValue WACOMFIELD_BUTTONS button ps5;
          let ps7 = set_nValue WACOMFIELD_ABSWHEEL wheel ps6;
          copy_out ps7 pState
        }
        \<comment> \<open>mouse packet\<close>
        else if b0 AND 0xBE = 0xA8 \<or> b0 AND 0xBE = 0xB0 then do {
          b1 \<leftarrow> byte_at d 1; b2 \<leftarrow> byte_at d 2; b3 \<leftarrow> byte_at d 3; b4 \<leftarrow> byte_at d 4; b5 \<leftarrow> byte_at d 5; b6 \<leftarrow> byte_at d 6; b8 \<leftarrow> byte_at d 8;
          let throttle = (if tst (b8 AND 0x08) then - v_ten b5 b6 else v_ten b5 b6);
          let (button, wheel) = v_mouse_button (s_nToolID ps) b8;
          let ps1 = set_nValue WACOMFIELD_POSITION_X (v_x b1 b2 b3) ps;
          let ps2 = set_nValue WACOMFIELD_POSITION_Y (v_y b3 b4 b5) ps1;
          let ps3 = set_nValue WACOMFIELD_RELWHEEL wheel ps2;
          let ps4 = set_nValue WACOMFIELD_THROTTLE throttle ps3;
          let ps5 = set_nValue WACOMFIELD_BUTTONS (v_mouse_mask (cur_nValue WACOMFIELD_BUTTONS ps4) button) ps4;
          copy_out ps5 pState
        }
        \<comment> \<open>2nd 4D mouse packet\<close>
        else if b0 AND 0xBE = 0xAA then do {
          b1 \<leftarrow> byte_at d 1; b2 \<leftarrow> byte_at d 2; b3 \<leftarrow> byte_at d 3; b4 \<leftarrow> byte_at d 4; b5 \<leftarrow> byte_at d 5; b6 \<leftarrow> byte_at d 6; b7 \<leftarrow> byte_at d 7;
          let ps1 = set_nValue WACOMFIELD_POSITION_X (v_x b1 b2 b3) ps;
          let ps2 = set_nValue WACOMFIELD_POSITION_Y (v_y b3 b4 b5) ps1;
          let ps3 = set_nValue WACOMFIELD_ROTATION_Z (v_rot b6 b7) ps2;
          copy_out ps3 pState
        }
        else Some (fail EINVAL, ps, pState)
      })"

section \<open>Protocol IV\<close>

definition iv_x :: "s32 \<Rightarrow> s32 \<Rightarrow> s32 \<Rightarrow> s32" where
  "iv_x b0 b1 b2 = b2 OR push_bit 7 (b1) OR push_bit 14 (b0 AND 0x3)"

definition iv_y :: "s32 \<Rightarrow> s32 \<Rightarrow> s32 \<Rightarrow> s32" where
  "iv_y b3 b4 b5 = b5 OR push_bit 7 (b4) OR push_bit 14 (b3 AND 0x3)"

definition iv_press8 :: "s32 \<Rightarrow> s32 \<Rightarrow> s32" where
  "iv_press8 b3 b6 = push_bit 1 (b6 AND 0x3F) OR drop_bit 2 (b3 AND 0x4)
     OR (if tst (b6 AND 0x40) then 0 else 0x80)"

definition iv_press7 :: "s32 \<Rightarrow> s32" where
  "iv_press7 b6 = (b6 AND 0x3F) + (if tst (b6 AND 0x40) then 0 else 64)"

text \<open>The six assignments the protocol IV parsers and the tablet PC parser end with.\<close>

definition set_pen_fields ::
  "s32 \<Rightarrow> s32 \<Rightarrow> s32 \<Rightarrow> s32 \<Rightarrow> s32 \<Rightarrow> s32 \<Rightarrow> SERIALTABLET \<Rightarrow> SERIALTABLET" where
  "set_pen_fields prox tool x y press button ps =
     (let ps1 = set_nValue WACOMFIELD_PROXIMITY prox ps;
          ps2 = set_nValue WACOMFIELD_TOOLTYPE tool ps1;
          ps3 = set_nValue WACOMFIELD_POSITION_X x ps2;
          ps4 = set_nValue WACOMFIELD_POSITION_Y y ps3;
          ps5 = set_nValue WACOMFIELD_PRESSURE press ps4
      in set_nValue WACOMFIELD_BUTTONS button ps5)"

text \<open>
  ROM 1.3: the tool is chosen when it comes into proximity and kept after that; the pen has two
  side switches, the eraser none, the cursor four buttons.
\<close>

definition iv3_tool :: "SERIALTABLET \<Rightarrow> s32 \<Rightarrow> s32 \<Rightarrow> s32" where
  "iv3_tool ps b0 b3 =
     (if tst (b0 AND 0x20)
      then (if cur_nValue WACOMFIELD_PROXIMITY ps = 0
            then (if tst (b3 AND 0x20) then WACOMTOOLTYPE_ERASER else WACOMTOOLTYPE_PEN)
            else cur_nValue WACOMFIELD_TOOLTYPE ps)
      else WACOMTOOLTYPE_MOUSE)"

definition iv3_button :: "s32 \<Rightarrow> s32 \<Rightarrow> s32 \<Rightarrow> s32 \<Rightarrow> s32" where
  "iv3_button b0 b3 press tool =
     (if tst (b0 AND 0x20)
      then (if 10 < sint press then BIT WACOMBUTTON_TOUCH else 0)
           OR (if tool = WACOMTOOLTYPE_PEN
               then (if tst (b3 AND 0x10) then BIT WACOMBUTTON_STYLUS else 0)
                    OR (if tst (b3 AND 0x20) then BIT WACOMBUTTON_STYLUS2 else 0)
               else 0)
      else drop_bit 3 (b3 AND 0x78))"

definition SerialParseWacomIV_1_3 ::
  "SERIALTABLET \<Rightarrow> u8 list \<Rightarrow> nat \<Rightarrow> WACOMSTATE option \<Rightarrow> parse_out" where
  "SerialParseWacomIV_1_3 ps d uLength pState =
     (if uLength \<noteq> 7 then Some (fail EINVAL, ps, pState)
      else do {
        b0 \<leftarrow> byte_at d 0;
        if tst (b0 AND 0x40) then do {
          b6 \<leftarrow> byte_at d 6; b3 \<leftarrow> byte_at d 3; b2 \<leftarrow> byte_at d 2; b1 \<leftarrow> byte_at d 1; b5 \<leftarrow> byte_at d 5; b4 \<leftarrow> byte_at d 4;
          let press = iv_press8 b3 b6;
          let tool = iv3_tool ps b0 b3;
          let button = iv3_button b0 b3 press tool;
          copy_out (set_pen_fields 1 tool (iv_x b0 b1 b2) (iv_y b3 b4 b5) press button ps) pState
        }
        else copy_out (set_pen_fields 0 WACOMTOOLTYPE_NONE 0 0 0 0 ps) pState
      })"

definition SerialParseWacomIV_1_4 ::
  "SERIALTABLET \<Rightarrow> u8 list \<Rightarrow> nat \<Rightarrow> WACOMSTATE option \<Rightarrow> parse_out" where
  "SerialParseWacomIV_1_4 ps d uLength pState =
     (if uLength \<noteq> 7 \<and> uLength \<noteq> 9 then Some (fail EINVAL, ps, pState)
      else do {
        (r, ps1, pState1) \<leftarrow> SerialParseWacomIV_1_3 ps d 7 pState;
        (if fst r \<noteq> 0 then Some ((1, snd r), ps1, pState1)
         else if uLength = 9 then do {
           b7 \<leftarrow> byte_at d 7; b8 \<leftarrow> byte_at d 8;
           let tiltx = v_tilt b7;
           let tilty = v_tilt b8;
           let ps2 = set_nValue WACOMFIELD_TILT_X tiltx ps1;
           let ps3 = set_nValue WACOMFIELD_TILT_Y tilty ps2;
           Some (rc_ok, ps3,
             map_option (\<lambda>s. put_nValue WACOMFIELD_TILT_Y tilty (put_nValue WACOMFIELD_TILT_X tiltx s)) pState1)
         }
         else Some (rc_ok, ps1, pState1))
      })"

definition iv2_button :: "s32 \<Rightarrow> s32 \<Rightarrow> s32 \<Rightarrow> s32" where
  "iv2_button b0 b3 press =
     (if tst (b0 AND 0x20)
      then (if 10 < sint press then BIT WACOMBUTTON_TOUCH else 0)
           OR (if tst (b3 AND 0x10) then BIT WACOMBUTTON_STYLUS else 0)
      else drop_bit 3 (b3 AND 0x78))"

definition SerialParseWacomIV_1_2 ::
  "SERIALTABLET \<Rightarrow> u8 list \<Rightarrow> nat \<Rightarrow> WACOMSTATE option \<Rightarrow> parse_out" where
  "SerialParseWacomIV_1_2 ps d uLength pState =
     (if uLength \<noteq> 7 then Some (fail EINVAL, ps, pState)
      else do {
        b0 \<leftarrow> byte_at d 0;
        if tst (b0 AND 0x40) then do {
          b6 \<leftarrow> byte_at d 6; b3 \<leftarrow> byte_at d 3; b2 \<leftarrow> byte_at d 2; b1 \<leftarrow> byte_at d 1; b5 \<leftarrow> byte_at d 5; b4 \<leftarrow> byte_at d 4;
          let press = (if s_nVerMinor ps = 2 then iv_press8 b3 b6 else iv_press7 b6);
          let tool = (if tst (b0 AND 0x20) then WACOMTOOLTYPE_PEN else WACOMTOOLTYPE_MOUSE);
          let button = iv2_button b0 b3 press;
          copy_out (set_pen_fields 1 tool (iv_x b0 b1 b2) (iv_y b3 b4 b5) press button ps) pState
        }
        else copy_out (set_pen_fields 0 0 0 0 0 WACOMTOOLTYPE_NONE ps) pState
      })"

section \<open>Tablet PC\<close>

definition tpc_x :: "s32 \<Rightarrow> s32 \<Rightarrow> s32 \<Rightarrow> s32" where
  "tpc_x b1 b2 b6 = drop_bit 5 (b6 AND 0x60) OR push_bit 2 (b2) OR push_bit 9 (b1)"

definition tpc_y :: "s32 \<Rightarrow> s32 \<Rightarrow> s32 \<Rightarrow> s32" where
  "tpc_y b3 b4 b6 = drop_bit 3 (b6 AND 0x18) OR push_bit 2 (b4) OR push_bit 9 (b3)"

definition tpc_press :: "s32 \<Rightarrow> s32 \<Rightarrow> s32" where
  "tpc_press b5 b6 = push_bit 7 (b6 AND 0x01) OR (b5 AND 0x7F)"

definition tpc_tool :: "s32 \<Rightarrow> s32" where
  "tpc_tool b0 = (if tst (b0 AND 0x04) then WACOMTOOLTYPE_ERASER else WACOMTOOLTYPE_PEN)"

definition tpc_button :: "s32 \<Rightarrow> s32 \<Rightarrow> s32" where
  "tpc_button b0 tool =
     (if tst (b0 AND 0x01) then BIT WACOMBUTTON_TOUCH else 0)
     OR (if tool = WACOMTOOLTYPE_PEN
         then (if tst (b0 AND 0x02) then BIT WACOMBUTTON_STYLUS else 0)
              OR (if tst (b0 AND 0x04) then BIT WACOMBUTTON_STYLUS2 else 0)
         else 0)"

definition SerialParseTabletPC ::
  "SERIALTABLET \<Rightarrow> u8 list \<Rightarrow> nat \<Rightarrow> WACOMSTATE option \<Rightarrow> parse_out" where
  "SerialParseTabletPC ps d uLength pState =
     (if uLength \<noteq> 9 then Some (fail EINVAL, ps, pState)
      else do {
        b0 \<leftarrow> byte_at d 0;
        if tst (b0 AND 0x20) then do {
          b6 \<leftarrow> byte_at d 6; b5 \<leftarrow> byte_at d 5; b2 \<leftarrow> byte_at d 2; b1 \<leftarrow> byte_at d 1; b4 \<leftarrow> byte_at d 4; b3 \<leftarrow> byte_at d 3;
          copy_out (set_pen_fields 1 (tpc_tool b0) (tpc_x b1 b2 b6) (tpc_y b3 b4 b6) (tpc_press b5 b6)
                      (tpc_button b0 (tpc_tool b0)) ps) pState
        }
        else copy_out (set_pen_fields 0 WACOMTOOLTYPE_NONE 0 0 0 0 ps) pState
      })"

section \<open>SerialParseData\<close>

text \<open>The call through \<open>pfnParse\<close>.\<close>

fun run_parse :: "PARSEFUNC \<Rightarrow> SERIALTABLET \<Rightarrow> u8 list \<Rightarrow> nat \<Rightarrow> WACOMSTATE option \<Rightarrow> parse_out" where
  "run_parse SerialParseWacomV_fn = SerialParseWacomV"
| "run_parse SerialParseWacomIV_1_4_fn = SerialParseWacomIV_1_4"
| "run_parse SerialParseWacomIV_1_3_fn = SerialParseWacomIV_1_3"
| "run_parse SerialParseWacomIV_1_2_fn = SerialParseWacomIV_1_2"
| "run_parse SerialParseTabletPC_fn = SerialParseTabletPC"

text \<open>The second loop: whether the bytes at the given places have no high bit, up to the first that has one.\<close>

fun low_bits :: "u8 list \<Rightarrow> nat list \<Rightarrow> bool option" where
  "low_bits d [] = Some True"
| "low_bits d (i # is) = do { b \<leftarrow> byte_at d i; if tst (b AND 0x80) then Some False else low_bits d is }"

text \<open>
  The dump of a packet with a high bit after the first byte reads all of it. The error count is incremented as a
  two's-complement number (C leaves \<open>INT_MAX + 1\<close> undefined; \<open>parse_data_safe\<close> says when it cannot happen).
\<close>

definition SerialParseData ::
  "SERIALTABLET \<Rightarrow> u8 list \<Rightarrow> nat \<Rightarrow> WACOMSTATE option \<Rightarrow> parse_out" where
  "SerialParseData ps buf uLength pState = do {
     b0 \<leftarrow> byte_at buf 0;
     if \<not> tst (b0 AND 0x80) then Some (fail EINVAL, ps\<lparr>s_nBitErrors := s_nBitErrors ps + 1\<rparr>, pState)
     else do {
       ok \<leftarrow> low_bits buf [1..<uLength];
       if \<not> ok then
         (if length buf < uLength then None else Some (fail EINVAL, ps\<lparr>s_nBitErrors := s_nBitErrors ps + 1\<rparr>, pState))
       else
         (let ps1 = ps\<lparr>s_nBitErrors := 0\<rparr>
          in case s_pfnParse ps1 of
               Some f \<Rightarrow> run_parse f ps1 buf uLength pState
             | None \<Rightarrow> Some (fail EINVAL, ps1, pState))
     }
   }"

lemma low_bits_in:
  "(\<forall>i\<in>set is. i < length d) \<Longrightarrow> low_bits d is = Some (\<not> (\<exists>i\<in>set is. byte d i AND 0x80 \<noteq> 0))"
  by (induction "is") (auto simp: byte_at_in)

lemma low_bits_ok: "low_bits d is = Some True \<Longrightarrow> i \<in> set is \<Longrightarrow> i < length d"
  by (induction "is") (auto simp: byte_at_def split: bind_splits if_splits)

text \<open>On a buffer of the stated length every byte can be read.\<close>

lemma SerialParseData_in:
  assumes "max 1 n \<le> length d"
  shows "SerialParseData ps d n p =
    (if byte d 0 AND 0x80 = 0 \<or> (\<exists>i\<in>set [1..<n]. byte d i AND 0x80 \<noteq> 0)
     then Some (fail EINVAL, ps\<lparr>s_nBitErrors := s_nBitErrors ps + 1\<rparr>, p)
     else (case s_pfnParse ps of
             Some f \<Rightarrow> run_parse f (ps\<lparr>s_nBitErrors := 0\<rparr>) d n p
           | None \<Rightarrow> Some (fail EINVAL, ps\<lparr>s_nBitErrors := 0\<rparr>, p)))"
proof -
  have "low_bits d [1..<n] = Some (\<not> (\<exists>i\<in>set [1..<n]. byte d i AND 0x80 \<noteq> 0))"
    using assms by (intro low_bits_in) auto
  moreover have "byte_at d 0 = Some (byte d 0)" using assms by (intro byte_at_in) linarith
  ultimately show ?thesis using assms by (auto simp: SerialParseData_def Let_def)
qed

text \<open>On a shorter one a read leaves the buffer, or the first byte has no high bit.\<close>

lemma SerialParseData_short:
  assumes "length d < max 1 n"
  shows "SerialParseData ps d n p \<in> {None, Some (fail EINVAL, ps\<lparr>s_nBitErrors := s_nBitErrors ps + 1\<rparr>, p)}"
proof (cases "d = []")
  case True
  then show ?thesis by (simp add: SerialParseData_def byte_at_def)
next
  case False
  then have "length d \<in> set [1..<n]" using assms by (cases d) auto
  then have "low_bits d [1..<n] \<noteq> Some True" using low_bits_ok by blast
  then have "low_bits d [1..<n] = None \<or> low_bits d [1..<n] = Some False" by (metis (full_types) option.exhaust)
  then show ?thesis using assms False by (auto simp: SerialParseData_def split: bind_splits)
qed

section \<open>Every parser keeps the tablet well formed\<close>

abbreviation wf_tablet :: "SERIALTABLET \<Rightarrow> bool" where "wf_tablet ps \<equiv> wf_state (s_state ps)"
abbreviation wf_out :: "WACOMSTATE option \<Rightarrow> bool" where "wf_out \<equiv> pred_option wf_state"

text \<open>The fields a parser never writes: everything but the state, the tool id and the error count.\<close>

definition same_ident :: "SERIALTABLET \<Rightarrow> SERIALTABLET \<Rightarrow> bool" where
  "same_ident ps ps' \<longleftrightarrow>
     ps' = ps\<lparr>s_state := s_state ps', s_nToolID := s_nToolID ps', s_nBitErrors := s_nBitErrors ps'\<rparr>"

named_theorems parser_simps \<open>frame and well-formedness facts of the parsers' assignments\<close>

lemma same_ident_intros [parser_simps]:
  "same_ident ps ps" "same_ident ps (ps'\<lparr>s_state := st\<rparr>) = same_ident ps ps'"
  "same_ident ps (ps'\<lparr>s_nToolID := i\<rparr>) = same_ident ps ps'"
  "same_ident ps (ps'\<lparr>s_nBitErrors := n\<rparr>) = same_ident ps ps'"
  by (cases ps; cases ps'; auto simp: same_ident_def)+

lemma same_ident_trans: "same_ident a b \<Longrightarrow> same_ident b c \<Longrightarrow> same_ident a c"
  unfolding same_ident_def by (cases a; cases b; cases c) simp

lemma copy_out_wf [parser_simps]:
  "wf_tablet ps \<Longrightarrow> wf_out p \<Longrightarrow> copy_out ps p = Some (rc_ok, ps, map_option (\<lambda>_. s_state ps) p)"
  by (cases p) (simp_all add: copy_out_def WacomCopyState_eq)

lemma zero_values_wf' [parser_simps]:
  "wf_tablet ps \<Longrightarrow> zero_values (unat (uValueCnt (s_state ps))) (s_state ps) =
     Some ((s_state ps)\<lparr>values_arr := replicate WACOMFIELD_MAX zero_value\<rparr>)"
  by (rule zero_values_wf)

lemma wf_zeroed [parser_simps]:
  "wf_state s \<Longrightarrow> wf_state (s\<lparr>values_arr := replicate WACOMFIELD_MAX zero_value\<rparr>)"
  by (simp add: wf_state_def)

lemma set_pen_fields_wf [parser_simps]:
  "wf_tablet (set_pen_fields a b c d e f ps) = wf_tablet ps"
  "same_ident ps' (set_pen_fields a b c d e f ps) = same_ident ps' ps"
  by (simp_all add: set_pen_fields_def Let_def parser_simps)

text \<open>
  What a parser promises its caller: on a well-formed tablet and a packet that has the length it is called with, it reads
  nothing outside the packet and never runs into undefined behaviour; it either rejects with \<open>EINVAL\<close> and changes nothing, or accepts, keeps the tablet
  well formed and hands out exactly the state it keeps.
\<close>

definition parser_post ::
  "SERIALTABLET \<Rightarrow> WACOMSTATE option \<Rightarrow> parse_out \<Rightarrow> bool" where
  "parser_post ps p out \<longleftrightarrow>
     (case out of
        None \<Rightarrow> False
      | Some (r, ps', p') \<Rightarrow>
          (r = fail EINVAL \<and> ps' = ps \<and> p' = p) \<or>
          (r = rc_ok \<and> wf_tablet ps' \<and> same_ident ps ps' \<and> p' = map_option (\<lambda>_. s_state ps') p))"

lemma parser_post_simps [parser_simps]:
  "parser_post ps p (Some (fail EINVAL, ps, p))"
  "parser_post ps p (Some (rc_ok, ps', q)) \<longleftrightarrow>
     wf_tablet ps' \<and> same_ident ps ps' \<and> q = map_option (\<lambda>_. s_state ps') p"
  by (auto simp: parser_post_def)

lemma parser_postE:
  assumes "parser_post ps p out"
  obtains (reject) "out = Some (fail EINVAL, ps, p)"
    | (accept) ps' where "out = Some (rc_ok, ps', map_option (\<lambda>_. s_state ps') p)"
        "wf_tablet ps'" "same_ident ps ps'"
  using assms by (auto simp: parser_post_def split: option.splits)

lemma SerialParseWacomV_post:
  assumes "wf_tablet ps" and "wf_out p" and "n \<le> length d"
  shows "parser_post ps p (SerialParseWacomV ps d n p)"
  using assms by (cases "n = 9") (simp_all add: SerialParseWacomV_def Let_def byte_at_simps parser_simps split: prod.split)

lemma SerialParseWacomIV_1_3_post:
  assumes "wf_tablet ps" and "wf_out p" and "n \<le> length d"
  shows "parser_post ps p (SerialParseWacomIV_1_3 ps d n p)"
  using assms by (cases "n = 7") (simp_all add: SerialParseWacomIV_1_3_def Let_def byte_at_simps parser_simps split: prod.split)

lemma SerialParseWacomIV_1_2_post:
  assumes "wf_tablet ps" and "wf_out p" and "n \<le> length d"
  shows "parser_post ps p (SerialParseWacomIV_1_2 ps d n p)"
  using assms by (cases "n = 7") (simp_all add: SerialParseWacomIV_1_2_def Let_def byte_at_simps parser_simps split: prod.split)

lemma SerialParseTabletPC_post:
  assumes "wf_tablet ps" and "wf_out p" and "n \<le> length d"
  shows "parser_post ps p (SerialParseTabletPC ps d n p)"
  using assms by (cases "n = 9") (simp_all add: SerialParseTabletPC_def Let_def byte_at_simps parser_simps split: prod.split)

lemma SerialParseWacomIV_1_4_post:
  assumes wf: "wf_tablet ps" "wf_out p" and len: "n \<le> length d"
  shows "parser_post ps p (SerialParseWacomIV_1_4 ps d n p)"
proof (cases "n = 7 \<or> n = 9")
  case False
  then show ?thesis by (simp add: SerialParseWacomIV_1_4_def parser_simps)
next
  case True
  then have "7 \<le> length d" using len by auto
  from SerialParseWacomIV_1_3_post [OF wf this] show ?thesis
  proof (cases rule: parser_postE)
    case reject
    then show ?thesis
      using True by (simp add: SerialParseWacomIV_1_4_def parser_post_def) (simp add: fail_def)
  next
    case (accept ps')
    then show ?thesis
      using True len
      by (auto simp: SerialParseWacomIV_1_4_def parser_post_def Let_def byte_at_simps parser_simps option.map_comp o_def)
  qed
qed

section \<open>The parser interface\<close>

text \<open>
  \<open>PARSEFUNC\<close> as an interface: \<open>SerialParseData\<close> relies on these laws of whatever function
  \<open>pfnParse\<close> points to. \<open>len_ok\<close> is the set of packet lengths the parser takes.
\<close>

locale packet_parser =
  fixes parse :: "SERIALTABLET \<Rightarrow> u8 list \<Rightarrow> nat \<Rightarrow> WACOMSTATE option \<Rightarrow> parse_out"
    and len_ok :: "nat \<Rightarrow> bool"
    and code :: PARSEFUNC
  assumes is_parser: "run_parse code = parse"
    and post: "wf_state (s_state ps) \<Longrightarrow> pred_option wf_state p \<Longrightarrow> n \<le> length d \<Longrightarrow> parser_post ps p (parse ps d n p)"
    and bad_length: "\<not> len_ok n \<Longrightarrow> parse ps d n p = Some (fail EINVAL, ps, p)"
begin

lemma checked_post:
  assumes "wf_tablet ps" and "wf_out p" and "max 1 n \<le> length d" and "s_pfnParse ps = Some code"
  shows "(\<exists>k. SerialParseData ps d n p = Some (fail EINVAL, ps\<lparr>s_nBitErrors := k\<rparr>, p)) \<or>
    (\<exists>ps'. SerialParseData ps d n p = Some (rc_ok, ps', map_option (\<lambda>_. s_state ps') p) \<and>
       wf_tablet ps' \<and> same_ident ps ps')"
proof (cases "byte d 0 AND 0x80 = 0 \<or> (\<exists>i\<in>set [1..<n]. byte d i AND 0x80 \<noteq> 0)")
  case True
  then show ?thesis
    unfolding SerialParseData_in [OF assms(3)] by auto
next
  case False
  let ?ps = "ps\<lparr>s_nBitErrors := 0\<rparr>"
  have eq: "SerialParseData ps d n p = parse ?ps d n p"
    unfolding SerialParseData_in [OF assms(3)] using False assms(4) by (auto simp: is_parser)
  have "parser_post ?ps p (parse ?ps d n p)"
    using assms(1-3) by (intro post) simp_all
  then show ?thesis
  proof (cases rule: parser_postE)
    case reject
    then show ?thesis using eq by auto
  next
    case (accept ps')
    have "same_ident ps ps'"
      by (rule same_ident_trans [OF _ accept(3)]) (simp add: parser_simps)
    then show ?thesis using eq accept by auto
  qed
qed

lemma checked_bad_length:
  assumes "\<not> len_ok n" and "max 1 n \<le> length d" and "s_pfnParse ps = Some code"
  shows "\<exists>k. SerialParseData ps d n p = Some (fail EINVAL, ps\<lparr>s_nBitErrors := k\<rparr>, p)"
  unfolding SerialParseData_in [OF assms(2)] using assms(1,3) by (auto simp: is_parser bad_length)

end

interpretation parse_V: packet_parser SerialParseWacomV "\<lambda>n. n = 9" SerialParseWacomV_fn
  by unfold_locales (simp_all add: SerialParseWacomV_post, simp add: SerialParseWacomV_def)

interpretation parse_IV_1_4: packet_parser SerialParseWacomIV_1_4 "\<lambda>n. n = 7 \<or> n = 9" SerialParseWacomIV_1_4_fn
  by unfold_locales (simp_all add: SerialParseWacomIV_1_4_post, simp add: SerialParseWacomIV_1_4_def)

interpretation parse_IV_1_3: packet_parser SerialParseWacomIV_1_3 "\<lambda>n. n = 7" SerialParseWacomIV_1_3_fn
  by unfold_locales (simp_all add: SerialParseWacomIV_1_3_post, simp add: SerialParseWacomIV_1_3_def)

interpretation parse_IV_1_2: packet_parser SerialParseWacomIV_1_2 "\<lambda>n. n = 7" SerialParseWacomIV_1_2_fn
  by unfold_locales (simp_all add: SerialParseWacomIV_1_2_post, simp add: SerialParseWacomIV_1_2_def)

interpretation parse_TPC: packet_parser SerialParseTabletPC "\<lambda>n. n = 9" SerialParseTabletPC_fn
  by unfold_locales (simp_all add: SerialParseTabletPC_post, simp add: SerialParseTabletPC_def)

end
