(* ===== verification/World.thy ===== *)
theory World
  imports Prelude
begin

text \<open>
  The operating system as the programs see it: the system calls of \<^verbatim>\<open>wacom/wacserial.c\<close> and
  \<^verbatim>\<open>wacom/wactablet.c\<close> on a file descriptor. The kernel and the device behind it are not part
  of the repository, so what they answer is a parameter: \<open>answers\<close> is the list of their answers
  to the calls to come, and a theorem quantifies over it. A world whose answers are used up fails
  every call, so a loop that waits for the device is a recursion on the answers that remain.
  \<open>calls\<close> records the calls made, the latest last; \<open>w_errno\<close> is \<open>errno\<close>; \<open>tios\<close> is the
  state of the port that \<open>tcgetattr\<close> reads and \<open>tcsetattr\<close> replaces.

  Of the kernel the model assumes what POSIX documents: \<open>read\<close> and \<open>write\<close> transfer at most the
  number of bytes asked for, and a failing call returns -1 and sets \<open>errno\<close>.
\<close>

section \<open>The port\<close>

text \<open>
  The speeds, which the C library keeps inside the structure, are two fields of their own;
  \<open>c_cc\<close> is indexed by the control character.
\<close>

record termios =
  c_iflag :: u32
  c_oflag :: u32
  c_cflag :: u32
  c_lflag :: u32
  c_cc :: "nat \<Rightarrow> u8"
  c_ispeed :: u32
  c_ospeed :: u32

text \<open>The constants of \<^verbatim>\<open>asm-generic/termbits.h\<close>.\<close>

abbreviation (input) IGNBRK :: u32 where "IGNBRK \<equiv> 0x0001"
abbreviation (input) BRKINT :: u32 where "BRKINT \<equiv> 0x0002"
abbreviation (input) PARMRK :: u32 where "PARMRK \<equiv> 0x0008"
abbreviation (input) ISTRIP :: u32 where "ISTRIP \<equiv> 0x0020"
abbreviation (input) INLCR :: u32 where "INLCR \<equiv> 0x0040"
abbreviation (input) IGNCR :: u32 where "IGNCR \<equiv> 0x0080"
abbreviation (input) ICRNL :: u32 where "ICRNL \<equiv> 0x0100"
abbreviation (input) IXON :: u32 where "IXON \<equiv> 0x0400"
abbreviation (input) IXOFF :: u32 where "IXOFF \<equiv> 0x1000"
abbreviation (input) OPOST :: u32 where "OPOST \<equiv> 0x0001"
abbreviation (input) ISIG :: u32 where "ISIG \<equiv> 0x0001"
abbreviation (input) ICANON :: u32 where "ICANON \<equiv> 0x0002"
abbreviation (input) ECHO :: u32 where "ECHO \<equiv> 0x0008"
abbreviation (input) ECHONL :: u32 where "ECHONL \<equiv> 0x0040"
abbreviation (input) IEXTEN :: u32 where "IEXTEN \<equiv> 0x8000"
abbreviation (input) CSIZE :: u32 where "CSIZE \<equiv> 0x0030"
abbreviation (input) CS8 :: u32 where "CS8 \<equiv> 0x0030"
abbreviation (input) CSTOPB :: u32 where "CSTOPB \<equiv> 0x0040"
abbreviation (input) PARENB :: u32 where "PARENB \<equiv> 0x0100"
abbreviation (input) CLOCAL :: u32 where "CLOCAL \<equiv> 0x0800"
abbreviation (input) VTIME :: nat where "VTIME \<equiv> 5"
abbreviation (input) VMIN :: nat where "VMIN \<equiv> 6"
abbreviation (input) B1200 :: u32 where "B1200 \<equiv> 9"
abbreviation (input) B2400 :: u32 where "B2400 \<equiv> 11"
abbreviation (input) B4800 :: u32 where "B4800 \<equiv> 12"
abbreviation (input) B9600 :: u32 where "B9600 \<equiv> 13"
abbreviation (input) B19200 :: u32 where "B19200 \<equiv> 14"
abbreviation (input) B38400 :: u32 where "B38400 \<equiv> 15"

section \<open>The world\<close>

text \<open>The \<open>ioctl\<close> requests of the event devices and of \<open>uinput\<close>.\<close>

datatype ioctl_req = EVIOCGID | EVIOCGBIT nat nat | EVIOCGABS nat | EVIOCGSW nat
  | UI_SET_EVBIT nat | UI_SET_KEYBIT nat | UI_SET_ABSBIT nat | UI_SET_SWBIT nat | UI_DEV_CREATE | UI_DEV_DESTROY

datatype syscall = Sys_open string | Sys_close int | Sys_isatty int | Sys_tcgetattr int
  | Sys_tcsetattr int termios | Sys_tcflush int | Sys_select int | Sys_usleep nat
  | Sys_write int "u8 list" nat | Sys_read int nat "u8 list" | Sys_ioctl int ioctl_req | Sys_lseek int int

text \<open>
  \<open>Gives n d\<close>: the call succeeds with result \<open>n\<close>, and \<open>d\<close> is the data of a \<open>read\<close> or of an
  \<open>ioctl\<close> that reads.
\<close>

datatype answer = Fails errno | Gives nat "u8 list"

record world =
  answers :: "answer list"
  calls :: "syscall list"
  w_errno :: errno
  tios :: termios

definition next_answer :: "world \<Rightarrow> answer \<times> world" where
  "next_answer w = (case answers w of [] \<Rightarrow> (Fails EIO, w) | a # r \<Rightarrow> (a, w\<lparr>answers := r\<rparr>))"

abbreviation log_call :: "syscall \<Rightarrow> world \<Rightarrow> world" where
  "log_call c w \<equiv> w\<lparr>calls := calls w @ [c]\<rparr>"

abbreviation set_errno :: "errno \<Rightarrow> world \<Rightarrow> world" where
  "set_errno e w \<equiv> w\<lparr>w_errno := e\<rparr>"

text \<open>A call whose only result is a number: -1 on failure.\<close>

definition sys_number :: "syscall \<Rightarrow> world \<Rightarrow> int \<times> world" where
  "sys_number c w =
     (case next_answer w of
        (Fails e, w1) \<Rightarrow> (-1, set_errno e (log_call c w1))
      | (Gives n d, w1) \<Rightarrow> (int n, log_call c w1))"

definition sys_select :: "int \<Rightarrow> world \<Rightarrow> int \<times> world" where
  "sys_select fd w = sys_number (Sys_select fd) w"

definition sys_open :: "string \<Rightarrow> world \<Rightarrow> int \<times> world" where
  "sys_open path w = sys_number (Sys_open path) w"

text \<open>A call that returns 0 or -1.\<close>

definition sys_status :: "syscall \<Rightarrow> world \<Rightarrow> int \<times> world" where
  "sys_status c w = (let (r, w1) = sys_number c w in (if r = -1 then -1 else 0, w1))"

definition sys_tcflush :: "int \<Rightarrow> world \<Rightarrow> int \<times> world" where
  "sys_tcflush fd w = sys_status (Sys_tcflush fd) w"

definition sys_tcgetattr :: "int \<Rightarrow> world \<Rightarrow> int \<times> termios \<times> world" where
  "sys_tcgetattr fd w = (let (r, w1) = sys_status (Sys_tcgetattr fd) w in (r, tios w1, w1))"

definition sys_tcsetattr :: "int \<Rightarrow> termios \<Rightarrow> world \<Rightarrow> int \<times> world" where
  "sys_tcsetattr fd t w =
     (let (r, w1) = sys_status (Sys_tcsetattr fd t) w in (r, if r = 0 then w1\<lparr>tios := t\<rparr> else w1))"

text \<open>\<open>isatty\<close> is 1 or 0.\<close>

definition sys_isatty :: "int \<Rightarrow> world \<Rightarrow> bool \<times> world" where
  "sys_isatty fd w = (let (r, w1) = sys_number (Sys_isatty fd) w in (r = 1, w1))"

definition sys_usleep :: "nat \<Rightarrow> world \<Rightarrow> world" where
  "sys_usleep us w = log_call (Sys_usleep us) w"

definition sys_close :: "int \<Rightarrow> world \<Rightarrow> world" where
  "sys_close fd w = log_call (Sys_close fd) w"

definition sys_write :: "int \<Rightarrow> u8 list \<Rightarrow> world \<Rightarrow> int \<times> world" where
  "sys_write fd d w =
     (case next_answer w of
        (Fails e, w1) \<Rightarrow> (-1, set_errno e (log_call (Sys_write fd d 0) w1))
      | (Gives n x, w1) \<Rightarrow>
          (int (min n (length d)), log_call (Sys_write fd d (min n (length d))) w1))"

text \<open>The data read, at most \<open>n\<close> bytes of it, with their number.\<close>

definition sys_read :: "int \<Rightarrow> nat \<Rightarrow> world \<Rightarrow> int \<times> u8 list \<times> world" where
  "sys_read fd n w =
     (case next_answer w of
        (Fails e, w1) \<Rightarrow> (-1, [], set_errno e (log_call (Sys_read fd n []) w1))
      | (Gives k d, w1) \<Rightarrow>
          (int (length (take n d)), take n d, log_call (Sys_read fd n (take n d)) w1))"

text \<open>An \<open>ioctl\<close> gives its result and what it stored through its argument.\<close>

definition sys_ioctl :: "int \<Rightarrow> ioctl_req \<Rightarrow> world \<Rightarrow> int \<times> u8 list \<times> world" where
  "sys_ioctl fd req w =
     (case next_answer w of
        (Fails e, w1) \<Rightarrow> (-1, [], set_errno e (log_call (Sys_ioctl fd req) w1))
      | (Gives n d, w1) \<Rightarrow> (int n, d, log_call (Sys_ioctl fd req) w1))"

lemmas sys_defs = sys_number_def sys_status_def sys_select_def sys_open_def sys_tcflush_def
  sys_tcgetattr_def sys_tcsetattr_def sys_isatty_def sys_usleep_def sys_close_def
  sys_write_def sys_read_def sys_ioctl_def next_answer_def

section \<open>Facts\<close>

text \<open>A call that gives a positive number has used up an answer.\<close>

lemma sys_number_answers:
  "sys_number c w = (r, w1) \<Longrightarrow> length (answers w1) \<le> length (answers w) \<and>
     (0 < r \<longrightarrow> length (answers w1) < length (answers w))"
  by (auto simp: sys_number_def next_answer_def split: list.splits answer.splits)

lemma sys_select_answers:
  "sys_select fd w = (r, w1) \<Longrightarrow> length (answers w1) \<le> length (answers w) \<and>
     (0 < r \<longrightarrow> length (answers w1) < length (answers w))"
  unfolding sys_select_def by (rule sys_number_answers)

lemma sys_read_answers:
  "sys_read fd n w = (r, d, w1) \<Longrightarrow> length (answers w1) \<le> length (answers w) \<and>
     (0 < r \<longrightarrow> length (answers w1) < length (answers w))"
  by (auto simp: sys_read_def next_answer_def split: list.splits answer.splits)

lemma sys_read_data:
  "sys_read fd n w = (r, d, w1) \<Longrightarrow> length d \<le> n \<and> (0 < r \<longrightarrow> r = int (length d))"
  by (auto simp: sys_read_def split: prod.splits answer.splits)

lemma sys_write_count:
  "sys_write fd d w = (r, w1) \<Longrightarrow> r \<le> int (length d)"
  by (auto simp: sys_write_def split: prod.splits answer.splits)

text \<open>The bytes the device has accepted on a descriptor.\<close>

fun sent_by :: "int \<Rightarrow> syscall \<Rightarrow> u8 list" where
  "sent_by fd (Sys_write f d n) = (if f = fd then take n d else [])"
| "sent_by fd _ = []"

definition sent :: "int \<Rightarrow> world \<Rightarrow> u8 list" where
  "sent fd w = concat (map (sent_by fd) (calls w))"

text \<open>The settings of the port, in the order they were made.\<close>

fun settings_by :: "syscall \<Rightarrow> termios list" where
  "settings_by (Sys_tcsetattr f t) = [t]"
| "settings_by _ = []"

lemma sent_log_call [simp]: "sent fd (log_call c w) = sent fd w @ sent_by fd c"
  by (simp add: sent_def)

lemma sent_updates [simp]:
  "sent fd (w\<lparr>answers := a\<rparr>) = sent fd w" "sent fd (w\<lparr>w_errno := e\<rparr>) = sent fd w"
  "sent fd (w\<lparr>tios := t\<rparr>) = sent fd w"
  by (simp_all add: sent_def)

text \<open>An answer list begins with answers that serve a call well.\<close>

lemma sys_select_serve:
  "answers w = Gives n d # r \<Longrightarrow> sys_select fd w = (int n, log_call (Sys_select fd) (w\<lparr>answers := r\<rparr>))"
  by (simp add: sys_defs)

lemma sys_read_serve:
  "answers w = Gives k d # r \<Longrightarrow>
   sys_read fd n w = (int (length (take n d)), take n d, log_call (Sys_read fd n (take n d)) (w\<lparr>answers := r\<rparr>))"
  by (simp add: sys_defs)

lemma sys_write_serve:
  "answers w = Gives k d # r \<Longrightarrow>
   sys_write fd b w = (int (min k (length b)), log_call (Sys_write fd b (min k (length b))) (w\<lparr>answers := r\<rparr>))"
  by (simp add: sys_defs)

end
