(* ===== verification/Serial_IO.thy ===== *)
theory Serial_IO
  imports Serial_Parse World
begin

text \<open>
  \<^verbatim>\<open>wacom/wacserial.c\<close>, the part that talks to the port: sending commands, the request and
  response exchange, configuring the tty, identifying and initialising the tablet, opening it and
  reading packets. Every function takes the world and gives it back. A function that may
  dereference a null pointer, or scan a number that does not fit, gives an option whose \<open>None\<close> is
  that undefined behaviour; the others are total. The logging calls are left out: their only
  effect is the log.
\<close>

section \<open>Sending\<close>

text \<open>The loop of \<open>SerialSendRaw\<close> on the bytes from \<open>puchData + uCnt\<close>.\<close>

function SerialSendRaw :: "SERIALTABLET \<Rightarrow> u8 list \<Rightarrow> world \<Rightarrow> int \<times> world" where
  "SerialSendRaw ps d w =
     (if d = [] then (0, w)
      else (let (nXfer, w1) = sys_write (s_fd ps) d w
            in if nXfer \<le> 0 then (1, w1) else SerialSendRaw ps (drop (nat nXfer) d) w1))"
  by pat_completeness auto

termination
  by (relation "measure (\<lambda>(ps, d, w). length d)") auto

declare SerialSendRaw.simps [simp del]

definition SerialSend :: "SERIALTABLET \<Rightarrow> string \<Rightarrow> world \<Rightarrow> int \<times> world" where
  "SerialSend ps pszMsg w = SerialSendRaw ps (asc pszMsg) w"

abbreviation (input) CR :: char where "CR \<equiv> CHR 0x0D"

definition SerialSendReset :: "SERIALTABLET \<Rightarrow> world \<Rightarrow> int \<times> world" where
  "SerialSendReset ps w =
     (let (r, w1) = SerialSend ps (CR # ''$'' @ [CR]) w
      in if r \<noteq> 0 then (1, w1)
         else (let w2 = sys_usleep 250000 w1;
                   (r', w3) = SerialSend ps (''#'' @ [CR]) w2
               in if r' \<noteq> 0 then (1, w3) else (0, sys_usleep 75000 w3)))"

definition SerialSendStop :: "SERIALTABLET \<Rightarrow> world \<Rightarrow> int \<times> world" where
  "SerialSendStop ps w =
     (let (r, w1) = SerialSend ps (CR # ''SP'' @ [CR]) w
      in if r \<noteq> 0 then (1, w1) else (0, sys_usleep 100000 w1))"

definition SerialSendStart :: "SERIALTABLET \<Rightarrow> world \<Rightarrow> int \<times> world" where
  "SerialSendStart ps w = SerialSend ps (''ST'' @ [CR]) w"

text \<open>Without \<open>tcflush\<close>, sixteen bytes are read and dropped while \<open>select\<close> says there are any.\<close>

function drain :: "int \<Rightarrow> world \<Rightarrow> world" where
  "drain fd w =
     (let (n, w1) = sys_select fd w
      in if n \<le> 0 then w1 else (let (x, d, w2) = sys_read fd 16 w1 in drain fd w2))"
  by pat_completeness auto

termination
proof (relation "measure (\<lambda>(fd, w). length (answers w))", goal_cases)
  case (2 fd w x n w1 y x' z d w2)
  then show ?case
    using sys_select_answers [of fd w n w1] sys_read_answers [of fd 16 w1 x' d w2] by auto
qed simp

declare drain.simps [simp del]

definition WacomFlush :: "SERIALTABLET \<Rightarrow> world \<Rightarrow> int \<times> world" where
  "WacomFlush ps w =
     (let (r, w1) = sys_tcflush (s_fd ps) w in if r = 0 then (0, w1) else (0, drain (s_fd ps) w1))"

section \<open>SerialSendRequest\<close>

text \<open>
  The result of a step of the exchange: \<open>Inl w\<close> is \<open>return 1\<close>, \<open>Inr (buf, w)\<close> goes on with the
  response buffer \<open>buf\<close>.
\<close>

type_synonym exchange = "world + (u8 list \<times> world)"

text \<open>Bytes are read into \<open>pchResponse[0]\<close> and dropped until one is \<open>*pszRequest\<close>.\<close>

function await_header :: "SERIALTABLET \<Rightarrow> u8 \<Rightarrow> u8 list \<Rightarrow> world \<Rightarrow> exchange" where
  "await_header ps h buf w =
     (let (n, w1) = sys_select (s_fd ps) w
      in if n \<le> 0 then Inl (set_errno ETIMEDOUT w1)
         else (let (nXfer, d, w2) = sys_read (s_fd ps) 1 w1
               in if nXfer \<le> 0 then Inl w2
                  else (let buf1 = d @ drop (length d) buf
                        in if hd buf1 = h then Inr (buf1, w2) else await_header ps h buf1 w2)))"
  by pat_completeness auto

termination
proof (relation "measure (\<lambda>(ps, h, buf, w). length (answers w))", goal_cases)
  case (2 ps h buf w x n w1 y nXfer z d w2 b)
  then show ?case
    using sys_select_answers [of "s_fd ps" w n w1] sys_read_answers [of "s_fd ps" 1 w1 nXfer d w2] by auto
qed simp

declare await_header.simps [simp del]

text \<open>The rest of the header, from offset \<open>uCnt\<close> up to \<open>uLen\<close>.\<close>

function read_header :: "SERIALTABLET \<Rightarrow> nat \<Rightarrow> nat \<Rightarrow> u8 list \<Rightarrow> world \<Rightarrow> exchange" where
  "read_header ps uLen uCnt buf w =
     (if uCnt < uLen then
        (let (nXfer, d, w1) = sys_read (s_fd ps) (uLen - uCnt) w
         in if nXfer \<le> 0 then Inl w1
            else read_header ps uLen (uCnt + nat nXfer)
                   (take uCnt buf @ d @ drop (uCnt + length d) buf) w1)
      else Inr (buf, w))"
  by pat_completeness auto

termination
  by (relation "measure (\<lambda>(ps, uLen, uCnt, buf, w). uLen - uCnt)") auto

declare read_header.simps [simp del]

text \<open>The reply, a byte at a time from offset \<open>uCnt\<close>; the carriage return becomes the NUL.\<close>

function read_reply :: "SERIALTABLET \<Rightarrow> nat \<Rightarrow> nat \<Rightarrow> u8 list \<Rightarrow> world \<Rightarrow> exchange" where
  "read_reply ps uSize uCnt buf w =
     (if uCnt < uSize then
        (let (nXfer, d, w1) = sys_read (s_fd ps) 1 w
         in if nXfer \<le> 0 then Inl w1
            else if hd d = 13 then Inr (buf[uCnt := 0], w1)
            else read_reply ps uSize (uCnt + 1) (buf[uCnt := hd d]) w1)
      else Inl (set_errno EINVAL w))"
  by pat_completeness auto

termination
  by (relation "measure (\<lambda>(ps, uSize, uCnt, buf, w). uSize - uCnt)") auto

declare read_reply.simps [simp del]

text \<open>
  \<open>uSize\<close> is the size of the buffer. \<open>uLen\<close> is an \<open>unsigned int\<close>: for the empty request it would
  wrap around, and the size check would refuse it.
\<close>

definition SerialSendRequest :: "SERIALTABLET \<Rightarrow> string \<Rightarrow> u8 list \<Rightarrow> world \<Rightarrow> exchange" where
  "SerialSendRequest ps pszRequest buf w =
     (let uSize = length buf; req = asc pszRequest;
          (r, w1) = SerialSendRaw ps req w;
          uLen = (length req + (2 ^ 32 - 1)) mod 2 ^ 32
      in if r \<noteq> 0 then Inl w1
         else if uSize < uLen then Inl (set_errno EINVAL w1)
         else (case await_header ps (hd req) buf w1 of
                 Inl w2 \<Rightarrow> Inl w2
               | Inr (buf2, w2) \<Rightarrow>
                   (case read_header ps uLen 1 buf2 w2 of
                      Inl w3 \<Rightarrow> Inl w3
                    | Inr (buf3, w3) \<Rightarrow>
                        if \<not> strncmp_eq req buf3 uLen then Inl w3
                        else read_reply ps uSize 0 buf3 w3)))"

section \<open>Configuring the port\<close>

text \<open>The \<open>switch\<close> on the baud rate; anything else is \<open>B9600\<close>.\<close>

definition baud_constant :: "s32 \<Rightarrow> u32" where
  "baud_constant nBaud =
     (if nBaud = 38400 then B38400 else if nBaud = 19200 then B19200 else if nBaud = 9600 then B9600
      else if nBaud = 4800 then B4800 else if nBaud = 2400 then B2400 else if nBaud = 1200 then B1200
      else B9600)"

text \<open>The third component is \<open>*pTIOS\<close> after the call.\<close>

definition SerialResetAtBaud :: "SERIALTABLET \<Rightarrow> termios \<Rightarrow> s32 \<Rightarrow> world \<Rightarrow> int \<times> termios \<times> world" where
  "SerialResetAtBaud ps t nBaud w =
     (let t1 = t\<lparr>c_ispeed := baud_constant nBaud, c_ospeed := baud_constant nBaud\<rparr>;
          (r, w1) = sys_tcsetattr (s_fd ps) t1 w
      in if r \<noteq> 0 then (1, t1, w1)
         else (let (r', w2) = SerialSendReset ps w1 in (r', t1, w2)))"

text \<open>The assignments to the port parameters, in order.\<close>

definition raw_port :: "termios \<Rightarrow> termios" where
  "raw_port t =
     (let t1 = t\<lparr>c_iflag := c_iflag t AND NOT (IGNBRK OR BRKINT OR PARMRK OR ISTRIP OR INLCR OR IGNCR OR ICRNL OR IXON)\<rparr>;
          t2 = t1\<lparr>c_oflag := c_oflag t1 AND NOT OPOST\<rparr>;
          t3 = t2\<lparr>c_lflag := c_lflag t2 AND NOT (ECHO OR ECHONL OR ICANON OR ISIG OR IEXTEN)\<rparr>;
          t4 = t3\<lparr>c_cflag := c_cflag t3 AND NOT (CSIZE OR PARENB)\<rparr>;
          t5 = t4\<lparr>c_cflag := c_cflag t4 OR (CS8 OR CLOCAL)\<rparr>;
          t6 = t5\<lparr>c_cflag := c_cflag t5 AND NOT CSTOPB\<rparr>;
          t7 = t6\<lparr>c_cflag := c_cflag t6 AND NOT CSIZE\<rparr>;
          t8 = t7\<lparr>c_cflag := c_cflag t7 OR CS8\<rparr>;
          t9 = t8\<lparr>c_cflag := c_cflag t8 AND NOT PARENB\<rparr>;
          t10 = t9\<lparr>c_iflag := c_iflag t9 OR IXOFF\<rparr>
      in t10\<lparr>c_cc := (c_cc t10)(VMIN := 1, VTIME := 0)\<rparr>)"

text \<open>
  The resets at one baud rate after another: \<open>if (cond && SerialResetAtBaud(...)) return 1;\<close> for
  each entry.
\<close>

fun reset_at_bauds :: "SERIALTABLET \<Rightarrow> (bool \<times> s32) list \<Rightarrow> termios \<Rightarrow> world \<Rightarrow> int \<times> world" where
  "reset_at_bauds ps [] t w = (0, w)"
| "reset_at_bauds ps ((c, b) # bs) t w =
     (if c then (let (r, t1, w1) = SerialResetAtBaud ps t b w
                 in if r \<noteq> 0 then (1, w1) else reset_at_bauds ps bs t1 w1)
      else reset_at_bauds ps bs t w)"

definition baud_plan :: "SERIALTABLET \<Rightarrow> (bool \<times> s32) list" where
  "baud_plan ps =
     (let nBaudRate = (case s_pDevice ps of None \<Rightarrow> 9600 | Some d \<Rightarrow> dv_nMinBaudRate d)
      in [(True, 38400),
          (sint nBaudRate \<le> 19200, 19200),
          (sint nBaudRate \<le> 9600, 9600),
          (sint nBaudRate < 9600, nBaudRate)])"

definition SerialConfigTTY :: "SERIALTABLET \<Rightarrow> world \<Rightarrow> int \<times> world" where
  "SerialConfigTTY ps w =
     (let (tty, w1) = sys_isatty (s_fd ps) w;
          (r, w2) =
            (if tty then
               (let (g, t, wg) = sys_tcgetattr (s_fd ps) w1
                in if g \<noteq> 0 then (1, wg)
                   else (let (s, ws) = sys_tcsetattr (s_fd ps) (raw_port t) wg
                         in if s \<noteq> 0 then (1, ws)
                            else reset_at_bauds ps (baud_plan ps) (raw_port t) ws))
             else SerialSendReset ps w1)
      in if r \<noteq> 0 then (1, w2)
         else (let (s, w3) = SerialSendStop ps w2
               in if s \<noteq> 0 then (1, w3)
                  else (let (f, w4) = WacomFlush ps w3 in if f \<noteq> 0 then (1, w4) else (0, w4))))"

section \<open>Identifying the tablet\<close>

definition SerialSetDevice ::
  "SERIALTABLET \<Rightarrow> found \<Rightarrow> world \<Rightarrow> int \<times> SERIALTABLET \<times> world" where
  "SerialSetDevice ps fnd w =
     (case fnd of (v, d, s) \<Rightarrow>
        (let ps1 = ps\<lparr>s_pVendor := v, s_pDevice := d, s_pSubType := s\<rparr>
         in case d of
              Some dev \<Rightarrow>
                (let ps2 = ps1\<lparr>s_pfnIdent := dv_pfnIdent dev\<rparr>
                 in if dv_pfnIdent dev = None then (1, ps2, set_errno EPERM w) else (0, ps2, w))
            | None \<Rightarrow> (0, ps1\<lparr>s_pfnIdent := Some SerialIdentDefault_fn\<rparr>, w)))"

text \<open>The two nested loops over \<open>xWacomVendor\<close>; a null \<open>pSubTypes\<close> is skipped.\<close>

fun find_ident :: "u8 list \<Rightarrow> SERIALDEVICE list \<Rightarrow> (SERIALDEVICE \<times> SERIALSUBTYPE) option" where
  "find_ident resp [] = None"
| "find_ident resp (d # ds) =
     (case find (\<lambda>s. strncmp_eq resp (asc (st_pszIdent s)) (length (st_pszIdent s)))
             (case dv_pSubTypes d of None \<Rightarrow> [] | Some subs \<Rightarrow> subs) of
        Some s \<Rightarrow> Some (d, s)
      | None \<Rightarrow> find_ident resp ds)"

text \<open>\<open>pszPos\<close>: what follows the last \<open>V\<close>, or the whole string.\<close>

definition after_last_V :: "u8 list \<Rightarrow> u8 list" where
  "after_last_V s = rev (takeWhile (\<lambda>b. b \<noteq> 0x56) (rev s))"

text \<open>The version fields \<open>sscanf\<close> assigns, in order.\<close>

fun assign_version :: "s32 list \<Rightarrow> SERIALTABLET \<Rightarrow> SERIALTABLET" where
  "assign_version [] ps = ps"
| "assign_version [a] ps = ps\<lparr>s_nVerMajor := a\<rparr>"
| "assign_version [a, b] ps = ps\<lparr>s_nVerMajor := a, s_nVerMinor := b\<rparr>"
| "assign_version (a # b # c # _) ps = ps\<lparr>s_nVerMajor := a, s_nVerMinor := b, s_nVerRelease := c\<rparr>"

definition scan_version ::
  "SERIALTABLET \<Rightarrow> u8 list \<Rightarrow> world \<Rightarrow> (int \<times> SERIALTABLET \<times> world) option" where
  "scan_version ps pszPos w = do {
     v3 \<leftarrow> sscanf [Fd, Fch 0x2E, Fd, Fch 0x2D, Fd] pszPos;
     let ps1 = assign_version v3 ps;
     if length v3 \<noteq> 3 then do {
       let ps2 = ps1\<lparr>s_nVerRelease := 0\<rparr>;
       v2 \<leftarrow> sscanf [Fd, Fch 0x2E, Fd] pszPos;
       let ps3 = assign_version v2 ps2;
       Some (if length v2 \<noteq> 2 then (1, ps3, set_errno EINVAL w) else (0, ps3, w))
     } else Some (0, ps1, w)
   }"

text \<open>
  \<open>chResp\<close> is uninitialised in C; only what \<open>SerialSendRequest\<close> stores in it is ever read, so it
  starts as zeros here.
\<close>

definition SerialIdentWacom :: "SERIALTABLET \<Rightarrow> world \<Rightarrow> (int \<times> SERIALTABLET \<times> world) option" where
  "SerialIdentWacom ps w =
     (let chResp = replicate 64 0;
          first = SerialSendRequest ps (''~#'' @ [CR]) chResp w;
          ans = (case first of
                   Inr x \<Rightarrow> Inr x
                 | Inl w1 \<Rightarrow> if w_errno w1 \<noteq> ETIMEDOUT then Inl w1
                            else SerialSendRequest ps (''~#'' @ [CR]) chResp w1)
      in case ans of
           Inl w1 \<Rightarrow> Some (1, ps, w1)
         | Inr (buf, w1) \<Rightarrow>
             (case find_ident (c_str buf) (vn_pDevices xWacomVendor) of
                None \<Rightarrow> Some (1, ps, w1)
              | Some (pDev, pSub) \<Rightarrow>
                  scan_version
                    (ps\<lparr>s_pVendor := Some xWacomVendor, s_pDevice := Some pDev, s_pSubType := Some pSub,
                        s_state := (s_state ps)\<lparr>uValid := dv_uCaps pDev\<rparr>,
                        s_uPacketLength := dv_uPacketLength pDev,
                        s_pfnInit := (case st_pfnInit pSub of Some f \<Rightarrow> Some f
                                      | None \<Rightarrow> Some SerialInitWacom_fn)\<rparr>)
                    (after_last_V (c_str buf)) w1))"

definition SerialIdentDefault :: "SERIALTABLET \<Rightarrow> world \<Rightarrow> (int \<times> SERIALTABLET \<times> world) option" where
  "SerialIdentDefault ps w = SerialIdentWacom ps w"

text \<open>The error returns give \<open>EPERM\<close> itself, which is 1.\<close>

definition SerialIdentTabletPC :: "SERIALTABLET \<Rightarrow> world \<Rightarrow> (int \<times> SERIALTABLET \<times> world) option" where
  "SerialIdentTabletPC ps w =
     (case s_pDevice ps of
        None \<Rightarrow> Some (1, ps, w)
      | Some d \<Rightarrow>
          if s_pVendor ps \<noteq> Some xtpcVendor then Some (1, ps, w)
          else (case dv_pSubTypes d of
                  None \<Rightarrow> None
                | Some [] \<Rightarrow> Some (1, ps, w)
                | Some (s # _) \<Rightarrow>
                    Some (0, ps\<lparr>s_pSubType := Some s,
                               s_state := (s_state ps)\<lparr>uValid := dv_uCaps d\<rparr>,
                               s_uPacketLength := dv_uPacketLength d,
                               s_pfnInit := st_pfnInit s,
                               s_nVerMajor := 0, s_nVerMinor := 0, s_nVerRelease := 0\<rparr>, w)))"

fun run_ident :: "IDENTFUNC \<Rightarrow> SERIALTABLET \<Rightarrow> world \<Rightarrow> (int \<times> SERIALTABLET \<times> world) option" where
  "run_ident SerialIdentDefault_fn = SerialIdentDefault"
| "run_ident SerialIdentTabletPC_fn = SerialIdentTabletPC"
| "run_ident SerialIdentWacom_fn = SerialIdentWacom"

section \<open>Initialising the tablet\<close>

abbreviation set_nMin :: "nat \<Rightarrow> s32 \<Rightarrow> SERIALTABLET \<Rightarrow> SERIALTABLET" where
  "set_nMin f v ps \<equiv> ps\<lparr>s_state := put_nMin f v (s_state ps)\<rparr>"

abbreviation set_nMax :: "nat \<Rightarrow> s32 \<Rightarrow> SERIALTABLET \<Rightarrow> SERIALTABLET" where
  "set_nMax f v ps \<equiv> ps\<lparr>s_state := put_nMax f v (s_state ps)\<rparr>"

definition set_tilt_range :: "SERIALTABLET \<Rightarrow> SERIALTABLET" where
  "set_tilt_range ps =
     set_nMax WACOMFIELD_TILT_Y 63 (set_nMin WACOMFIELD_TILT_Y (- 64)
       (set_nMax WACOMFIELD_TILT_X 63 (set_nMin WACOMFIELD_TILT_X (- 64) ps)))"

text \<open>The position ranges \<open>sscanf\<close> assigns.\<close>

fun assign_dims :: "s32 list \<Rightarrow> SERIALTABLET \<Rightarrow> SERIALTABLET" where
  "assign_dims [] ps = ps"
| "assign_dims [x] ps = set_nMax WACOMFIELD_POSITION_X x ps"
| "assign_dims (x # y # _) ps = set_nMax WACOMFIELD_POSITION_Y y (set_nMax WACOMFIELD_POSITION_X x ps)"

text \<open>The parser of a protocol IV tablet, by its ROM version.\<close>

definition init_protocol_4 :: "SERIALTABLET \<Rightarrow> world \<Rightarrow> int \<times> SERIALTABLET \<times> world" where
  "init_protocol_4 ps w =
     (if s_nVerMajor ps = 1 then
        (if 4 \<le> sint (s_nVerMinor ps) then
           (let (r, w1) = SerialSend ps (''FM1'' @ [CR]) w
            in if r \<noteq> 0 then (1, ps, w1)
               else (0, set_tilt_range (set_nMax WACOMFIELD_PRESSURE 255
                          (ps\<lparr>s_pfnParse := Some SerialParseWacomIV_1_4_fn, s_uPacketLength := 9\<rparr>)), w1))
         else if s_nVerMinor ps = 3 then
           (0, set_nMax WACOMFIELD_PRESSURE 255 (ps\<lparr>s_pfnParse := Some SerialParseWacomIV_1_3_fn\<rparr>), w)
         else if s_nVerMinor ps = 2 then
           (0, set_nMax WACOMFIELD_PRESSURE 255 (ps\<lparr>s_pfnParse := Some SerialParseWacomIV_1_2_fn\<rparr>), w)
         else if sint (s_nVerMinor ps) < 2 then
           (0, set_nMax WACOMFIELD_PRESSURE 120 (ps\<lparr>s_pfnParse := Some SerialParseWacomIV_1_2_fn\<rparr>), w)
         else (0, ps, w))
      else (0, ps, w))"

definition init_protocol_5 :: "SERIALTABLET \<Rightarrow> SERIALTABLET" where
  "init_protocol_5 ps =
     (let ps1 = ps\<lparr>s_pfnParse := Some SerialParseWacomV_fn\<rparr>;
          ps2 = set_nMax WACOMFIELD_PRESSURE 1023 ps1;
          ps3 = set_nMax WACOMFIELD_ABSWHEEL 1023 ps2;
          ps4 = set_nMax WACOMFIELD_ROTATION_Z 899 (set_nMin WACOMFIELD_ROTATION_Z (- 900) ps3);
          ps5 = set_nMax WACOMFIELD_THROTTLE 1023 (set_nMin WACOMFIELD_THROTTLE (- 1023) ps4)
      in set_tilt_range ps5)"

definition SerialInitWacom :: "SERIALTABLET \<Rightarrow> world \<Rightarrow> (int \<times> SERIALTABLET \<times> world) option" where
  "SerialInitWacom ps w =
     (case SerialSendRequest ps (''~C'' @ [CR]) (replicate 32 0) w of
        Inl w1 \<Rightarrow> Some (1, ps, w1)
      | Inr (buf, w1) \<Rightarrow> do {
          dims \<leftarrow> sscanf [Fd, Fch 0x2C, Fd] (c_str buf);
          let ps1 = assign_dims dims ps;
          if length dims \<noteq> 2 then Some (1, ps1, set_errno EINVAL w1)
          else do {
            dev \<leftarrow> s_pDevice ps1;
            let w2 = (if dv_uDevice dev = WACOMDEVICE_PENPARTNER
                      then snd (SerialSend ps1 (''PH1'' @ [CR]) w1)
                      else if dv_uDevice dev = WACOMDEVICE_INTUOS \<or> dv_uDevice dev = WACOMDEVICE_INTUOS2
                      then snd (SerialSend ps1 (''MT1'' @ [CR] @ ''ID1'' @ [CR] @ ''IT0'' @ [CR]) w1)
                      else w1);
            Some (if dv_nProtocol dev = PROTOCOL_4 then init_protocol_4 ps1 w2
                  else if dv_nProtocol dev = PROTOCOL_5 then (0, init_protocol_5 ps1, w2)
                  else (1, ps1, set_errno EINVAL w2))
          }
        })"

definition SerialInitTabletPC :: "SERIALTABLET \<Rightarrow> world \<Rightarrow> (int \<times> SERIALTABLET \<times> world) option" where
  "SerialInitTabletPC ps w =
     Some (0, set_nMax WACOMFIELD_PRESSURE 255 (set_nMax WACOMFIELD_POSITION_Y 0x4800
       (set_nMax WACOMFIELD_POSITION_X 0x6000 (ps\<lparr>s_pfnParse := Some SerialParseTabletPC_fn\<rparr>))), w)"

fun run_init :: "INITFUNC \<Rightarrow> SERIALTABLET \<Rightarrow> world \<Rightarrow> (int \<times> SERIALTABLET \<times> world) option" where
  "run_init SerialInitTabletPC_fn = SerialInitTabletPC"
| "run_init SerialInitWacom_fn = SerialInitWacom"

section \<open>Opening the tablet\<close>

definition SerialReset ::
  "SERIALTABLET \<Rightarrow> WACOMMODEL option \<Rightarrow> world \<Rightarrow> (int \<times> SERIALTABLET \<times> world) option" where
  "SerialReset ps pModel w = do {
     ((rcode, e), fnd) \<leftarrow> (case pModel of None \<Rightarrow> Some (rc_ok, None, None, None)
                         | Some m \<Rightarrow> SerialFindModel (Some m));
     if rcode \<noteq> 0 then Some (1, ps, (case e of None \<Rightarrow> w | Some e' \<Rightarrow> set_errno e' w))
     else
       (let (r1, ps1, w1) = SerialSetDevice ps fnd w
        in if r1 \<noteq> 0 then Some (1, ps1, w1)
           else
             (let (r2, w2) = SerialConfigTTY ps1 w1
              in if r2 \<noteq> 0 then Some (1, ps1, w2)
                 else
                   (case s_pfnIdent ps1 of
                      None \<Rightarrow> Some (1, ps1, w2)
                    | Some ident \<Rightarrow> do {
                        (r3, ps3, w3) \<leftarrow> run_ident ident ps1 w2;
                        if r3 \<noteq> 0 then Some (1, ps3, w3)
                        else
                          (case s_pfnInit ps3 of
                             None \<Rightarrow> Some (1, ps3, w3)
                           | Some ini \<Rightarrow> do {
                               (r4, ps4, w4) \<leftarrow> run_init ini ps3 w3;
                               if r4 \<noteq> 0 then Some (1, ps4, w4)
                               else Some (0, ps4, snd (SerialSendStart ps4 w4))
                             })
                      })))
   }"

text \<open>The tablet, or \<open>None\<close> for \<open>NULL\<close>.\<close>

definition WacomOpenSerialTablet ::
  "int \<Rightarrow> WACOMMODEL option \<Rightarrow> world \<Rightarrow> (SERIALTABLET option \<times> world) option" where
  "WacomOpenSerialTablet fd pModel w = do {
     (r, ps, w1) \<leftarrow> SerialReset (new_serial_tablet fd pModel) pModel w;
     Some (if r \<noteq> 0 then None else Some ps, w1)
   }"

section \<open>Reading packets\<close>

text \<open>
  One pass of the loop of \<open>SerialReadRaw\<close> after a successful \<open>read\<close> of the bytes \<open>d\<close> at offset
  \<open>uCnt\<close>: \<open>pPos\<close> is the first of the first \<open>nXfer\<close> bytes of the buffer with its high bit set, and
  when it is not the first byte, those bytes move down by \<open>pPos - puchData\<close>. The result is the
  buffer, the error count and the number of bytes that count.
\<close>

definition resync :: "u8 list \<Rightarrow> nat \<Rightarrow> u8 list \<Rightarrow> s32 \<Rightarrow> u8 list \<times> s32 \<times> nat" where
  "resync buf uCnt d nBitErrors =
     (let buf1 = take uCnt buf @ d @ drop (uCnt + length d) buf;
          nXfer = length d;
          pos = length (takeWhile (\<lambda>b. b AND 0x80 = 0) (take nXfer buf1))
      in if pos \<noteq> 0
         then (take (nXfer - pos) (drop pos buf1) @ drop (nXfer - pos) buf1, nBitErrors + 1, nXfer - pos)
         else (buf1, nBitErrors, nXfer))"

text \<open>The loop; the result is the return value, the buffer, the tablet and the world.\<close>

function read_packet ::
  "SERIALTABLET \<Rightarrow> nat \<Rightarrow> nat \<Rightarrow> u8 list \<Rightarrow> world \<Rightarrow> int \<times> u8 list \<times> SERIALTABLET \<times> world" where
  "read_packet ps uPacketLength uCnt buf w =
     (if uCnt < uPacketLength then
        (let (n, w1) = sys_select (s_fd ps) w
         in if n \<le> 0 then (-1, buf, ps, set_errno ETIMEDOUT w1)
            else (let (nXfer, d, w2) = sys_read (s_fd ps) (uPacketLength - uCnt) w1
                  in if nXfer \<le> 0 then (nXfer, buf, ps, w2)
                     else (let (buf1, errs, k) = resync buf uCnt d (s_nBitErrors ps)
                           in read_packet (ps\<lparr>s_nBitErrors := errs\<rparr>) uPacketLength (uCnt + k) buf1 w2)))
      else (int uCnt, buf, ps, w))"
  by pat_completeness auto

termination
proof (relation "measure (\<lambda>(ps, L, uCnt, buf, w). length (answers w))", goal_cases)
  case (2 ps L uCnt buf w x n w1 y nXfer z d w2 b buf1 c errs k)
  then show ?case
    using sys_select_answers [of "s_fd ps" w n w1] sys_read_answers [of "s_fd ps" "L - uCnt" w1 nXfer d w2]
    by auto
qed simp

declare read_packet.simps [simp del]

text \<open>\<open>uSize\<close> is the size of the caller's buffer; the packet length is the one before a reset.\<close>

definition SerialReadRaw ::
  "SERIALTABLET \<Rightarrow> u8 list \<Rightarrow> world \<Rightarrow> (int \<times> u8 list \<times> SERIALTABLET \<times> world) option" where
  "SerialReadRaw ps buf w =
     (let uPacketLength = unat (s_uPacketLength ps)
      in if length buf < uPacketLength then Some (0, buf, ps, set_errno EINVAL w)
         else if 3 < sint (s_nBitErrors ps) then do {
           let ps1 = ps\<lparr>s_nBitErrors := 0\<rparr>;
           (r, ps2, w2) \<leftarrow> SerialReset ps1 (Some (s_modelRequested ps1)) w;
           Some (read_packet ps2 uPacketLength 0 buf w2)
         }
         else Some (read_packet ps uPacketLength 0 buf w))"

section \<open>The rest of the table of functions\<close>

definition SerialClose :: "SERIALTABLET \<Rightarrow> world \<Rightarrow> world" where
  "SerialClose ps w = sys_close (s_fd ps) w"

definition SerialGetModel :: "SERIALTABLET \<Rightarrow> WACOMMODEL option" where
  "SerialGetModel ps = do {
     v \<leftarrow> s_pVendor ps; d \<leftarrow> s_pDevice ps; s \<leftarrow> s_pSubType ps;
     Some \<lparr>uClass = WACOMCLASS_SERIAL, uVendor = vn_uVendor v, uDevice = dv_uDevice d, uSubType = st_uSubType s\<rparr>
   }"

definition SerialGetVendorName :: "SERIALTABLET \<Rightarrow> string option" where
  "SerialGetVendorName ps = map_option vn_pszDesc (s_pVendor ps)"

definition SerialGetClassName :: "SERIALTABLET \<Rightarrow> string option" where
  "SerialGetClassName ps = Some ''Serial''"

definition SerialGetDeviceName :: "SERIALTABLET \<Rightarrow> string option" where
  "SerialGetDeviceName ps = map_option dv_pszDesc (s_pDevice ps)"

definition SerialGetSubTypeName :: "SERIALTABLET \<Rightarrow> string option" where
  "SerialGetSubTypeName ps = map_option st_pszName (s_pSubType ps)"

definition SerialGetModelName :: "SERIALTABLET \<Rightarrow> string option" where
  "SerialGetModelName ps = map_option st_pszDesc (s_pSubType ps)"

text \<open>
  The arguments say which of the three pointers are non-null; the result lists what is stored
  through each.
\<close>

definition SerialGetROMVer ::
  "SERIALTABLET \<Rightarrow> bool \<Rightarrow> bool \<Rightarrow> bool \<Rightarrow> rc \<times> s32 option \<times> s32 option \<times> s32 option" where
  "SerialGetROMVer ps major minor release =
     (if \<not> major then (fail EINVAL, None, None, None)
      else (rc_ok, Some (s_nVerMajor ps), if minor then Some (s_nVerMinor ps) else None,
            if release then Some (s_nVerRelease ps) else None))"

definition SerialGetCaps :: "SERIALTABLET \<Rightarrow> u32 option" where
  "SerialGetCaps ps = map_option dv_uCaps (s_pDevice ps)"

definition SerialGetState ::
  "SERIALTABLET \<Rightarrow> WACOMSTATE option \<Rightarrow> (rc \<times> WACOMSTATE option) option" where
  "SerialGetState ps pState = WacomCopyState pState (Some (s_state ps))"

definition SerialGetFD :: "SERIALTABLET \<Rightarrow> int" where
  "SerialGetFD ps = s_fd ps"

end
