(* ===== verification/Serial_Exchange.thy ===== *)
theory Serial_Exchange
  imports Serial_IO
begin

text \<open>
  What the exchange with the device achieves. The first part holds for every behaviour of the
  kernel: what has been sent, what a buffer holds, that the port settings change only where the
  code changes them. The second part is about a device that answers: its answers are scripts, and
  the lemmas run the code on them.
\<close>

section \<open>For every kernel\<close>

text \<open>The calls that send bytes leave the port settings alone.\<close>

lemma sys_write_tios: "sys_write fd d w = (r, w1) \<Longrightarrow> tios w1 = tios w"
  by (auto simp: sys_write_def next_answer_def split: list.splits answer.splits)

lemma sys_read_tios: "sys_read fd n w = (r, d, w1) \<Longrightarrow> tios w1 = tios w"
  by (auto simp: sys_read_def next_answer_def split: list.splits answer.splits)

lemma sys_number_tios: "sys_number c w = (r, w1) \<Longrightarrow> tios w1 = tios w"
  by (auto simp: sys_number_def next_answer_def split: list.splits answer.splits)

lemma sys_write_sent:
  "sys_write fd d w = (r, w1) \<Longrightarrow> sent fd w1 = sent fd w @ take (nat r) d"
  by (auto simp: sys_write_def next_answer_def sent_def split: list.splits answer.splits)

lemma SerialSendRaw_Nil: "SerialSendRaw ps [] w = (0, w)"
  by (simp add: SerialSendRaw.simps)

lemma SerialSendRaw_step:
  "d \<noteq> [] \<Longrightarrow> sys_write (s_fd ps) d w = (n, w1) \<Longrightarrow>
   SerialSendRaw ps d w = (if n \<le> 0 then (1, w1) else SerialSendRaw ps (drop (nat n) d) w1)"
  by (subst SerialSendRaw.simps) simp

lemma SerialSendRaw_tios: "SerialSendRaw ps d w = (r, w1) \<Longrightarrow> tios w1 = tios w"
proof (induction ps d w arbitrary: r w1 rule: SerialSendRaw.induct)
  case (1 ps d w)
  obtain n w2 where n: "sys_write (s_fd ps) d w = (n, w2)" by (cases "sys_write (s_fd ps) d w")
  note t = sys_write_tios [OF n]
  consider "d = []" | "d \<noteq> []" "n \<le> 0" | "d \<noteq> []" "0 < n" by linarith
  then show ?case
  proof cases
    case 1
    then show ?thesis using "1.prems" by (simp add: SerialSendRaw_Nil)
  next
    case 2
    then show ?thesis using "1.prems" t by (simp add: SerialSendRaw_step [OF _ n])
  next
    case 3
    then show ?thesis
      using "1.IH" [OF 3(1) n [symmetric] refl] "1.prems" t by (simp add: SerialSendRaw_step [OF _ n])
  qed
qed

text \<open>\<open>SerialSendRaw\<close> sends a prefix of its data, all of it exactly when it returns 0.\<close>

lemma SerialSendRaw_sent:
  "SerialSendRaw ps d w = (r, w1) \<Longrightarrow>
   \<exists>k\<le>length d. sent (s_fd ps) w1 = sent (s_fd ps) w @ take k d \<and> (r = 0 \<longleftrightarrow> k = length d) \<and> r \<in> {0, 1}"
proof (induction ps d w arbitrary: r w1 rule: SerialSendRaw.induct)
  case (1 ps d w)
  obtain n w2 where n: "sys_write (s_fd ps) d w = (n, w2)" by (cases "sys_write (s_fd ps) d w")
  note s = sys_write_sent [OF n]
  consider "d = []" | "d \<noteq> []" "n \<le> 0" | "d \<noteq> []" "0 < n" by linarith
  then show ?case
  proof cases
    case 1
    then show ?thesis using "1.prems" by (simp add: SerialSendRaw_Nil)
  next
    case 2
    then show ?thesis using "1.prems" s by (auto simp: SerialSendRaw_step [OF _ n] intro!: exI [of _ 0])
  next
    case 3
    have "nat n \<le> length d" using sys_write_count [OF n] by simp
    moreover have "SerialSendRaw ps (drop (nat n) d) w2 = (r, w1)"
      using "1.prems" 3 by (simp add: SerialSendRaw_step [OF _ n])
    from 1(1) [OF 3(1) n [symmetric] refl _ this] 3(2) obtain k where k: "k \<le> length (drop (nat n) d)"
      "sent (s_fd ps) w1 = sent (s_fd ps) w2 @ take k (drop (nat n) d)"
      "(r = 0) = (k = length (drop (nat n) d))" "r \<in> {0, 1}" by auto
    moreover have "take (nat n) d @ take k (drop (nat n) d) = take (nat n + k) d"
      by (simp add: take_add)
    ultimately show ?thesis
      using s by (intro exI [of _ "nat n + k"]) auto
  qed
qed

lemma SerialSend_tios: "SerialSend ps m w = (r, w1) \<Longrightarrow> tios w1 = tios w"
  unfolding SerialSend_def by (rule SerialSendRaw_tios)

lemma SerialSendReset_tios: "SerialSendReset ps w = (r, w1) \<Longrightarrow> tios w1 = tios w"
  by (auto simp: SerialSendReset_def sys_usleep_def Let_def dest!: SerialSend_tios split: prod.splits if_splits)

lemma SerialSendStop_tios: "SerialSendStop ps w = (r, w1) \<Longrightarrow> tios w1 = tios w"
  by (auto simp: SerialSendStop_def sys_usleep_def Let_def dest!: SerialSend_tios split: prod.splits if_splits)

lemma drain_tios: "tios (drain fd w) = tios w"
proof (induction fd w rule: drain.induct)
  case (1 fd w)
  obtain n w1 where n: "sys_select fd w = (n, w1)" by (cases "sys_select fd w")
  obtain x d w2 where x: "sys_read fd 16 w1 = (x, d, w2)" by (cases "sys_read fd 16 w1")
  have "tios w1 = tios w" "tios w2 = tios w1"
    using n x sys_number_tios [of _ w n w1] sys_read_tios by (auto simp: sys_select_def)
  then show ?case
    using 1 [OF n [symmetric] refl _ x [symmetric] refl refl] n x by (simp add: drain.simps [of fd w])
qed

lemma WacomFlush_tios: "WacomFlush ps w = (r, w1) \<Longrightarrow> r = 0 \<and> tios w1 = tios w"
  by (auto simp: WacomFlush_def sys_tcflush_def sys_status_def drain_tios dest!: sys_number_tios
      split: prod.splits if_splits)

lemma SerialResetAtBaud_tios:
  assumes "SerialResetAtBaud ps t b w = (0, t1, w1)"
  shows "t1 = t\<lparr>c_ispeed := baud_constant b, c_ospeed := baud_constant b\<rparr> \<and> tios w1 = t1"
  using assms
  by (auto simp: SerialResetAtBaud_def sys_tcsetattr_def Let_def dest!: SerialSendReset_tios
      split: prod.splits if_splits)

section \<open>Scripts\<close>

text \<open>
  \<open>served ps w out later w'\<close>: from \<open>w\<close> to \<open>w'\<close> the bytes \<open>out\<close> went to the tablet, and the
  answers still to come are \<open>later\<close>.
\<close>

definition served :: "SERIALTABLET \<Rightarrow> world \<Rightarrow> u8 list \<Rightarrow> answer list \<Rightarrow> world \<Rightarrow> bool" where
  "served ps w out later w' \<longleftrightarrow> answers w' = later \<and> sent (s_fd ps) w' = sent (s_fd ps) w @ out"

lemma served_trans:
  "served ps w a m w' \<Longrightarrow> served ps w' b m' w'' \<Longrightarrow> served ps w (a @ b) m' w''"
  by (simp add: served_def)

lemma served_fd: "s_fd ps = s_fd ps' \<Longrightarrow> served ps = served ps'"
  by (simp add: served_def fun_eq_iff)

text \<open>A write that takes everything.\<close>

abbreviation takes_all :: answer where "takes_all \<equiv> Gives 64 []"
abbreviation ok :: answer where "ok \<equiv> Gives 0 []"
abbreviation ready :: answer where "ready \<equiv> Gives 1 []"

lemma SerialSendRaw_served:
  assumes "answers w = takes_all # later" and "d \<noteq> []" and "length d \<le> 64"
  shows "\<exists>w'. SerialSendRaw ps d w = (0, w') \<and> served ps w d later w'"
proof -
  from sys_write_serve [OF assms(1), of "s_fd ps" d] assms(2,3)
  have "sys_write (s_fd ps) d w = (int (length d), log_call (Sys_write (s_fd ps) d (length d)) (w\<lparr>answers := later\<rparr>))"
    by (simp add: min_def)
  with assms(2,3) show ?thesis
    by (simp add: SerialSendRaw_step SerialSendRaw_Nil served_def sent_def)
qed

lemma SerialSend_served:
  assumes "answers w = takes_all # later" and "m \<noteq> []" and "length m \<le> 64"
  shows "\<exists>w'. SerialSend ps m w = (0, w') \<and> served ps w (asc m) later w'"
  unfolding SerialSend_def using assms by (intro SerialSendRaw_served) (auto simp: asc_def)

abbreviation reset_bytes :: "u8 list" where "reset_bytes \<equiv> [13, 0x24, 13, 0x23, 13]"

lemma asc_CR: "asc (CR # ''$'' @ [CR]) = [13, 0x24, 13]" "asc (''#'' @ [CR]) = [0x23, 13]"
  "asc (CR # ''SP'' @ [CR]) = [13, 0x53, 0x50, 13]" "asc (''ST'' @ [CR]) = [0x53, 0x54, 13]"
  "asc (''~#'' @ [CR]) = [0x7E, 0x23, 13]" "asc (''~C'' @ [CR]) = [0x7E, 0x43, 13]"
  "asc (''FM1'' @ [CR]) = [0x46, 0x4D, 0x31, 13]"
  by (simp_all add: asc_def)

lemma SerialSendReset_served:
  assumes "answers w = takes_all # takes_all # later"
  shows "\<exists>w'. SerialSendReset ps w = (0, w') \<and> served ps w reset_bytes later w'"
proof -
  obtain w1 where 1: "SerialSend ps (CR # ''$'' @ [CR]) w = (0, w1)" "served ps w [13, 0x24, 13] (takes_all # later) w1"
    using SerialSend_served [OF assms, of "CR # ''$'' @ [CR]" ps] unfolding asc_CR by auto
  then have "answers (sys_usleep 250000 w1) = takes_all # later"
    by (simp add: sys_usleep_def served_def)
  then obtain w2 where 2: "SerialSend ps (''#'' @ [CR]) (sys_usleep 250000 w1) = (0, w2)"
    "served ps (sys_usleep 250000 w1) [0x23, 13] later w2"
    using SerialSend_served [of "sys_usleep 250000 w1" later "''#'' @ [CR]" ps] unfolding asc_CR by auto
  from 1 2 show ?thesis
    by (simp add: SerialSendReset_def served_def) (simp add: sys_usleep_def sent_def)
qed

lemma SerialSendStop_served:
  assumes "answers w = takes_all # later"
  shows "\<exists>w'. SerialSendStop ps w = (0, w') \<and> served ps w [13, 0x53, 0x50, 13] later w'"
proof -
  obtain w1 where "SerialSend ps (CR # ''SP'' @ [CR]) w = (0, w1)" "served ps w [13, 0x53, 0x50, 13] later w1"
    using SerialSend_served [OF assms, of "CR # ''SP'' @ [CR]" ps] unfolding asc_CR by auto
  then show ?thesis
    by (simp add: SerialSendStop_def served_def) (simp add: sys_usleep_def sent_def)
qed

section \<open>A request and its reply\<close>

text \<open>A byte before the header is waited for with \<open>select\<close>; the others are just read.\<close>

definition byte_script :: "u8 list \<Rightarrow> answer list" where
  "byte_script s = map (\<lambda>b. Gives 1 [b]) s"

definition polled_script :: "u8 list \<Rightarrow> answer list" where
  "polled_script s = concat (map (\<lambda>b. [ready, Gives 1 [b]]) s)"

definition reply_script :: "u8 list \<Rightarrow> u8 list \<Rightarrow> u8 list \<Rightarrow> answer list" where
  "reply_script noise req reply =
     takes_all # polled_script (noise @ [hd req]) @ byte_script (tl (butlast req) @ reply @ [13])"

lemma await_header_step:
  assumes "answers w = ready # Gives 1 [b] # later"
  shows "\<exists>w'. served ps w [] later w' \<and>
    await_header ps h buf w = (if b = h then Inr (b # drop 1 buf, w') else await_header ps h (b # drop 1 buf) w')"
  by (rule exI [of _ "log_call (Sys_read (s_fd ps) 1 [b]) (log_call (Sys_select (s_fd ps)) (w\<lparr>answers := later\<rparr>))"],
      insert assms, simp add: await_header.simps [of ps h buf w] sys_select_serve sys_read_serve)
     (simp add: served_def sent_def)

lemma await_header_served:
  "h \<notin> set noise \<Longrightarrow> answers w = polled_script (noise @ [h]) @ later \<Longrightarrow> 1 \<le> length buf \<Longrightarrow>
   \<exists>w'. await_header ps h buf w = Inr (h # drop 1 buf, w') \<and> served ps w [] later w'"
proof (induction noise arbitrary: w buf)
  case Nil
  then show ?case
    using await_header_step [of w h later ps h buf] by (auto simp: polled_script_def)
next
  case (Cons b noise)
  then obtain w1 where 1: "served ps w [] (polled_script (noise @ [h]) @ later) w1"
    "await_header ps h buf w = await_header ps h (b # drop 1 buf) w1"
    using await_header_step [of w b "polled_script (noise @ [h]) @ later" ps h buf]
    by (auto simp: polled_script_def)
  then have "answers w1 = polled_script (noise @ [h]) @ later"
    by (simp add: served_def)
  with Cons.IH [of w1 "b # drop 1 buf"] Cons.prems(1) 1 show ?case
    by (auto simp: served_def)
qed

lemma read_header_served:
  "answers w = byte_script s @ later \<Longrightarrow> uCnt + length s = uLen \<Longrightarrow> uLen \<le> length buf \<Longrightarrow>
   \<exists>w'. read_header ps uLen uCnt buf w = Inr (take uCnt buf @ s @ drop uLen buf, w') \<and> served ps w [] later w'"
proof (induction s arbitrary: w uCnt buf)
  case Nil
  then show ?case by (simp add: read_header.simps byte_script_def served_def)
next
  case (Cons b s)
  let ?w1 = "log_call (Sys_read (s_fd ps) (uLen - uCnt) [b]) (w\<lparr>answers := byte_script s @ later\<rparr>)"
  let ?buf1 = "take uCnt buf @ [b] @ drop (uCnt + 1) buf"
  have r: "sys_read (s_fd ps) (uLen - uCnt) w = (1, [b], ?w1)"
    using Cons.prems by (simp add: sys_read_serve byte_script_def)
  have "\<exists>w'. read_header ps uLen (uCnt + 1) ?buf1 ?w1 =
      Inr (take (uCnt + 1) ?buf1 @ s @ drop uLen ?buf1, w') \<and> served ps ?w1 [] later w'"
    using Cons.prems by (intro Cons.IH) auto
  moreover have "take (uCnt + 1) ?buf1 @ s @ drop uLen ?buf1 = take uCnt buf @ (b # s) @ drop uLen buf"
    using Cons.prems by (auto simp: take_Cons' drop_Cons')
  moreover have "read_header ps uLen uCnt buf w = read_header ps uLen (uCnt + 1) ?buf1 ?w1"
    using r Cons.prems by (simp add: read_header.simps [of ps uLen uCnt buf w])
  ultimately show ?case
    by (auto simp: served_def sent_def)
qed

lemma read_reply_served:
  "answers w = byte_script (s @ [13]) @ later \<Longrightarrow> 13 \<notin> set s \<Longrightarrow> uCnt + length s < uSize \<Longrightarrow> uSize = length buf \<Longrightarrow>
   \<exists>w' rest. read_reply ps uSize uCnt buf w = Inr (take uCnt buf @ s @ 0 # rest, w') \<and> served ps w [] later w'"
proof (induction s arbitrary: w uCnt buf)
  case Nil
  then show ?case
    by (subst read_reply.simps) (auto simp: sys_read_serve byte_script_def served_def sent_def upd_conv_take_nth_drop)
next
  case (Cons b s)
  let ?w1 = "log_call (Sys_read (s_fd ps) 1 [b]) (w\<lparr>answers := byte_script (s @ [13]) @ later\<rparr>)"
  have r: "sys_read (s_fd ps) 1 w = (1, [b], ?w1)"
    using Cons.prems by (simp add: sys_read_serve byte_script_def)
  have "\<exists>w' rest. read_reply ps uSize (uCnt + 1) (buf[uCnt := b]) ?w1 =
      Inr (take (uCnt + 1) (buf[uCnt := b]) @ s @ 0 # rest, w') \<and> served ps ?w1 [] later w'"
    using Cons.prems by (intro Cons.IH) auto
  moreover have "take (uCnt + 1) (buf[uCnt := b]) = take uCnt buf @ [b]"
    using Cons.prems by (simp add: take_Suc_conv_app_nth)
  moreover have "read_reply ps uSize uCnt buf w = read_reply ps uSize (uCnt + 1) (buf[uCnt := b]) ?w1"
    using r Cons.prems by (subst read_reply.simps) auto
  ultimately show ?case
    by (auto simp: served_def sent_def)
qed

lemma SerialSendRequest_steps:
  assumes "SerialSendRaw ps (asc m) w = (0, w1)" and "(length (asc m) + (2 ^ 32 - 1)) mod 2 ^ 32 = uLen"
    and "uLen \<le> length buf" and "await_header ps (hd (asc m)) buf w1 = Inr (b2, w2)"
    and "read_header ps uLen 1 b2 w2 = Inr (b3, w3)" and "strncmp_eq (asc m) b3 uLen"
  shows "SerialSendRequest ps m buf w = read_reply ps (length buf) 0 b3 w3"
  unfolding SerialSendRequest_def Let_def assms(1) assms(2) prod.case
  using assms(3-6) by simp

text \<open>
  The request \<open>h # t @ [CR]\<close> of at most \<open>2 ^ 31\<close> bytes, whatever noise without \<open>h\<close> comes before
  the reply.
\<close>

lemma SerialSendRequest_served:
  assumes "answers w = reply_script noise req reply @ later" and "req = asc pszRequest"
    and "req = h # t @ [13]" and "h \<notin> set noise" and "13 \<notin> set reply" and "0 \<notin> set reply"
    and "length reply < length buf" and "length req \<le> length buf" and "length req \<le> 64"
  shows "\<exists>buf' w'. SerialSendRequest ps pszRequest buf w = Inr (buf', w') \<and> c_str buf' = reply \<and>
    served ps w req later w'"
proof -
  have req: "butlast req = h # t" "req \<noteq> []" "hd req = h" "asc pszRequest = h # t @ [13]"
    unfolding assms(2) [symmetric] by (simp_all add: assms(3) butlast_append)
  have len: "length t + 2 \<le> length buf" "length t \<le> length buf - Suc 0"
    using assms(3,8) by auto
  let ?m1 = "polled_script (noise @ [h]) @ byte_script (t @ reply @ [13]) @ later"
  have "answers w = takes_all # ?m1"
    using assms(1) req by (simp add: reply_script_def)
  from SerialSendRaw_served [OF this req(2) assms(9), of ps]
  obtain w1 where 1: "SerialSendRaw ps req w = (0, w1)" "served ps w req ?m1 w1" by auto
  have uLen: "(length req + (2 ^ 32 - 1)) mod 2 ^ 32 = length t + 1"
  proof -
    have "length req + (2 ^ 32 - 1) = (length t + 1) + 2 ^ 32"
      using assms(3) by simp
    then show ?thesis
      using assms(3,9) by (simp only: mod_add_self2) simp
  qed
  let ?m2 = "byte_script (t @ reply @ [13]) @ later"
  from 1(2) obtain w2 where 2: "await_header ps h buf w1 = Inr (h # drop 1 buf, w2)" "served ps w1 [] ?m2 w2"
    using await_header_served [OF assms(4), of w1 ?m2 buf ps] assms(7) by (auto simp: served_def)
  let ?m3 = "byte_script (reply @ [13]) @ later"
  from 2(2) obtain w3 where 3: "read_header ps (length t + 1) 1 (h # drop 1 buf) w2 =
      Inr (take 1 (h # drop 1 buf) @ t @ drop (length t + 1) (h # drop 1 buf), w3)" "served ps w2 [] ?m3 w3"
    using read_header_served [of w2 t ?m3 1 "length t + 1" "h # drop 1 buf" ps] len
    by (auto simp: served_def byte_script_def)
  let ?buf3 = "h # t @ drop (length t) (drop 1 buf)"
  have buf3: "take 1 (h # drop 1 buf) @ t @ drop (length t + 1) (h # drop 1 buf) = ?buf3"
    "length ?buf3 = length buf"
    using len by simp_all
  have "answers w3 = byte_script (reply @ [13]) @ later"
    using 3(2) by (simp add: served_def)
  moreover have "0 + length reply < length buf" using assms(7) by simp
  ultimately obtain w4 rest where 4: "read_reply ps (length buf) 0 ?buf3 w3 = Inr (take 0 ?buf3 @ reply @ 0 # rest, w4)"
      "served ps w3 [] later w4"
    using read_reply_served [OF _ assms(5) _ buf3(2) [symmetric], of w3 later 0 ps] by blast
  have sync: "strncmp_eq req ?buf3 (length t + 1)"
    using assms(3) by (simp add: strncmp_eq_def)
  have "SerialSendRequest ps pszRequest buf w = read_reply ps (length buf) 0 ?buf3 w3"
  proof (rule SerialSendRequest_steps)
    show "SerialSendRaw ps (asc pszRequest) w = (0, w1)" using 1(1) unfolding assms(2) .
    show "(length (asc pszRequest) + (2 ^ 32 - 1)) mod 2 ^ 32 = length t + 1" using uLen unfolding assms(2) .
    show "await_header ps (hd (asc pszRequest)) buf w1 = Inr (h # drop 1 buf, w2)"
      using 2(1) req(3) unfolding assms(2) by (simp only:)
    show "read_header ps (length t + 1) 1 (h # drop 1 buf) w2 = Inr (?buf3, w3)" using 3(1) unfolding buf3(1) .
    show "strncmp_eq (asc pszRequest) ?buf3 (length t + 1)" using sync unfolding assms(2) .
  qed (use len in simp)
  then have "SerialSendRequest ps pszRequest buf w = Inr (reply @ 0 # rest, w4)"
    using 4(1) by simp
  moreover have "served ps w req later w4"
    using 1(2) 2(2) 3(2) 4(2) by (simp add: served_def)
  ultimately show ?thesis
    using c_str_no_nul [OF assms(6)] by auto
qed

end
