(* ===== verification/Serial_Read.thy ===== *)
theory Serial_Read
  imports Serial_Exchange
begin

text \<open>
  The packet reader \<open>SerialReadRaw\<close>: what it does to the caller's buffer whatever the kernel
  answers, and that it finds the packet in a byte stream however the stream is cut into reads.
\<close>

abbreviation high_bit :: "u8 \<Rightarrow> bool" where "high_bit b \<equiv> b AND 0x80 \<noteq> 0"

section \<open>Resynchronisation\<close>

text \<open>The buffer after \<open>read\<close> stored \<open>d\<close> at \<open>uCnt\<close>.\<close>

abbreviation stored :: "u8 list \<Rightarrow> nat \<Rightarrow> u8 list \<Rightarrow> u8 list" where
  "stored buf uCnt d \<equiv> take uCnt buf @ d @ drop (uCnt + length d) buf"

lemma resync_in_sync:
  assumes "0 < uCnt" and "uCnt \<le> length buf" and "high_bit (buf ! 0)" and "d \<noteq> []"
  shows "resync buf uCnt d e = (stored buf uCnt d, e, length d)"
proof -
  obtain b bs where "buf = b # bs" using assms(1,2) by (cases buf) auto
  moreover obtain c where "uCnt = Suc c" using assms(1) by (cases uCnt) auto
  moreover obtain n where "length d = Suc n" using assms(4) by (cases d) auto
  ultimately show ?thesis using assms(3) by (simp add: resync_def)
qed

text \<open>At the start of the buffer the bytes before the first high bit are dropped.\<close>

lemma resync_start:
  assumes "length d \<le> length buf"
  defines "j \<equiv> takeWhile (\<lambda>b. \<not> high_bit b) d"
  defines "p \<equiv> dropWhile (\<lambda>b. \<not> high_bit b) d"
  shows "fst (resync buf 0 d e) = p @ drop (length p) (d @ drop (length d) buf)"
    and "snd (resync buf 0 d e) = (if j = [] then e else e + 1, length p)"
proof -
  have d: "d = j @ p" unfolding j_def p_def by simp
  have "takeWhile (\<lambda>b. b AND 0x80 = 0) (take (length d) (d @ drop (length d) buf)) = j"
    by (simp add: j_def)
  moreover have "drop (length j) d = p" using d by (metis append_eq_conv_conj)
  moreover have "length d - length j = length p" using d by (metis add_diff_cancel_left' length_append)
  ultimately show "fst (resync buf 0 d e) = p @ drop (length p) (d @ drop (length d) buf)"
    and "snd (resync buf 0 d e) = (if j = [] then e else e + 1, length p)"
    using d by (auto simp: resync_def Let_def)
qed

text \<open>What holds after each pass: the buffer's head is a high bit as soon as it holds anything.\<close>

lemma resync_keeps:
  assumes "uCnt + length d \<le> L" and "L \<le> length buf" and "d \<noteq> []"
    and "0 < uCnt \<Longrightarrow> high_bit (buf ! 0)" and "resync buf uCnt d e = (buf1, e1, k)"
  shows "length buf1 = length buf \<and> drop L buf1 = drop L buf \<and> k \<le> length d \<and>
    (0 < uCnt + k \<longrightarrow> high_bit (buf1 ! 0))"
proof (cases "uCnt = 0")
  case False
  have "high_bit (buf ! 0)" "resync buf uCnt d e = (stored buf uCnt d, e, length d)"
    using assms(1-4) False by (auto intro!: resync_in_sync)
  then show ?thesis using assms(1,2,5) False by (auto simp: nth_append)
next
  case True
  define p where "p = dropWhile (\<lambda>b. \<not> high_bit b) d"
  have p: "length p \<le> length d" unfolding p_def by (rule length_dropWhile_le)
  have b: "buf1 = p @ drop (length p) (d @ drop (length d) buf)" "k = length p"
    using resync_start [of d buf e] assms(1,2,5) True by (auto simp: p_def)
  moreover have "high_bit (p ! 0)" if "p \<noteq> []"
    using that hd_dropWhile [of "\<lambda>b. \<not> high_bit b" d] unfolding p_def by (simp add: hd_conv_nth)
  ultimately show ?thesis
    using assms(1,2) True p by (auto simp: nth_append)
qed

section \<open>Safety of the loop\<close>

lemma sys_read_result: "sys_read fd n w = (r, d, w1) \<Longrightarrow> r \<le> 0 \<Longrightarrow> r = 0 \<or> r = -1"
  by (auto simp: sys_read_def split: prod.splits answer.splits)

lemma read_packet_full: "\<not> uCnt < L \<Longrightarrow> read_packet ps L uCnt buf w = (int uCnt, buf, ps, w)"
  by (simp add: read_packet.simps)

lemma read_packet_timeout:
  "uCnt < L \<Longrightarrow> sys_select (s_fd ps) w = (n, w1) \<Longrightarrow> n \<le> 0 \<Longrightarrow>
   read_packet ps L uCnt buf w = (-1, buf, ps, set_errno ETIMEDOUT w1)"
  by (subst read_packet.simps) simp

lemma read_packet_error:
  "uCnt < L \<Longrightarrow> sys_select (s_fd ps) w = (n, w1) \<Longrightarrow> 0 < n \<Longrightarrow>
   sys_read (s_fd ps) (L - uCnt) w1 = (r, d, w2) \<Longrightarrow> r \<le> 0 \<Longrightarrow>
   read_packet ps L uCnt buf w = (r, buf, ps, w2)"
  by (subst read_packet.simps) simp

lemma read_packet_data:
  "uCnt < L \<Longrightarrow> sys_select (s_fd ps) w = (n, w1) \<Longrightarrow> 0 < n \<Longrightarrow>
   sys_read (s_fd ps) (L - uCnt) w1 = (r, d, w2) \<Longrightarrow> 0 < r \<Longrightarrow>
   resync buf uCnt d (s_nBitErrors ps) = (buf1, e, k) \<Longrightarrow>
   read_packet ps L uCnt buf w = read_packet (ps\<lparr>s_nBitErrors := e\<rparr>) L (uCnt + k) buf1 w2"
  by (subst read_packet.simps) simp

definition read_post :: "nat \<Rightarrow> SERIALTABLET \<Rightarrow> u8 list \<Rightarrow> int \<times> u8 list \<times> SERIALTABLET \<times> world \<Rightarrow> bool" where
  "read_post L ps buf out \<longleftrightarrow>
     (case out of (r, buf', ps', w') \<Rightarrow>
        length buf' = length buf \<and> drop L buf' = drop L buf \<and>
        ps' = ps\<lparr>s_nBitErrors := s_nBitErrors ps'\<rparr> \<and>
        (r = int L \<and> (0 < L \<longrightarrow> high_bit (buf' ! 0)) \<or> r = 0 \<or> r = -1))"

lemma read_packet_post:
  "uCnt \<le> L \<Longrightarrow> L \<le> length buf \<Longrightarrow> (0 < uCnt \<Longrightarrow> high_bit (buf ! 0)) \<Longrightarrow>
   read_post L ps buf (read_packet ps L uCnt buf w)"
proof (induction ps L uCnt buf w rule: read_packet.induct)
  case (1 ps L uCnt buf w)
  obtain n w1 where n: "sys_select (s_fd ps) w = (n, w1)" by (cases "sys_select (s_fd ps) w")
  obtain r d w2 where r: "sys_read (s_fd ps) (L - uCnt) w1 = (r, d, w2)"
    by (cases "sys_read (s_fd ps) (L - uCnt) w1")
  obtain buf1 e k where s: "resync buf uCnt d (s_nBitErrors ps) = (buf1, e, k)"
    by (cases "resync buf uCnt d (s_nBitErrors ps)")
  consider "\<not> uCnt < L" | "uCnt < L" "n \<le> 0" | "uCnt < L" "0 < n" "r \<le> 0" | "uCnt < L" "0 < n" "0 < r"
    by linarith
  then show ?case
  proof cases
    case 1
    then show ?thesis using "1.prems" by (simp add: read_packet_full read_post_def)
  next
    case 2
    then show ?thesis by (simp add: read_packet_timeout [OF 2(1) n 2(2)] read_post_def)
  next
    case 3
    then show ?thesis
      using sys_read_result [OF r] by (simp add: read_packet_error [OF 3(1) n 3(2) r 3(3)] read_post_def)
  next
    case 4
    have d: "uCnt + length d \<le> L" "d \<noteq> []" using sys_read_data [OF r] 4 by auto
    note k = resync_keeps [OF d(1) "1.prems"(2) d(2) "1.prems"(3) s]
    have "read_post L (ps\<lparr>s_nBitErrors := e\<rparr>) buf1 (read_packet (ps\<lparr>s_nBitErrors := e\<rparr>) L (uCnt + k) buf1 w2)"
      using 4 d k "1.prems"(2)
      by (intro "1.IH" [OF 4(1) n [symmetric] refl _ r [symmetric] refl refl _ s [symmetric] refl refl]) auto
    then show ?thesis
      using k unfolding read_packet_data [OF 4(1) n 4(2) r 4(3) s] read_post_def by auto
  qed
qed

section \<open>The packet in a stream\<close>

text \<open>The device delivers a stream in the chunks given; each is announced by \<open>select\<close>.\<close>

definition stream_script :: "u8 list list \<Rightarrow> answer list" where
  "stream_script cs = concat (map (\<lambda>c. [ready, Gives (length c) c]) cs)"

lemma read_packet_chunk:
  assumes "answers w = stream_script (c # cs) @ later" and "uCnt < L" and "c \<noteq> []" and "length c \<le> L - uCnt"
    and "resync buf uCnt c (s_nBitErrors ps) = (buf1, e, k)"
  shows "\<exists>w'. answers w' = stream_script cs @ later \<and>
    read_packet ps L uCnt buf w = read_packet (ps\<lparr>s_nBitErrors := e\<rparr>) L (uCnt + k) buf1 w'"
proof -
  let ?w1 = "log_call (Sys_select (s_fd ps)) (w\<lparr>answers := Gives (length c) c # stream_script cs @ later\<rparr>)"
  let ?w2 = "log_call (Sys_read (s_fd ps) (L - uCnt) c) (?w1\<lparr>answers := stream_script cs @ later\<rparr>)"
  have "sys_select (s_fd ps) w = (1, ?w1)" "sys_read (s_fd ps) (L - uCnt) ?w1 = (int (length c), c, ?w2)"
    using assms(1,4) by (simp_all add: sys_select_serve sys_read_serve stream_script_def)
  from read_packet_data [OF assms(2) this(1) _ this(2) _ assms(5)] assms(3) show ?thesis
    by (intro exI [of _ ?w2]) simp
qed

text \<open>In sync, the rest of the packet is appended chunk by chunk.\<close>

lemma read_packet_synced:
  "answers w = stream_script cs @ later \<Longrightarrow> [] \<notin> set cs \<Longrightarrow> got \<noteq> [] \<Longrightarrow> high_bit (hd got) \<Longrightarrow>
   length (got @ concat cs) = L \<Longrightarrow> L \<le> length (got @ rest) \<Longrightarrow>
   \<exists>w'. read_packet ps L (length got) (got @ rest) w =
     (int L, got @ concat cs @ drop (length (concat cs)) rest, ps, w') \<and> answers w' = later"
proof (induction cs arbitrary: got rest w)
  case Nil
  then show ?case by (simp add: read_packet_full stream_script_def)
next
  case (Cons c cs)
  have c: "c \<noteq> []" "length got < L" "length c \<le> L - length got" "length c \<le> length rest"
    using Cons.prems by auto
  have "resync (got @ rest) (length got) c (s_nBitErrors ps) =
      ((got @ c) @ drop (length c) rest, s_nBitErrors ps, length c)"
    using Cons.prems c by (subst resync_in_sync) (auto simp: nth_append hd_conv_nth)
  from read_packet_chunk [OF Cons.prems(1) c(2,1,3) this] obtain w1 where
    w1: "answers w1 = stream_script cs @ later"
    "read_packet ps L (length got) (got @ rest) w =
       read_packet (ps\<lparr>s_nBitErrors := s_nBitErrors ps\<rparr>) L (length got + length c) ((got @ c) @ drop (length c) rest) w1"
    by blast
  moreover have "\<exists>w'. read_packet ps L (length (got @ c)) ((got @ c) @ drop (length c) rest) w1 =
     (int L, (got @ c) @ concat cs @ drop (length (concat cs)) (drop (length c) rest), ps, w') \<and> answers w' = later"
    using Cons.prems c w1(1) by (intro Cons.IH) auto
  ultimately show ?case by (simp add: add.commute)
qed

text \<open>
  Out of sync, bytes without the high bit are dropped; the error count grows by one for every
  read that brought some.
\<close>

lemma takeWhile_junk:
  assumes "\<forall>b\<in>set junk. \<not> high_bit b" and "p = [] \<or> high_bit (hd p)"
  shows "takeWhile (\<lambda>b. \<not> high_bit b) (junk @ p) = junk" "dropWhile (\<lambda>b. \<not> high_bit b) (junk @ p) = p"
  using assms by (induction junk) (auto, (cases p; simp)+)

lemma read_packet_stream_aux:
  "answers w = stream_script cs @ later \<Longrightarrow> \<forall>c\<in>set cs. 0 < length c \<and> length c \<le> L \<Longrightarrow>
   concat cs = junk @ pkt \<Longrightarrow> \<forall>b\<in>set junk. \<not> high_bit b \<Longrightarrow> length pkt = L \<Longrightarrow> 0 < L \<Longrightarrow> high_bit (hd pkt) \<Longrightarrow>
   L \<le> length buf \<Longrightarrow>
   \<exists>w' e. read_packet ps L 0 buf w = (int L, pkt @ drop L buf, ps\<lparr>s_nBitErrors := e\<rparr>, w') \<and>
     answers w' = later \<and> (junk = [] \<longrightarrow> e = s_nBitErrors ps)"
proof (induction cs arbitrary: junk buf w ps)
  case Nil
  then show ?case by auto
next
  case (Cons c cs)
  have c: "c \<noteq> []" "length c \<le> L" "length c \<le> length buf" using Cons.prems by auto
  let ?e = "\<lambda>j. if j = [] then s_nBitErrors ps else s_nBitErrors ps + 1"
  obtain us where us: "c = junk @ us \<and> us @ concat cs = pkt \<or> c @ us = junk \<and> concat cs = us @ pkt"
    using Cons.prems(3) by (auto simp: append_eq_append_conv2)
  show ?case
  proof (cases "length c \<le> length junk")
    case True
    then have j: "junk = c @ us" "concat cs = us @ pkt"
      using us by auto
    have tw: "takeWhile (\<lambda>b. \<not> high_bit b) c = c" "dropWhile (\<lambda>b. \<not> high_bit b) c = []"
      using takeWhile_junk [of c "[]"] Cons.prems(4) j(1) by auto
    have rs: "resync buf 0 c (s_nBitErrors ps) = (c @ drop (length c) buf, ?e c, 0)"
      using resync_start [OF c(3), of "s_nBitErrors ps"] unfolding tw by (simp add: prod_eq_iff)
    have "0 < L" "length c \<le> L - 0" using Cons.prems c by auto
    from read_packet_chunk [OF Cons.prems(1) this(1) c(1) this(2) rs] obtain w1 where
      w1: "answers w1 = stream_script cs @ later"
      "read_packet ps L 0 buf w = read_packet (ps\<lparr>s_nBitErrors := ?e c\<rparr>) L 0 (c @ drop (length c) buf) w1"
      by auto
    have "\<exists>w' e. read_packet (ps\<lparr>s_nBitErrors := ?e c\<rparr>) L 0 (c @ drop (length c) buf) w1 =
        (int L, pkt @ drop L (c @ drop (length c) buf), (ps\<lparr>s_nBitErrors := ?e c\<rparr>)\<lparr>s_nBitErrors := e\<rparr>, w') \<and>
        answers w' = later \<and> (us = [] \<longrightarrow> e = s_nBitErrors (ps\<lparr>s_nBitErrors := ?e c\<rparr>))"
      using Cons.prems c j w1(1) by (intro Cons.IH) auto
    then obtain w' e where "read_packet ps L 0 buf w = (int L, pkt @ drop L buf, ps\<lparr>s_nBitErrors := e\<rparr>, w')"
        "answers w' = later"
      using w1(2) c by auto
    then show ?thesis using j c by blast
  next
    case False
    define got where "got = us"
    have g: "c = junk @ got" "got @ concat cs = pkt" "got \<noteq> []"
      using us False by (auto simp: got_def)
    have hb: "high_bit (hd got)" using Cons.prems(7) g(2,3) by (metis hd_append2)
    have tw: "takeWhile (\<lambda>b. \<not> high_bit b) c = junk" "dropWhile (\<lambda>b. \<not> high_bit b) c = got"
      using takeWhile_junk [of junk got] Cons.prems(4) hb g(1) by auto
    let ?rest = "drop (length got) (c @ drop (length c) buf)"
    have rs: "resync buf 0 c (s_nBitErrors ps) = (got @ ?rest, ?e junk, length got)"
      using resync_start [OF c(3), of "s_nBitErrors ps"] unfolding tw by (simp add: prod_eq_iff)
    have "0 < L" "length c \<le> L - 0" using Cons.prems c by auto
    from read_packet_chunk [OF Cons.prems(1) this(1) c(1) this(2) rs] obtain w1 where
      w1: "answers w1 = stream_script cs @ later"
      "read_packet ps L 0 buf w = read_packet (ps\<lparr>s_nBitErrors := ?e junk\<rparr>) L (length got) (got @ ?rest) w1"
      by auto
    have lg: "length (got @ concat cs) = L" using g(2) Cons.prems(5) by simp
    have "\<exists>w'. read_packet (ps\<lparr>s_nBitErrors := ?e junk\<rparr>) L (length got) (got @ ?rest) w1 =
        (int L, got @ concat cs @ drop (length (concat cs)) ?rest, ps\<lparr>s_nBitErrors := ?e junk\<rparr>, w') \<and> answers w' = later"
      using Cons.prems(2,8) c g hb w1(1) lg by (intro read_packet_synced) auto
    moreover have "got @ concat cs @ drop (length (concat cs)) ?rest = pkt @ drop L buf"
    proof -
      have "drop (length (concat cs)) ?rest = drop L (c @ drop (length c) buf)"
        using lg unfolding drop_drop by (simp only: length_append add.commute)
      also have "\<dots> = drop L buf" using c(2) by simp
      finally show ?thesis using g(2) by (metis append_assoc)
    qed
    ultimately show ?thesis using w1(2) by force
  qed
qed

end
