(* ===== verification/Serial_Open.thy ===== *)
theory Serial_Open
  imports Serial_Read
begin

text \<open>
  Opening a tablet: identifying it from its reply to \<open>~#\<close>, initialising it from its reply to
  \<open>~C\<close>, configuring the port. A cooperative tablet is described by what it replies; the lemmas
  run \<open>SerialReset\<close> on it.
\<close>

section \<open>The identification string\<close>

lemma of_char_u8_inject [simp]: "(of_char c :: u8) = of_char d \<longleftrightarrow> c = d"
proof
  assume "(of_char c :: u8) = of_char d"
  then have "word_of_nat (of_char c) = (word_of_nat (of_char d) :: u8)" by (simp only: of_nat_of_char)
  then have "(of_char c :: nat) mod 256 = of_char d mod 256" by (simp add: word_of_nat_eq_iff take_bit_eq_mod)
  then show "c = d" by simp
qed simp

lemma asc_inject [simp]: "asc a = asc b \<longleftrightarrow> a = b"
  by (auto simp: asc_def inj_on_def dest!: map_injective [rotated])

text \<open>A reply that begins with \<open>a\<close>, compared with the identifier \<open>b\<close>.\<close>

lemma strncmp_ident_short:
  assumes "length b \<le> length a"
  shows "strncmp_eq (asc a @ rest) (asc b) (length b) \<longleftrightarrow> take (length b) a = b"
proof -
  have "take (length b) (asc a @ rest) = asc (take (length b) a)"
    using assms by (simp add: asc_def take_map)
  moreover have "take (length b) (asc b) = asc b" by simp
  ultimately show ?thesis unfolding strncmp_eq_def by (simp only: asc_inject)
qed

lemma strncmp_ident_long:
  assumes "length a \<le> length b" and "take (length a) b \<noteq> a"
  shows "\<not> strncmp_eq (asc a @ rest) (asc b) (length b)"
proof
  assume "strncmp_eq (asc a @ rest) (asc b) (length b)"
  then have "take (length b) (asc a @ rest) = asc b" by (simp add: strncmp_eq_def)
  then have "take (length a) (take (length b) (asc a @ rest)) = take (length a) (asc b)" by simp
  then have "asc a = asc (take (length a) b)" using assms(1) by (simp add: asc_def take_map min_def)
  then show False using assms(2) by simp
qed

text \<open>Every tablet of the tables, with its device.\<close>

definition serial_models :: "(SERIALDEVICE \<times> SERIALSUBTYPE) list" where
  "serial_models =
     concat (map (\<lambda>d. map (Pair d) (case dv_pSubTypes d of None \<Rightarrow> [] | Some subs \<Rightarrow> subs))
       (vn_pDevices xWacomVendor))"

text \<open>The subtype a tablet is taken for: \<open>PL-600\<close> comes before \<open>PL-600SX\<close> in the table.\<close>

definition taken_for :: "SERIALSUBTYPE \<Rightarrow> SERIALSUBTYPE" where
  "taken_for s = (if st_pszIdent s = ''PL-600SX'' then xCintiq ! 5 else s)"

text \<open>
  The search for a reply that begins with \<open>a\<close>, decided from \<open>a\<close> alone: \<open>None\<close> when what comes
  after \<open>a\<close> matters.
\<close>

fun decide_ident :: "string \<Rightarrow> (SERIALDEVICE \<times> SERIALSUBTYPE) list \<Rightarrow> (SERIALDEVICE \<times> SERIALSUBTYPE) option" where
  "decide_ident a [] = None"
| "decide_ident a ((d, s) # r) =
     (let b = st_pszIdent s
      in if length b \<le> length a then (if take (length b) a = b then Some (d, s) else decide_ident a r)
         else if take (length a) b = a then None
         else decide_ident a r)"

lemma decide_ident_find:
  "decide_ident a ms = Some m \<Longrightarrow>
   find (\<lambda>(d, s). strncmp_eq (asc a @ rest) (asc (st_pszIdent s)) (length (st_pszIdent s))) ms = Some m"
  by (induction ms) (auto simp: Let_def strncmp_ident_short strncmp_ident_long split: if_splits)

lemma find_map_Pair:
  "find (\<lambda>(d, s). P s) (map (Pair d) xs) = map_option (Pair d) (find P xs)"
  by (induction xs) auto

lemma find_append:
  "find P (xs @ ys) = (case find P xs of Some x \<Rightarrow> Some x | None \<Rightarrow> find P ys)"
  by (induction xs) auto

lemma find_ident_flat:
  "find_ident resp ds =
     find (\<lambda>(d, s). strncmp_eq resp (asc (st_pszIdent s)) (length (st_pszIdent s)))
       (concat (map (\<lambda>d. map (Pair d) (case dv_pSubTypes d of None \<Rightarrow> [] | Some subs \<Rightarrow> subs)) ds))"
  by (induction ds) (auto simp: find_append find_map_Pair split: option.splits)

lemma decide_ident_all:
  "list_all (\<lambda>(d, s). decide_ident (st_pszIdent s) serial_models = Some (d, taken_for s)) serial_models"
  by code_simp

lemma find_ident_all:
  assumes "(d, s) \<in> set serial_models"
  shows "find_ident (asc (st_pszIdent s) @ rest) (vn_pDevices xWacomVendor) = Some (d, taken_for s)"
  using decide_ident_all assms
  by (auto simp: list_all_iff find_ident_flat simp flip: serial_models_def intro!: decide_ident_find)

section \<open>The version number\<close>

text \<open>The version as the tablet prints it: the release number may be missing.\<close>

definition version_text :: "nat \<Rightarrow> nat \<Rightarrow> nat option \<Rightarrow> u8 list" where
  "version_text major minor release =
     dec major @ 0x2E # dec minor @ (case release of None \<Rightarrow> [] | Some r \<Rightarrow> 0x2D # dec r)"

definition with_version :: "nat \<Rightarrow> nat \<Rightarrow> nat option \<Rightarrow> SERIALTABLET \<Rightarrow> SERIALTABLET" where
  "with_version major minor release ps =
     ps\<lparr>s_nVerMajor := of_nat major, s_nVerMinor := of_nat minor,
        s_nVerRelease := (case release of None \<Rightarrow> 0 | Some r \<Rightarrow> of_nat r)\<rparr>"

lemma after_last_V: "0x56 \<notin> set v \<Longrightarrow> after_last_V (x @ 0x56 # v) = v"
proof -
  assume "0x56 \<notin> set v"
  then have "takeWhile (\<lambda>b. b \<noteq> 0x56) (rev v @ 0x56 # rev x) = rev v"
    by (subst takeWhile_append2) auto
  then show ?thesis by (simp add: after_last_V_def)
qed

lemma not_digit: "\<not> isdigit 0x2E" "\<not> isdigit 0x2D" "\<not> isdigit 0x2C"
  by (simp_all add: isdigit_def)

lemma dec_bytes: "b \<in> set (dec n) \<Longrightarrow> 48 \<le> b \<and> b \<le> 57"
  using dec_digits [of n] by (auto simp: list_all_iff isdigit_def)

lemma dec_not_in: "b < 48 \<or> 57 < b \<Longrightarrow> b \<notin> set (dec n)"
  by (auto dest!: dec_bytes)

lemma version_text_not_in:
  "b < 0x2D \<or> 57 < b \<Longrightarrow> b \<notin> set (version_text major minor release)"
proof -
  assume b: "b < 0x2D \<or> 57 < b"
  then have "b < 48 \<or> 57 < b" "b \<noteq> 0x2E" "b \<noteq> 0x2D"
    by (auto simp: word_less_nat_alt)
  then show ?thesis by (auto simp: version_text_def dec_not_in split: option.splits)
qed

lemma sscanf_dec:
  "n < 2 ^ 31 \<Longrightarrow> r = [] \<or> \<not> isdigit (hd r) \<Longrightarrow>
   sscanf (Fd # fs) (dec n @ r) = map_option ((#) (of_nat n)) (sscanf fs r)"
  by (simp add: scan_d_dec)

lemma scan_version_text:
  assumes "major < 2 ^ 31" and "minor < 2 ^ 31" and "pred_option (\<lambda>r. r < 2 ^ 31) release"
  shows "scan_version ps (version_text major minor release) w = Some (0, with_version major minor release ps, w)"
proof (cases release)
  case None
  have m: "sscanf (Fd # fs) (dec minor) = map_option ((#) (of_nat minor)) (sscanf fs [])" for fs
    using sscanf_dec [OF assms(2), of "[]" fs] by simp
  show ?thesis
    using assms(1) None
    by (simp add: scan_version_def version_text_def with_version_def sscanf_dec not_digit m
        del: sscanf.simps(4))
next
  case (Some r)
  have m: "sscanf [Fd] (dec r) = Some [of_nat r]"
    using sscanf_dec [of r "[]" "[]"] assms(3) Some by simp
  show ?thesis
    using assms Some
    by (simp add: scan_version_def version_text_def with_version_def sscanf_dec not_digit m
        del: sscanf.simps(4))
qed

section \<open>A cooperative tablet\<close>

text \<open>
  What a protocol IV or V tablet replies with: the identifier of its model, text up to the last
  \<open>V\<close>, the version, and the two dimensions; and the bytes that may come before each reply.
\<close>

record device =
  dev_entry :: "SERIALDEVICE \<times> SERIALSUBTYPE"
  dev_text :: "u8 list"
  dev_major :: nat
  dev_minor :: nat
  dev_release :: "nat option"
  dev_x :: nat
  dev_y :: nat
  dev_noise :: "u8 list"

definition ident_reply :: "device \<Rightarrow> u8 list" where
  "ident_reply v = asc (st_pszIdent (snd (dev_entry v))) @ dev_text v @ 0x56 #
     version_text (dev_major v) (dev_minor v) (dev_release v)"

definition dims_reply :: "device \<Rightarrow> u8 list" where
  "dims_reply v = dec (dev_x v) @ 0x2C # dec (dev_y v)"

definition cooperative :: "device \<Rightarrow> bool" where
  "cooperative v \<longleftrightarrow>
     dev_entry v \<in> set serial_models \<and> 0x7E \<notin> set (dev_noise v) \<and>
     0 \<notin> set (dev_text v) \<and> 13 \<notin> set (dev_text v) \<and>
     dev_major v < 2 ^ 31 \<and> dev_minor v < 2 ^ 31 \<and> pred_option (\<lambda>r. r < 2 ^ 31) (dev_release v) \<and>
     dev_x v < 2 ^ 31 \<and> dev_y v < 2 ^ 31 \<and>
     length (ident_reply v) < 64 \<and> length (dims_reply v) < 32"

definition req_id :: "u8 list" where "req_id = [0x7E, 0x23, 13]"
definition req_size :: "u8 list" where "req_size = [0x7E, 0x43, 13]"

lemma asc_no_nul: "list_all (\<lambda>(d, s). 0 \<notin> set (asc (st_pszIdent s)) \<and> 13 \<notin> set (asc (st_pszIdent s))) serial_models"
  by code_simp

lemma ident_reply_clean:
  assumes "cooperative v"
  shows "0 \<notin> set (ident_reply v)" "13 \<notin> set (ident_reply v)"
  using assms asc_no_nul version_text_not_in [of 0] version_text_not_in [of 13]
  by (auto simp: cooperative_def ident_reply_def list_all_iff)

text \<open>The tablet after identification.\<close>

definition identified :: "device \<Rightarrow> SERIALTABLET \<Rightarrow> SERIALTABLET" where
  "identified v ps =
     (let (d, s) = dev_entry v
      in with_version (dev_major v) (dev_minor v) (dev_release v)
           (ps\<lparr>s_pVendor := Some xWacomVendor, s_pDevice := Some d, s_pSubType := Some (taken_for s),
               s_state := (s_state ps)\<lparr>uValid := dv_uCaps d\<rparr>,
               s_uPacketLength := dv_uPacketLength d, s_pfnInit := Some SerialInitWacom_fn\<rparr>))"

lemma models_init: "list_all (\<lambda>(d, s). st_pfnInit (taken_for s) = Some SerialInitWacom_fn) serial_models"
  by code_simp

lemma SerialIdentWacom_served:
  assumes "cooperative v" and "answers w = reply_script (dev_noise v) req_id (ident_reply v) @ later"
  shows "\<exists>w'. SerialIdentWacom ps w = Some (0, identified v ps, w') \<and> served ps w req_id later w'"
proof -
  obtain d s where ds: "dev_entry v = (d, s)" by (cases "dev_entry v")
  obtain buf w1 where r: "SerialSendRequest ps (''~#'' @ [CR]) (replicate 64 0) w = Inr (buf, w1)"
    "c_str buf = ident_reply v" "served ps w req_id later w1"
    using SerialSendRequest_served [of w "dev_noise v" req_id "ident_reply v" later "''~#'' @ [CR]" "0x7E" "[0x23]"
        "replicate 64 0" ps] assms ident_reply_clean [OF assms(1)]
    by (auto simp: cooperative_def req_id_def asc_CR)
  have m: "(d, s) \<in> set serial_models" using assms(1) ds by (simp add: cooperative_def)
  have f: "find_ident (ident_reply v) (vn_pDevices xWacomVendor) = Some (d, taken_for s)"
    using find_ident_all [OF m] ds by (simp add: ident_reply_def)
  have i: "st_pfnInit (taken_for s) = Some SerialInitWacom_fn"
    using models_init m by (auto simp: list_all_iff)
  have "after_last_V (ident_reply v) = version_text (dev_major v) (dev_minor v) (dev_release v)"
    unfolding ident_reply_def append_assoc [symmetric]
    by (rule after_last_V) (simp add: version_text_not_in)
  then show ?thesis
    using r f i ds assms(1)
    by (simp add: SerialIdentWacom_def scan_version_text identified_def cooperative_def)
qed

section \<open>Initialisation\<close>

text \<open>The bytes \<open>SerialInitWacom\<close> sends after the size request, and the tablet it makes.\<close>

definition setup_bytes :: "u32 \<Rightarrow> u8 list list" where
  "setup_bytes dev =
     (if dev = WACOMDEVICE_PENPARTNER then [asc (''PH1'' @ [CR])]
      else if dev = WACOMDEVICE_INTUOS \<or> dev = WACOMDEVICE_INTUOS2
      then [asc (''MT1'' @ [CR] @ ''ID1'' @ [CR] @ ''IT0'' @ [CR])] else [])"

definition mode_bytes :: "device \<Rightarrow> u8 list list" where
  "mode_bytes v =
     (if dv_nProtocol (fst (dev_entry v)) = PROTOCOL_4 \<and> dev_major v = 1 \<and> 4 \<le> dev_minor v
      then [asc (''FM1'' @ [CR])] else [])"

definition with_dims :: "device \<Rightarrow> SERIALTABLET \<Rightarrow> SERIALTABLET" where
  "with_dims v ps = set_nMax WACOMFIELD_POSITION_Y (of_nat (dev_y v)) (set_nMax WACOMFIELD_POSITION_X (of_nat (dev_x v)) ps)"

text \<open>
  Protocol V has one parser; protocol IV has one for each ROM version from 1.x, and none for
  another major version.
\<close>

definition initialised :: "device \<Rightarrow> SERIALTABLET \<Rightarrow> SERIALTABLET" where
  "initialised v ps =
     (if dv_nProtocol (fst (dev_entry v)) = PROTOCOL_5 then init_protocol_5 (with_dims v ps)
      else if dev_major v \<noteq> 1 then with_dims v ps
      else if 4 \<le> dev_minor v then
        set_tilt_range (set_nMax WACOMFIELD_PRESSURE 255
          (with_dims v ps\<lparr>s_pfnParse := Some SerialParseWacomIV_1_4_fn, s_uPacketLength := 9\<rparr>))
      else if dev_minor v = 3 then
        set_nMax WACOMFIELD_PRESSURE 255 (with_dims v ps\<lparr>s_pfnParse := Some SerialParseWacomIV_1_3_fn\<rparr>)
      else set_nMax WACOMFIELD_PRESSURE (if dev_minor v = 2 then 255 else 120)
             (with_dims v ps\<lparr>s_pfnParse := Some SerialParseWacomIV_1_2_fn\<rparr>))"

lemma models_protocol:
  "list_all (\<lambda>(d, s). dv_nProtocol d = PROTOCOL_4 \<or> dv_nProtocol d = PROTOCOL_5) serial_models"
  by code_simp

text \<open>A small natural number as a C integer.\<close>

lemma of_nat_s32:
  assumes "n < 2 ^ 31"
  shows "sint (of_nat n :: s32) = int n" "(of_nat n :: s32) = of_nat k \<longleftrightarrow> n mod 2 ^ 32 = k mod 2 ^ 32"
  using sint_of_int_s32 [of "int n"] assms by (simp_all add: word_of_nat_eq_iff take_bit_eq_mod)

lemma of_nat_s32_small:
  assumes "n < 2 ^ 31"
  shows "(of_nat n :: s32) = 1 \<longleftrightarrow> n = 1" "(of_nat n :: s32) = 2 \<longleftrightarrow> n = 2" "(of_nat n :: s32) = 3 \<longleftrightarrow> n = 3"
  using of_nat_s32(2) [OF assms, of 1] of_nat_s32(2) [OF assms, of 2] of_nat_s32(2) [OF assms, of 3] assms
  by auto

lemma dims_reply_clean: "0 \<notin> set (dims_reply v)" "13 \<notin> set (dims_reply v)"
  by (auto simp: dims_reply_def dec_not_in)

lemma dims_scan:
  assumes "cooperative v"
  shows "sscanf [Fd, Fch 0x2C, Fd] (dims_reply v) = Some [of_nat (dev_x v), of_nat (dev_y v)]"
proof -
  have "sscanf [Fd] (dec (dev_y v)) = Some [of_nat (dev_y v)]"
    using sscanf_dec [of "dev_y v" "[]" "[]"] assms by (simp add: cooperative_def)
  then show ?thesis
    using assms by (simp add: dims_reply_def sscanf_dec not_digit cooperative_def del: sscanf.simps(4))
qed

text \<open>Writes of which the result may be dropped.\<close>

lemma SerialSend_list_served:
  assumes "answers w = map (\<lambda>_. takes_all) ms @ later" and "ms = [] \<or> ms = [asc m]"
    and "m \<noteq> []" and "length m \<le> 64"
  shows "\<exists>w'. (if ms = [] then (0, w) else SerialSend ps m w) = (0, w') \<and> served ps w (concat ms) later w'"
  using assms SerialSend_served [of w later m ps] by (auto simp: served_def)

lemma with_dims_simps [simp]:
  "s_nVerMajor (with_dims v ps) = s_nVerMajor ps" "s_nVerMinor (with_dims v ps) = s_nVerMinor ps"
  "s_pDevice (with_dims v ps) = s_pDevice ps" "s_fd (with_dims v ps) = s_fd ps"
  by (simp_all add: with_dims_def)

lemma init_protocol_4_served:
  assumes "dev_major v < 2 ^ 31" and "dev_minor v < 2 ^ 31"
    and "s_nVerMajor ps = of_nat (dev_major v)" and "s_nVerMinor ps = of_nat (dev_minor v)"
    and "dv_nProtocol (fst (dev_entry v)) = PROTOCOL_4"
    and "answers w = map (\<lambda>_. takes_all) (mode_bytes v) @ later"
  shows "\<exists>w'. init_protocol_4 (with_dims v ps) w = (0, initialised v ps, w') \<and>
    served ps w (concat (mode_bytes v)) later w'"
proof -
  note v = of_nat_s32(1) [OF assms(2)] of_nat_s32_small [OF assms(1)] of_nat_s32_small [OF assms(2)]
  show ?thesis
  proof (cases "dev_major v = 1 \<and> 4 \<le> dev_minor v")
    case True
    have a: "answers w = takes_all # later" using assms(5,6) True by (simp add: mode_bytes_def)
    from SerialSend_served [OF a, of "''FM1'' @ [CR]" "with_dims v ps"]
    obtain w' where "SerialSend (with_dims v ps) (''FM1'' @ [CR]) w = (0, w')"
      "served (with_dims v ps) w (asc (''FM1'' @ [CR])) later w'" by auto
    then show ?thesis
      using assms(3-5) True v(1,2)
      by (simp add: init_protocol_4_def initialised_def mode_bytes_def served_fd [of "with_dims v ps" ps])
  next
    case False
    have b: "mode_bytes v = []" "served ps w [] later w"
      using assms(6) False by (auto simp: mode_bytes_def served_def)
    consider "dev_major v \<noteq> 1" | "dev_major v = 1" "dev_minor v = 3" | "dev_major v = 1" "dev_minor v = 2"
      | "dev_major v = 1" "dev_minor v < 2"
      using False by linarith
    then have "init_protocol_4 (with_dims v ps) w = (0, initialised v ps, w)"
      by cases (simp_all add: init_protocol_4_def initialised_def assms(3-5) v)
    then show ?thesis using b by simp
  qed
qed

text \<open>The whole of what initialisation sends, and the script that serves it.\<close>

definition init_bytes :: "device \<Rightarrow> u8 list list" where
  "init_bytes v = setup_bytes (dv_uDevice (fst (dev_entry v))) @ mode_bytes v"

definition init_script :: "device \<Rightarrow> answer list" where
  "init_script v = reply_script (dev_noise v) req_size (dims_reply v) @ map (\<lambda>_. takes_all) (init_bytes v)"

text \<open>The writes between the size request and the choice of the parser, as one step.\<close>

definition setup_world :: "SERIALDEVICE \<Rightarrow> SERIALTABLET \<Rightarrow> world \<Rightarrow> world" where
  "setup_world dev ps w =
     (if dv_uDevice dev = WACOMDEVICE_PENPARTNER then snd (SerialSend ps (''PH1'' @ [CR]) w)
      else if dv_uDevice dev = WACOMDEVICE_INTUOS \<or> dv_uDevice dev = WACOMDEVICE_INTUOS2
      then snd (SerialSend ps (''MT1'' @ [CR] @ ''ID1'' @ [CR] @ ''IT0'' @ [CR]) w) else w)"

lemma setup_world_served:
  assumes "answers w = map (\<lambda>_. takes_all) (setup_bytes (dv_uDevice dev)) @ later"
  shows "served ps w (concat (setup_bytes (dv_uDevice dev))) later (setup_world dev ps w)"
proof -
  have "served ps w (asc m) later (snd (SerialSend ps m w))"
    if "answers w = takes_all # later" "m \<noteq> []" "length m \<le> 64" for m
    using SerialSend_served [OF that, of ps] by auto
  then show ?thesis
    using assms by (auto simp: setup_bytes_def setup_world_def served_def simp del: asc_simps)
qed

lemma SerialInitWacom_steps:
  assumes "SerialSendRequest ps (''~C'' @ [CR]) (replicate 32 0) w = Inr (buf, w1)"
    and "sscanf [Fd, Fch 0x2C, Fd] (c_str buf) = Some [x, y]" and "s_pDevice ps = Some dev"
  shows "SerialInitWacom ps w =
     (let ps1 = assign_dims [x, y] ps; w2 = setup_world dev ps1 w1
      in Some (if dv_nProtocol dev = PROTOCOL_4 then init_protocol_4 ps1 w2
               else if dv_nProtocol dev = PROTOCOL_5 then (0, init_protocol_5 ps1, w2)
               else (1, ps1, set_errno EINVAL w2)))"
  unfolding SerialInitWacom_def assms(1) setup_world_def
  using assms(2,3) by (simp add: Let_def del: sscanf.simps)

lemma SerialInitWacom_served:
  assumes "cooperative v" and "answers w = init_script v @ later"
    and "s_pDevice ps = Some (fst (dev_entry v))"
    and "s_nVerMajor ps = of_nat (dev_major v)" and "s_nVerMinor ps = of_nat (dev_minor v)"
  shows "\<exists>w'. SerialInitWacom ps w = Some (0, initialised v ps, w') \<and>
    served ps w (req_size @ concat (init_bytes v)) later w'"
proof -
  let ?d = "fst (dev_entry v)"
  let ?ps1 = "with_dims v ps"
  let ?l2 = "map (\<lambda>_. takes_all) (mode_bytes v) @ later"
  let ?l1 = "map (\<lambda>_. takes_all) (setup_bytes (dv_uDevice ?d)) @ ?l2"
  have "answers w = reply_script (dev_noise v) req_size (dims_reply v) @ ?l1"
    using assms(2) by (simp add: init_script_def init_bytes_def)
  then obtain buf w1 where 1: "SerialSendRequest ps (''~C'' @ [CR]) (replicate 32 0) w = Inr (buf, w1)"
    "c_str buf = dims_reply v" "served ps w req_size ?l1 w1"
    using SerialSendRequest_served [of w "dev_noise v" req_size "dims_reply v" ?l1 "''~C'' @ [CR]" "0x7E" "[0x43]"
        "replicate 32 0" ps] assms(1) dims_reply_clean
    by (auto simp: cooperative_def req_size_def asc_CR)
  let ?w2 = "setup_world ?d ?ps1 w1"
  have 2: "served ps w1 (concat (setup_bytes (dv_uDevice ?d))) ?l2 ?w2"
    using setup_world_served [of w1 ?d ?l2 ?ps1] 1(3) served_fd [of ?ps1 ps] by (simp add: served_def)
  have p: "dv_nProtocol ?d = PROTOCOL_4 \<or> dv_nProtocol ?d = PROTOCOL_5"
    using models_protocol assms(1) by (cases "dev_entry v") (auto simp: list_all_iff cooperative_def)
  have init: "SerialInitWacom ps w =
     Some (if dv_nProtocol ?d = PROTOCOL_4 then init_protocol_4 ?ps1 ?w2 else (0, init_protocol_5 ?ps1, ?w2))"
    using SerialInitWacom_steps [OF 1(1) _ assms(3)] dims_scan [OF assms(1)] 1(2) p
    by (auto simp: Let_def with_dims_def)
  from p show ?thesis
  proof
    assume p4: "dv_nProtocol ?d = PROTOCOL_4"
    have "answers ?w2 = ?l2" using 2 by (simp add: served_def)
    with init_protocol_4_served [OF _ _ assms(4,5) p4 this] assms(1) obtain w3 where
      3: "init_protocol_4 ?ps1 ?w2 = (0, initialised v ps, w3)" "served ps ?w2 (concat (mode_bytes v)) later w3"
      by (auto simp: cooperative_def)
    then show ?thesis
      using init p4 1(3) 2 by (auto simp: init_bytes_def served_def)
  next
    assume p5: "dv_nProtocol ?d = PROTOCOL_5"
    then show ?thesis
      using init 1(3) 2 by (auto simp: init_bytes_def served_def mode_bytes_def initialised_def)
  qed
qed

section \<open>Configuring the port\<close>

definition reset_script :: "answer list" where "reset_script = [takes_all, takes_all]"

definition baud_script :: "nat \<Rightarrow> answer list" where
  "baud_script n = concat (replicate n (ok # reset_script))"

definition tty_script :: "nat \<Rightarrow> answer list" where
  "tty_script n = [Gives 1 [], ok, ok] @ baud_script n @ [takes_all, ok]"

lemma sys_tcsetattr_served:
  "answers w = ok # later \<Longrightarrow> \<exists>w'. sys_tcsetattr fd t w = (0, w') \<and> served ps w [] later w' \<and> tios w' = t"
  by (simp add: sys_defs served_def sent_def)

lemma SerialResetAtBaud_served:
  assumes "answers w = ok # reset_script @ later"
  shows "\<exists>w'. SerialResetAtBaud ps t b w = (0, t\<lparr>c_ispeed := baud_constant b, c_ospeed := baud_constant b\<rparr>, w') \<and>
    served ps w reset_bytes later w'"
proof -
  let ?t = "t\<lparr>c_ispeed := baud_constant b, c_ospeed := baud_constant b\<rparr>"
  obtain w1 where 1: "sys_tcsetattr (s_fd ps) ?t w = (0, w1)" "served ps w [] (reset_script @ later) w1"
    using sys_tcsetattr_served [OF assms] by blast
  then have "answers w1 = takes_all # takes_all # later" by (simp add: served_def reset_script_def)
  from SerialSendReset_served [OF this, of ps] 1 show ?thesis
    by (auto simp: SerialResetAtBaud_def served_def Let_def)
qed

text \<open>The baud rates tried are those whose condition holds.\<close>

definition bauds_tried :: "(bool \<times> s32) list \<Rightarrow> s32 list" where
  "bauds_tried bs = map snd (filter fst bs)"

lemma reset_at_bauds_served:
  "answers w = baud_script (length (bauds_tried bs)) @ later \<Longrightarrow>
   \<exists>w'. reset_at_bauds ps bs t w = (0, w') \<and>
     served ps w (concat (replicate (length (bauds_tried bs)) reset_bytes)) later w'"
proof (induction bs arbitrary: t w)
  case Nil
  then show ?case by (simp add: bauds_tried_def baud_script_def served_def)
next
  case (Cons cb bs)
  obtain c b where cb: "cb = (c, b)" by (cases cb)
  show ?case
  proof (cases c)
    case False
    then show ?thesis using Cons cb by (simp add: bauds_tried_def)
  next
    case True
    let ?l = "baud_script (length (bauds_tried bs)) @ later"
    have "answers w = ok # reset_script @ ?l"
      using Cons.prems True cb by (simp add: bauds_tried_def baud_script_def)
    from SerialResetAtBaud_served [OF this, of ps t b] obtain w1 where
      1: "SerialResetAtBaud ps t b w = (0, t\<lparr>c_ispeed := baud_constant b, c_ospeed := baud_constant b\<rparr>, w1)"
      "served ps w reset_bytes ?l w1" by blast
    then have "answers w1 = ?l" by (simp add: served_def)
    from Cons.IH [OF this] 1 True cb show ?thesis
      by (auto simp: bauds_tried_def served_def)
  qed
qed

text \<open>The number of rates for a device of minimum rate 9600, and of 19200.\<close>

definition n_bauds :: "SERIALTABLET \<Rightarrow> nat" where
  "n_bauds ps = (case s_pDevice ps of None \<Rightarrow> 3 | Some d \<Rightarrow> if dv_nMinBaudRate d = 19200 then 2 else 3)"

definition known_baud :: "SERIALTABLET \<Rightarrow> bool" where
  "known_baud ps \<longleftrightarrow> (case s_pDevice ps of None \<Rightarrow> True | Some d \<Rightarrow> dv_nMinBaudRate d \<in> {9600, 19200})"

definition stop_bytes :: "u8 list" where "stop_bytes = [13, 0x53, 0x50, 13]"

definition config_bytes :: "nat \<Rightarrow> u8 list" where
  "config_bytes n = concat (replicate n reset_bytes) @ stop_bytes"

lemma SerialConfigTTY_served:
  assumes "answers w = tty_script (n_bauds ps) @ later" and "known_baud ps"
  shows "\<exists>w'. SerialConfigTTY ps w = (0, w') \<and> served ps w (config_bytes (n_bauds ps)) later w'"
proof -
  let ?bs = "baud_plan ps"
  have n: "length (bauds_tried ?bs) = n_bauds ps"
    using assms(2) by (auto simp: baud_plan_def bauds_tried_def n_bauds_def known_baud_def split: option.splits)
  let ?l1 = "takes_all # ok # later"
  obtain w1 where 1: "sys_isatty (s_fd ps) w = (True, w1)" "served ps w [] ([ok, ok] @ baud_script (n_bauds ps) @ ?l1) w1"
    using assms(1) by (simp add: sys_defs tty_script_def served_def sent_def)
  obtain t w2 where 2: "sys_tcgetattr (s_fd ps) w1 = (0, t, w2)" "served ps w1 [] ([ok] @ baud_script (n_bauds ps) @ ?l1) w2"
    using 1(2) by (cases "sys_tcgetattr (s_fd ps) w1") (auto simp: sys_defs served_def sent_def)
  obtain w3 where 3: "sys_tcsetattr (s_fd ps) (raw_port t) w2 = (0, w3)" "served ps w2 [] (baud_script (n_bauds ps) @ ?l1) w3"
    using 2(2) sys_tcsetattr_served [of w2 "baud_script (n_bauds ps) @ ?l1" "s_fd ps" "raw_port t" ps]
    by (auto simp: served_def)
  obtain w4 where 4: "reset_at_bauds ps ?bs (raw_port t) w3 = (0, w4)"
    "served ps w3 (concat (replicate (n_bauds ps) reset_bytes)) ?l1 w4"
    using 3(2) reset_at_bauds_served [of w3 ?bs ?l1 ps "raw_port t"] n by (auto simp: served_def)
  then have "answers w4 = ?l1" by (simp add: served_def)
  from SerialSendStop_served [OF this] obtain w5 where
    5: "SerialSendStop ps w4 = (0, w5)" "served ps w4 stop_bytes (ok # later) w5"
    by (auto simp: stop_bytes_def)
  obtain w6 where 6: "WacomFlush ps w5 = (0, w6)" "served ps w5 [] later w6"
    using 5(2) by (auto simp: WacomFlush_def sys_defs served_def sent_def)
  have "SerialConfigTTY ps w = (0, w6)"
    by (simp add: SerialConfigTTY_def 1(1) 2(1) 3(1) 4(1) 5(1) 6(1))
  then show ?thesis
    using 1(2) 2(2) 3(2) 4(2) 5(2) 6(2) by (simp add: served_def config_bytes_def)
qed

section \<open>Resetting and opening\<close>

definition start_bytes :: "u8 list" where "start_bytes = [0x53, 0x54, 13]"

definition open_script :: "device \<Rightarrow> answer list" where
  "open_script v = tty_script 3 @ reply_script (dev_noise v) req_id (ident_reply v) @ init_script v @ [takes_all]"

definition open_bytes :: "device \<Rightarrow> u8 list" where
  "open_bytes v = config_bytes 3 @ req_id @ req_size @ concat (init_bytes v) @ start_bytes"

text \<open>What the requested model resolves to, when it is nothing or a device of the vendor \<open>wacom\<close>.\<close>

definition resolves :: "WACOMMODEL option \<Rightarrow> found \<Rightarrow> bool" where
  "resolves pModel fnd \<longleftrightarrow>
     (case pModel of None \<Rightarrow> fnd = (None, None, None) | Some m \<Rightarrow> SerialFindModel (Some m) = Some (rc_ok, fnd)) \<and>
     (case fnd of (v, d, s) \<Rightarrow> pred_option (\<lambda>d. d \<in> set xWacomDevices) d)"

text \<open>The tablet before identification, and the function that identifies it.\<close>

definition before_ident :: "found \<Rightarrow> SERIALTABLET \<Rightarrow> SERIALTABLET" where
  "before_ident fnd ps =
     (case fnd of (v, d, s) \<Rightarrow>
        ps\<lparr>s_pVendor := v, s_pDevice := d, s_pSubType := s,
           s_pfnIdent := (case d of None \<Rightarrow> Some SerialIdentDefault_fn | Some _ \<Rightarrow> Some SerialIdentWacom_fn)\<rparr>)"

lemma wacom_device_fields:
  "d \<in> set xWacomDevices \<Longrightarrow> dv_pfnIdent d = Some SerialIdentWacom_fn \<and> dv_nMinBaudRate d = 9600"
  by (auto simp: device_tables)

lemma SerialSetDevice_resolved:
  assumes "resolves pModel fnd"
  shows "SerialSetDevice ps fnd w = (0, before_ident fnd ps, w)"
  using assms wacom_device_fields
  by (auto simp: SerialSetDevice_def before_ident_def resolves_def Let_def split: option.splits prod.splits)

lemma identified_simps [simp]:
  "s_pDevice (identified v ps) = Some (fst (dev_entry v))" "s_nVerMajor (identified v ps) = of_nat (dev_major v)"
  "s_nVerMinor (identified v ps) = of_nat (dev_minor v)" "s_fd (identified v ps) = s_fd ps"
  "s_pfnInit (identified v ps) = Some SerialInitWacom_fn" "s_pSubType (identified v ps) = Some (taken_for (snd (dev_entry v)))"
  "s_pVendor (identified v ps) = Some xWacomVendor" "s_uPacketLength (identified v ps) = dv_uPacketLength (fst (dev_entry v))"
  "s_pfnParse (identified v ps) = s_pfnParse ps" "s_nBitErrors (identified v ps) = s_nBitErrors ps"
  by (simp_all add: identified_def with_version_def split: prod.split)

lemma before_ident_simps [simp]:
  "s_fd (before_ident fnd ps) = s_fd ps" "s_pDevice (before_ident fnd ps) = fst (snd fnd)"
  "s_pfnParse (before_ident fnd ps) = s_pfnParse ps" "s_nBitErrors (before_ident fnd ps) = s_nBitErrors ps"
  "s_state (before_ident fnd ps) = s_state ps"
  by (simp_all add: before_ident_def split: prod.split)

lemma init_protocol_5_simps [simp]:
  "s_fd (init_protocol_5 ps) = s_fd ps" "s_pDevice (init_protocol_5 ps) = s_pDevice ps"
  "s_pSubType (init_protocol_5 ps) = s_pSubType ps" "s_pVendor (init_protocol_5 ps) = s_pVendor ps"
  "s_pfnParse (init_protocol_5 ps) = Some SerialParseWacomV_fn"
  "s_uPacketLength (init_protocol_5 ps) = s_uPacketLength ps" "s_nBitErrors (init_protocol_5 ps) = s_nBitErrors ps"
  "s_nVerMajor (init_protocol_5 ps) = s_nVerMajor ps" "s_nVerMinor (init_protocol_5 ps) = s_nVerMinor ps"
  by (simp_all add: init_protocol_5_def set_tilt_range_def)

lemma set_tilt_range_simps [simp]:
  "s_fd (set_tilt_range ps) = s_fd ps" "s_pDevice (set_tilt_range ps) = s_pDevice ps"
  "s_pSubType (set_tilt_range ps) = s_pSubType ps" "s_pVendor (set_tilt_range ps) = s_pVendor ps"
  "s_pfnParse (set_tilt_range ps) = s_pfnParse ps"
  "s_uPacketLength (set_tilt_range ps) = s_uPacketLength ps" "s_nBitErrors (set_tilt_range ps) = s_nBitErrors ps"
  "s_nVerMajor (set_tilt_range ps) = s_nVerMajor ps" "s_nVerMinor (set_tilt_range ps) = s_nVerMinor ps"
  by (simp_all add: set_tilt_range_def)

lemma with_dims_more [simp]:
  "s_pSubType (with_dims v ps) = s_pSubType ps" "s_pVendor (with_dims v ps) = s_pVendor ps"
  "s_pfnParse (with_dims v ps) = s_pfnParse ps"
  "s_uPacketLength (with_dims v ps) = s_uPacketLength ps" "s_nBitErrors (with_dims v ps) = s_nBitErrors ps"
  by (simp_all add: with_dims_def)

lemma initialised_simps [simp]:
  "s_fd (initialised v ps) = s_fd ps" "s_pDevice (initialised v ps) = s_pDevice ps"
  "s_pSubType (initialised v ps) = s_pSubType ps" "s_pVendor (initialised v ps) = s_pVendor ps"
  "s_nBitErrors (initialised v ps) = s_nBitErrors ps"
  "s_nVerMajor (initialised v ps) = s_nVerMajor ps" "s_nVerMinor (initialised v ps) = s_nVerMinor ps"
  by (simp_all add: initialised_def)

lemma SerialReset_served:
  assumes "cooperative v" and "resolves pModel fnd" and "answers w = open_script v @ later"
  shows "\<exists>w'. SerialReset ps pModel w = Some (0, initialised v (identified v (before_ident fnd ps)), w') \<and>
    served ps w (open_bytes v) later w'"
proof -
  let ?ps1 = "before_ident fnd ps"
  let ?ps3 = "identified v ?ps1"
  let ?ps4 = "initialised v ?ps3"
  let ?l4 = "takes_all # later"
  let ?l3 = "init_script v @ ?l4"
  let ?l2 = "reply_script (dev_noise v) req_id (ident_reply v) @ ?l3"
  have same: "served ?ps1 = served ps" "served ?ps3 = served ps" "served ?ps4 = served ps"
    by (intro served_fd; simp)+
  have dev: "known_baud ?ps1" "n_bauds ?ps1 = 3" "\<exists>f\<in>{SerialIdentDefault_fn, SerialIdentWacom_fn}. s_pfnIdent ?ps1 = Some f"
    using assms(2) wacom_device_fields
    by (auto simp: resolves_def known_baud_def n_bauds_def before_ident_def split: option.splits prod.splits)
  have f: "(case pModel of None \<Rightarrow> Some (rc_ok, None, None, None) | Some m \<Rightarrow> SerialFindModel (Some m)) = Some (rc_ok, fnd)"
    using assms(2) by (auto simp: resolves_def split: option.splits)
  have "answers w = tty_script (n_bauds ?ps1) @ ?l2" using assms(3) dev(2) by (simp add: open_script_def)
  from SerialConfigTTY_served [OF this dev(1)] dev(2) obtain w2 where
    2: "SerialConfigTTY ?ps1 w = (0, w2)" "served ps w (config_bytes 3) ?l2 w2" by (auto simp: same)
  then have "answers w2 = ?l2" by (simp add: served_def)
  from SerialIdentWacom_served [OF assms(1) this, of ?ps1] obtain w3 where
    3: "SerialIdentWacom ?ps1 w2 = Some (0, ?ps3, w3)" "served ps w2 req_id ?l3 w3" by (auto simp: same)
  then have "answers w3 = ?l3" by (simp add: served_def)
  from SerialInitWacom_served [OF assms(1) this, of ?ps3] obtain w4 where
    4: "SerialInitWacom ?ps3 w3 = Some (0, ?ps4, w4)" "served ps w3 (req_size @ concat (init_bytes v)) ?l4 w4"
    by (auto simp: same)
  then have "answers w4 = ?l4" by (simp add: served_def)
  from SerialSend_served [OF this, of "''ST'' @ [CR]" ?ps4] obtain w5 where
    5: "SerialSendStart ?ps4 w4 = (0, w5)" "served ps w4 start_bytes later w5"
    unfolding asc_CR SerialSendStart_def start_bytes_def same by auto
  from dev(3) obtain f where "s_pfnIdent ?ps1 = Some f" "run_ident f ?ps1 w2 = Some (0, ?ps3, w3)"
    using 3(1) by (auto simp: SerialIdentDefault_def)
  then have "SerialReset ps pModel w = Some (0, ?ps4, w5)"
    by (simp add: SerialReset_def f SerialSetDevice_resolved [OF assms(2)] 2(1) 4(1) 5(1))
  then show ?thesis
    using 2(2) 3(2) 4(2) 5(2) by (simp add: served_def open_bytes_def)
qed

text \<open>The parser and packet length an opened tablet has.\<close>

definition parser_for :: "device \<Rightarrow> PARSEFUNC option" where
  "parser_for v =
     (if dv_nProtocol (fst (dev_entry v)) = PROTOCOL_5 then Some SerialParseWacomV_fn
      else if dev_major v \<noteq> 1 then None
      else if 4 \<le> dev_minor v then Some SerialParseWacomIV_1_4_fn
      else if dev_minor v = 3 then Some SerialParseWacomIV_1_3_fn
      else Some SerialParseWacomIV_1_2_fn)"

definition packet_length :: "PARSEFUNC option \<Rightarrow> nat" where
  "packet_length p = (if p = Some SerialParseWacomV_fn \<or> p = Some SerialParseWacomIV_1_4_fn then 9 else 7)"

lemma models_length:
  "list_all (\<lambda>(d, s). dv_uPacketLength d = (if dv_nProtocol d = PROTOCOL_5 then 9 else 7)) serial_models"
  by code_simp

lemma initialised_parser:
  assumes "cooperative v" and "s_pfnParse ps = None"
  shows "s_pfnParse (initialised v (identified v ps)) = parser_for v"
    "unat (s_uPacketLength (initialised v (identified v ps))) = packet_length (parser_for v)"
proof -
  show "s_pfnParse (initialised v (identified v ps)) = parser_for v"
    using assms(2) by (simp add: initialised_def parser_for_def)
  have "dv_uPacketLength (fst (dev_entry v)) = (if dv_nProtocol (fst (dev_entry v)) = PROTOCOL_5 then 9 else 7)"
    using models_length assms(1) by (cases "dev_entry v") (auto simp: list_all_iff cooperative_def)
  then show "unat (s_uPacketLength (initialised v (identified v ps))) = packet_length (parser_for v)"
    by (simp add: initialised_def parser_for_def packet_length_def)
qed

lemma initialised_wf:
  "wf_state (s_state ps) \<Longrightarrow> wf_state (s_state (initialised v (identified v ps)))"
proof -
  assume "wf_state (s_state ps)"
  then have "wf_state (s_state (identified v ps))"
    by (simp add: identified_def with_version_def wf_state_def split: prod.split)
  then show ?thesis
    by (simp add: initialised_def init_protocol_5_def set_tilt_range_def with_dims_def)
qed

end
