(* ===== verification/Serial_Proto.thy ===== *)
theory Serial_Proto
  imports Serial_Parse
begin

text \<open>
  The packet formats as abstract packets with fields of their exact width, an encoder for each
  and what a packet means for the tablet. The parsers of \<^verbatim>\<open>wacserial.c\<close> are refined against
  these: parsing an encoded packet has exactly the packet's meaning. The encoders and meanings are
  specification (what the device sends); only the parsers are the program's.
\<close>

section \<open>Protocol V packets\<close>

datatype v_packet =
    V_In "12 word" "32 word"
  | V_Out
  | V_Pen "16 word" "16 word" "10 word" "7 word" "7 word" bool bool
  | V_Airbrush "16 word" "16 word" "10 word" "7 word" "7 word"
  | V_Mouse "16 word" "16 word" "10 word" "7 word"
  | V_Rotation "16 word" "16 word" "11 word"

text \<open>The frame shared by the positional packets: head, x, y, a ten-bit value, two more bytes.\<close>

definition v_frame :: "u8 \<Rightarrow> 16 word \<Rightarrow> 16 word \<Rightarrow> 10 word \<Rightarrow> u8 \<Rightarrow> u8 \<Rightarrow> u8 list" where
  "v_frame h x y t a b =
     [h, ucast (take_bit 7 (drop_bit 9 x)), ucast (take_bit 7 (drop_bit 2 x)),
      push_bit 5 (ucast (take_bit 2 x)) OR ucast (drop_bit 11 y),
      ucast (take_bit 7 (drop_bit 4 y)),
      push_bit 3 (ucast (take_bit 4 y)) OR ucast (drop_bit 7 t),
      ucast (take_bit 7 t), a, b]"

fun v_encode :: "v_packet \<Rightarrow> u8 list" where
  "v_encode (V_In toolid serial) =
     [0xC2, ucast (drop_bit 5 toolid),
      push_bit 2 (ucast (take_bit 5 toolid)) OR ucast (drop_bit 30 serial),
      ucast (take_bit 7 (drop_bit 23 serial)), ucast (take_bit 7 (drop_bit 16 serial)),
      ucast (take_bit 7 (drop_bit 9 serial)), ucast (take_bit 7 (drop_bit 2 serial)),
      push_bit 5 (ucast (take_bit 2 serial)), 0]"
| "v_encode V_Out = [0x80, 0, 0, 0, 0, 0, 0, 0, 0]"
| "v_encode (V_Pen x y press tx ty sw1 sw2) =
     v_frame (0xA0 OR (if sw1 then 0x02 else 0) OR (if sw2 then 0x04 else 0)) x y press (ucast tx) (ucast ty)"
| "v_encode (V_Airbrush x y wheel tx ty) = v_frame 0xB4 x y wheel (ucast tx) (ucast ty)"
| "v_encode (V_Mouse x y throttle b) = v_frame 0xB0 x y throttle 0 (ucast b)"
| "v_encode (V_Rotation x y rot) =
     v_frame 0xAA x y (ucast (drop_bit 7 rot)) (ucast (take_bit 7 rot)) 0"

text \<open>
  The meaning of the buttons byte of a mouse packet for the three kinds of mouse: the buttons left,
  middle, right, extra, side and the wheel.
\<close>

definition v_mouse_meaning :: "s32 \<Rightarrow> 7 word \<Rightarrow> bool list \<times> int" where
  "v_mouse_meaning toolid b =
     (if toolid = 0x094 then ([bit b 0, bit b 1, bit b 2, bit b 4, bit b 5], 0)
      else if toolid = 0x096 then ([bit b 0, bit b 1, bit b 2, bit b 3, bit b 4], 0)
      else ([bit b 2, bit b 3, bit b 4, False, False], of_bool (bit b 1) - of_bool (bit b 0)))"

definition v_buttons :: "bool list \<Rightarrow> s32" where
  "v_buttons bs =
     (if bs ! 0 then BIT WACOMBUTTON_LEFT else 0) OR (if bs ! 1 then BIT WACOMBUTTON_MIDDLE else 0)
     OR (if bs ! 2 then BIT WACOMBUTTON_RIGHT else 0) OR (if bs ! 3 then BIT WACOMBUTTON_EXTRA else 0)
     OR (if bs ! 4 then BIT WACOMBUTTON_SIDE else 0)"

definition v_rotation_meaning :: "11 word \<Rightarrow> int" where
  "v_rotation_meaning rot = (if uint rot < 900 then - uint rot else 1799 - uint rot)"

text \<open>\<open>set_fields\<close> sets a list of fields, first to last.\<close>

fun set_fields :: "(nat \<times> s32) list \<Rightarrow> SERIALTABLET \<Rightarrow> SERIALTABLET" where
  "set_fields [] ps = ps"
| "set_fields ((f, v) # fvs) ps = set_fields fvs (set_nValue f v ps)"

fun v_meaning :: "v_packet \<Rightarrow> SERIALTABLET \<Rightarrow> SERIALTABLET" where
  "v_meaning (V_In toolid serial) ps =
     set_fields [(WACOMFIELD_PROXIMITY, 1), (WACOMFIELD_SERIAL, serial),
        (WACOMFIELD_TOOLTYPE, v_tool (ucast toolid))] (ps\<lparr>s_nToolID := ucast toolid\<rparr>)"
| "v_meaning V_Out ps =
     ps\<lparr>s_nToolID := 0,
        s_state := (s_state ps)\<lparr>values_arr := replicate WACOMFIELD_MAX zero_value\<rparr>\<rparr>"
| "v_meaning (V_Pen x y press tx ty sw1 sw2) ps =
     set_fields [(WACOMFIELD_POSITION_X, ucast x), (WACOMFIELD_POSITION_Y, ucast y),
        (WACOMFIELD_TILT_X, scast tx), (WACOMFIELD_TILT_Y, scast ty),
        (WACOMFIELD_PRESSURE, ucast press),
        (WACOMFIELD_BUTTONS, (if 10 < uint press then BIT WACOMBUTTON_TOUCH else 0)
           OR (if sw1 then BIT WACOMBUTTON_STYLUS else 0) OR (if sw2 then BIT WACOMBUTTON_STYLUS2 else 0)),
        (WACOMFIELD_ABSWHEEL, 0)] ps"
| "v_meaning (V_Airbrush x y wheel tx ty) ps =
     set_fields [(WACOMFIELD_POSITION_X, ucast x), (WACOMFIELD_POSITION_Y, ucast y),
        (WACOMFIELD_TILT_X, scast tx), (WACOMFIELD_TILT_Y, scast ty),
        (WACOMFIELD_PRESSURE, 0), (WACOMFIELD_BUTTONS, 0), (WACOMFIELD_ABSWHEEL, ucast wheel)] ps"
| "v_meaning (V_Mouse x y throttle b) ps =
     (let (bs, wheel) = v_mouse_meaning (s_nToolID ps) b
      in set_fields [(WACOMFIELD_POSITION_X, ucast x), (WACOMFIELD_POSITION_Y, ucast y),
        (WACOMFIELD_RELWHEEL, of_int wheel),
        (WACOMFIELD_THROTTLE, if bit b 3 then - ucast throttle else ucast throttle),
        (WACOMFIELD_BUTTONS, (cur_nValue WACOMFIELD_BUTTONS ps AND NOT (mask 5)) OR v_buttons bs)] ps)"
| "v_meaning (V_Rotation x y rot) ps =
     set_fields [(WACOMFIELD_POSITION_X, ucast x), (WACOMFIELD_POSITION_Y, ucast y),
        (WACOMFIELD_ROTATION_Z, of_int (v_rotation_meaning rot))] ps"

subsection \<open>Field by field\<close>

text \<open>The decoders on the bytes of a packet.\<close>

abbreviation "v_x_at d \<equiv> v_x (byte d (Suc 0)) (byte d 2) (byte d 3)"
abbreviation "v_y_at d \<equiv> v_y (byte d 3) (byte d 4) (byte d 5)"
abbreviation "v_ten_at d \<equiv> v_ten (byte d 5) (byte d 6)"
abbreviation "v_toolid_at d \<equiv> v_toolid (byte d (Suc 0)) (byte d 2)"
abbreviation "v_serial_at d \<equiv> v_serial (byte d 2) (byte d 3) (byte d 4) (byte d 5) (byte d 6) (byte d 7)"
abbreviation "v_rot_at d \<equiv> v_rot (byte d 6) (byte d 7)"
abbreviation "iv_x_at d \<equiv> iv_x (byte d 0) (byte d (Suc 0)) (byte d 2)"
abbreviation "iv_y_at d \<equiv> iv_y (byte d 3) (byte d 4) (byte d 5)"
abbreviation "iv_press8_at d \<equiv> iv_press8 (byte d 3) (byte d 6)"
abbreviation "iv_press7_at d \<equiv> iv_press7 (byte d 6)"
abbreviation "tpc_x_at d \<equiv> tpc_x (byte d (Suc 0)) (byte d 2) (byte d 6)"
abbreviation "tpc_y_at d \<equiv> tpc_y (byte d 3) (byte d 4) (byte d 6)"
abbreviation "tpc_press_at d \<equiv> tpc_press (byte d 5) (byte d 6)"

named_theorems proto_simps \<open>fields of encoded packets\<close>

lemma v_frame_length [simp]: "length (v_frame h x y t a b) = 9"
  by (simp add: v_frame_def)

lemma byte_v_frame [proto_simps]:
  "byte (v_frame h x y t a b) 0 = ucast h"
  "byte (v_frame h x y t a b) 7 = ucast a"
  "byte (v_frame h x y t a b) 8 = ucast b"
  by (simp_all add: v_frame_def byte_def)

lemma v_x_frame [proto_simps]: "v_x_at (v_frame h x y t a b) = ucast x"
  by (rule word_eq_bits) (simp add: v_frame_def v_x_def bitwise)

lemma v_y_frame [proto_simps]: "v_y_at (v_frame h x y t a b) = ucast y"
  by (rule word_eq_bits) (simp add: v_frame_def v_y_def bitwise)

lemma v_ten_frame [proto_simps]: "v_ten_at (v_frame h x y t a b) = ucast t"
  by (rule word_eq_bits) (simp add: v_frame_def v_ten_def bitwise)

lemma v_toolid_encode [proto_simps]: "v_toolid_at (v_encode (V_In toolid serial)) = ucast toolid"
  by (rule word_eq_bits) (simp add: v_toolid_def bitwise)

lemma v_serial_encode [proto_simps]: "v_serial_at (v_encode (V_In toolid serial)) = serial"
  by (rule word_eq_bits) (simp add: v_serial_def bitwise)

lemma ucast_7_8 [proto_simps]: "ucast (ucast (t :: 7 word) :: u8) = (ucast t :: s32)"
  by (rule word_eq_bits) (simp add: bitwise)

lemma ucast_7_7: "ucast (ucast (t :: 7 word) :: s32) = t"
  by (rule bit_word_eqI) (simp add: bit_simps)

text \<open>The tilt is the byte's low seven bits, sign-extended.\<close>

lemma v_tilt_scast: "v_tilt b = scast (ucast b :: 7 word)"
proof (cases "bit b 6")
  case True
  have "(b AND 0x3F) - 0x40 = (b AND 0x3F) + 0xFFFFFFC0"
    by simp
  also have "\<dots> = (b AND 0x3F) OR 0xFFFFFFC0"
    by (rule disjunctive_add_eq_or) (rule word_eq_bits, simp add: bitwise)
  also have "\<dots> = scast (ucast b :: 7 word)"
    using True by (intro word_eq_bits) (simp add: bitwise)
  finally show ?thesis
    using True by (simp add: v_tilt_def tst_simps)
next
  case False
  have "b AND 0x3F = scast (ucast b :: 7 word)"
    using False by (intro word_eq_bits) (simp add: bitwise)
  then show ?thesis
    using False by (simp add: v_tilt_def tst_simps)
qed

lemma v_tilt_meaning [proto_simps]: "v_tilt (ucast (t :: 7 word)) = scast t"
  using ucast_7_7 by (simp add: v_tilt_scast)

lemma sint_ucast_10 [proto_simps]: "sint (ucast (t :: 10 word) :: s32) = uint t"
proof -
  have "uint (ucast t :: s32) = uint t"
    by (simp add: unsigned_ucast_eq take_bit_int_eq_self less_le_trans [OF uint_lt2p])
  moreover have "uint t < 2 ^ 10"
    using uint_lt2p [of t] by simp
  ultimately show ?thesis
    using sint_small [of "ucast t :: s32" 10] by simp
qed

lemma v_mouse_mask_buttons:
  "v_mouse_mask old button =
     (old AND NOT (mask 5)) OR v_buttons [bit button 0, bit button 1, bit button 2, bit button 3, bit button 4]"
  by (rule word_eq_bits) (simp add: v_mouse_mask_def v_buttons_def tst_simps bitwise)

lemma v_mouse_button_meaning:
  shows "v_mouse_button toolid (ucast (b :: 7 word)) = (button, wheel) \<Longrightarrow>
     v_mouse_meaning toolid b = ([bit button 0, bit button 1, bit button 2, bit button 3, bit button 4], sint wheel)"
proof -
  have one: "ucast b AND 1 = (of_bool (bit b 0) :: s32)" "drop_bit (Suc 0) (ucast b) AND 1 = (of_bool (bit b 1) :: s32)"
    by (rule word_eq_bits, simp add: bitwise)+
  show "v_mouse_button toolid (ucast b) = (button, wheel) \<Longrightarrow> ?thesis"
    by (auto simp: v_mouse_button_def v_mouse_meaning_def one bit_simps split: if_splits)
qed

lemma v_rot_frame:
  "v_rot_at (v_frame h x y (ucast (drop_bit 7 rot)) (ucast (take_bit 7 rot)) 0) = of_int (v_rotation_meaning rot)"
proof -
  let ?d = "v_frame h x y (ucast (drop_bit 7 rot)) (ucast (take_bit 7 rot)) 0"
  have r: "push_bit 7 (byte ?d 6 AND 0x0F) OR (byte ?d 7 AND 0x7F) = (ucast rot :: s32)"
    by (rule word_eq_bits) (simp add: v_frame_def bitwise)
  have u: "uint (ucast rot :: s32) = uint rot"
    by (simp add: unsigned_ucast_eq take_bit_int_eq_self less_le_trans [OF uint_lt2p])
  have "uint rot < 2 ^ 11"
    using uint_lt2p [of rot] by simp
  then have "sint (ucast rot :: s32) = uint rot"
    using sint_small [of "ucast rot :: s32" 11] u by simp
  then show ?thesis
    unfolding v_rot_def Let_def r by (simp add: v_rotation_meaning_def)
qed

lemma set_fields_wf [proto_simps]: "wf_tablet (set_fields fvs ps) = wf_tablet ps"
  by (induction fvs ps rule: set_fields.induct) simp_all

lemma v_encode_length [simp]: "length (v_encode p) = 9"
  by (cases p) simp_all

lemma v_encode_head: "byte (v_encode p) 0 AND 0x80 \<noteq> 0"
proof (cases p)
  case (V_Pen x y press tx ty sw1 sw2)
  then show ?thesis
    by (cases sw1; cases sw2) (simp_all add: byte_v_frame)
qed (simp_all add: byte_v_frame, simp_all add: byte_def)

lemma v_encode_low: "i \<in> set [1..<9] \<Longrightarrow> byte (v_encode p) i AND 0x80 = 0"
proof -
  assume "i \<in> set [1..<9]"
  then have "i \<in> {1, 2, 3, 4, 5, 6, 7, 8}" by auto
  then show ?thesis
    by (cases p) (auto simp: tst_simps v_frame_def bitwise)
qed

lemma SerialParseWacomV_encode:
  assumes "wf_tablet ps" and "wf_out p"
  shows "SerialParseWacomV ps (v_encode pkt) 9 p =
    Some (rc_ok, v_meaning pkt ps, map_option (\<lambda>_. s_state (v_meaning pkt ps)) p)"
proof (cases pkt)
  case (V_In toolid serial)
  have "byte (v_encode (V_In toolid serial)) 0 = 0xC2" by (simp add: byte_def)
  then show ?thesis
    using assms V_In
    by (simp add: SerialParseWacomV_def parser_simps byte_at_simps v_toolid_encode v_serial_encode Let_def del: v_encode.simps)
next
  case V_Out
  then show ?thesis
    using assms by (simp add: SerialParseWacomV_def parser_simps byte_at_def)
next
  case (V_Pen x y press tx ty sw1 sw2)
  then show ?thesis
    using assms
    by (cases sw1; cases sw2) (simp_all add: SerialParseWacomV_def byte_at_simps parser_simps proto_simps v_pen_button_def Let_def)
next
  case (V_Airbrush x y wheel tx ty)
  then show ?thesis
    using assms by (simp add: SerialParseWacomV_def byte_at_simps parser_simps proto_simps Let_def)
next
  case (V_Mouse x y throttle b)
  obtain button wheel where bw: "v_mouse_button (s_nToolID ps) (ucast b) = (button, wheel)"
    by (cases "v_mouse_button (s_nToolID ps) (ucast b)")
  show ?thesis
    using assms V_Mouse bw v_mouse_button_meaning [OF bw]
    by (simp add: SerialParseWacomV_def byte_at_simps parser_simps proto_simps Let_def v_mouse_mask_buttons
        tst_simps bit_simps wf_state_length)
next
  case (V_Rotation x y rot)
  then show ?thesis
    using assms by (simp add: SerialParseWacomV_def byte_at_simps parser_simps proto_simps v_rot_frame Let_def del: byte_v_frame(2))
qed

section \<open>Protocol IV packets\<close>

datatype iv_packet =
    IV_Out
  | IV_Stylus "16 word" "16 word" "8 word" bool bool
  | IV_Cursor "16 word" "16 word" "8 word" "4 word"

text \<open>
  The pressure's lowest bit travels in byte 3, its highest one inverted in byte 6. \<open>s\<close> is the
  stylus bit of the head, \<open>b\<close> the middle bits of byte 3 (switches or cursor buttons).
\<close>

definition iv_frame :: "u8 \<Rightarrow> 16 word \<Rightarrow> 16 word \<Rightarrow> 8 word \<Rightarrow> u8 \<Rightarrow> u8 list" where
  "iv_frame h x y press b =
     [h OR ucast (drop_bit 14 x), ucast (take_bit 7 (drop_bit 7 x)), ucast (take_bit 7 x),
      b OR push_bit 2 (take_bit 1 press) OR ucast (drop_bit 14 y),
      ucast (take_bit 7 (drop_bit 7 y)), ucast (take_bit 7 y),
      take_bit 6 (drop_bit 1 press) OR (if bit press 7 then 0 else 0x40)]"

lemma iv_frame_length [simp]: "length (iv_frame h x y press b) = 7"
  by (simp add: iv_frame_def)

fun iv_encode :: "iv_packet \<Rightarrow> u8 list" where
  "iv_encode IV_Out = [0x80, 0, 0, 0, 0, 0, 0]"
| "iv_encode (IV_Stylus x y press sw eraser) =
     iv_frame 0xE0 x y press ((if sw then 0x10 else 0) OR (if eraser then 0x20 else 0))"
| "iv_encode (IV_Cursor x y press b) = iv_frame 0xC0 x y press (push_bit 3 (ucast b))"

definition iv_touch :: "int \<Rightarrow> s32" where
  "iv_touch press = (if 10 < press then BIT WACOMBUTTON_TOUCH else 0)"

text \<open>ROM 1.3 and later: the tool is chosen when it comes into proximity and then kept.\<close>

fun iv3_meaning :: "iv_packet \<Rightarrow> SERIALTABLET \<Rightarrow> SERIALTABLET" where
  "iv3_meaning IV_Out ps = set_pen_fields 0 WACOMTOOLTYPE_NONE 0 0 0 0 ps"
| "iv3_meaning (IV_Stylus x y press sw eraser) ps =
     (let tool = (if cur_nValue WACOMFIELD_PROXIMITY ps \<noteq> 0 then cur_nValue WACOMFIELD_TOOLTYPE ps
                  else if eraser then WACOMTOOLTYPE_ERASER else WACOMTOOLTYPE_PEN);
          switches = (if tool = WACOMTOOLTYPE_PEN
                      then (if sw then BIT WACOMBUTTON_STYLUS else 0)
                           OR (if eraser then BIT WACOMBUTTON_STYLUS2 else 0)
                      else 0)
      in set_pen_fields 1 tool (ucast x) (ucast y) (ucast press) (iv_touch (uint press) OR switches) ps)"
| "iv3_meaning (IV_Cursor x y press b) ps =
     set_pen_fields 1 WACOMTOOLTYPE_MOUSE (ucast x) (ucast y) (ucast press) (ucast b) ps"

text \<open>ROM 1.2 and earlier: no eraser; before 1.2 the pressure has seven bits.\<close>

definition iv2_press :: "SERIALTABLET \<Rightarrow> 8 word \<Rightarrow> 8 word" where
  "iv2_press ps press = (if s_nVerMinor ps = 2 then press else drop_bit 1 press)"

fun iv2_meaning :: "iv_packet \<Rightarrow> SERIALTABLET \<Rightarrow> SERIALTABLET" where
  "iv2_meaning IV_Out ps = set_pen_fields 0 WACOMTOOLTYPE_NONE 0 0 0 0 ps"
| "iv2_meaning (IV_Stylus x y press sw eraser) ps =
     set_pen_fields 1 WACOMTOOLTYPE_PEN (ucast x) (ucast y) (ucast (iv2_press ps press))
       (iv_touch (uint (iv2_press ps press)) OR (if sw then BIT WACOMBUTTON_STYLUS else 0)) ps"
| "iv2_meaning (IV_Cursor x y press b) ps =
     set_pen_fields 1 WACOMTOOLTYPE_MOUSE (ucast x) (ucast y) (ucast (iv2_press ps press)) (ucast b) ps"

lemma iv_x_frame [proto_simps]: "take_bit 2 h = 0 \<Longrightarrow> iv_x_at (iv_frame h x y p b) = ucast x"
proof -
  assume "take_bit 2 h = 0"
  then have h: "\<not> bit h 0" "\<not> bit h 1"
    using bit_take_bit_iff [of 2 h 0] bit_take_bit_iff [of 2 h 1] by simp_all
  show ?thesis
    using h by (intro word_eq_bits) (simp add: iv_frame_def iv_x_def bitwise)
qed

lemma iv_y_frame [proto_simps]: "take_bit 2 b = 0 \<Longrightarrow> iv_y_at (iv_frame h x y p b) = ucast y"
proof -
  assume "take_bit 2 b = 0"
  then have h: "\<not> bit b 0" "\<not> bit b 1"
    using bit_take_bit_iff [of 2 b 0] bit_take_bit_iff [of 2 b 1] by simp_all
  show ?thesis
    using h by (intro word_eq_bits) (simp add: iv_frame_def iv_y_def bitwise)
qed

lemma iv_press8_frame [proto_simps]:
  assumes "\<not> bit b 2"
  shows "iv_press8_at (iv_frame h x y p b) = ucast p"
  using assms by (intro word_eq_bits) (simp add: iv_frame_def iv_press8_def tst_simps bitwise, auto simp: bit_0)

lemma iv_byte_bits [proto_simps]:
  "bit (byte (iv_frame h x y p b) 0) 5 = bit h 5" "bit (byte (iv_frame h x y p b) 0) 6 = bit h 6"
  "bit (byte (iv_frame h x y p b) 3) 4 = bit b 4" "bit (byte (iv_frame h x y p b) 3) 5 = bit b 5"
  by (simp_all add: iv_frame_def bitwise)

lemma iv_press7_frame [proto_simps]:
  "iv_press7_at (iv_frame h x y p b) = ucast (drop_bit 1 p)"
proof -
  let ?d = "iv_frame h x y p b"
  have "(byte ?d 6 AND 0x3F) + (if byte ?d 6 AND 0x40 \<noteq> 0 then 0 else 64)
      = (byte ?d 6 AND 0x3F) OR (if byte ?d 6 AND 0x40 \<noteq> 0 then 0 else 64)"
    by (rule disjunctive_add_eq_or) (rule word_eq_bits, simp add: bitwise)
  also have "\<dots> = ucast (drop_bit 1 p)"
    by (rule word_eq_bits) (simp add: iv_frame_def tst_simps bitwise)
  finally show ?thesis by (simp add: iv_press7_def)
qed

lemma sint_ucast_8 [proto_simps]: "sint (ucast (t :: 8 word) :: s32) = uint t"
proof -
  have "uint (ucast t :: s32) = uint t"
    by (simp add: unsigned_ucast_eq take_bit_int_eq_self less_le_trans [OF uint_lt2p])
  moreover have "uint t < 2 ^ 8"
    using uint_lt2p [of t] by simp
  ultimately show ?thesis
    using sint_small [of "ucast t :: s32" 8] by simp
qed

lemma iv_buttons_frame:
  "drop_bit 3 (byte (iv_frame h x y p (push_bit 3 (ucast (b :: 4 word)))) 3 AND 0x78) = ucast b"
  by (rule word_eq_bits) (simp add: iv_frame_def bitwise)

lemma iv_encode_length [simp]: "length (iv_encode p) = 7"
  by (cases p) (simp_all add: iv_frame_def)

lemma take_bit_2_shifted [simp]: "take_bit 2 (push_bit 3 (b :: u8)) = 0"
  by (rule word_eq_bits) (simp add: bitwise)

lemma SerialParseWacomIV_1_3_encode:
  assumes "wf_tablet ps" and "wf_out p" and "take 7 d = iv_encode pkt"
  shows "SerialParseWacomIV_1_3 ps d 7 p =
    Some (rc_ok, iv3_meaning pkt ps, map_option (\<lambda>_. s_state (iv3_meaning pkt ps)) p)"
proof -
  have "SerialParseWacomIV_1_3 ps d 7 p = SerialParseWacomIV_1_3 ps (iv_encode pkt) 7 p"
    unfolding assms(3) [symmetric] by (simp add: SerialParseWacomIV_1_3_def byte_at_take cong: if_cong)
  also have "\<dots> = Some (rc_ok, iv3_meaning pkt ps, map_option (\<lambda>_. s_state (iv3_meaning pkt ps)) p)"
  proof (cases pkt)
    case IV_Out
    then show ?thesis
      using assms by (simp add: SerialParseWacomIV_1_3_def parser_simps byte_at_def)
  next
    case (IV_Stylus x y press sw eraser)
    then show ?thesis
      using assms
      by (cases sw; cases eraser)
        (simp_all add: SerialParseWacomIV_1_3_def iv3_tool_def iv3_button_def byte_at_simps parser_simps proto_simps Let_def tst_simps bit_simps bit_out_of_range iv_touch_def)
  next
    case (IV_Cursor x y press b)
    have "\<not> bit (push_bit 3 (ucast b) :: u8) 2"
      by (simp add: bit_simps)
    then show ?thesis
      using assms IV_Cursor iv_buttons_frame [of "0xC0" x y press b]
      by (simp add: SerialParseWacomIV_1_3_def iv3_tool_def iv3_button_def byte_at_simps parser_simps iv_x_frame iv_y_frame iv_press8_frame iv_press7_frame Let_def tst_simps
          iv_byte_bits bit_simps bit_out_of_range)
  qed
  finally show ?thesis .
qed

lemma SerialParseWacomIV_1_2_encode:
  assumes "wf_tablet ps" and "wf_out p"
  shows "SerialParseWacomIV_1_2 ps (iv_encode pkt) 7 p =
    Some (rc_ok, iv2_meaning pkt ps, map_option (\<lambda>_. s_state (iv2_meaning pkt ps)) p)"
proof (cases pkt)
  case IV_Out
  then show ?thesis
    using assms by (simp add: SerialParseWacomIV_1_2_def parser_simps byte_at_def)
next
  case (IV_Stylus x y press sw eraser)
  then show ?thesis
    using assms
    by (cases sw; cases eraser; cases "s_nVerMinor ps = 2")
      (simp_all add: SerialParseWacomIV_1_2_def iv2_button_def byte_at_simps parser_simps proto_simps Let_def tst_simps bit_simps bit_out_of_range iv_touch_def
        iv2_press_def)
next
  case (IV_Cursor x y press b)
  have "\<not> bit (push_bit 3 (ucast b) :: u8) 2"
    by (simp add: bit_simps)
  then show ?thesis
    using assms IV_Cursor iv_buttons_frame [of "0xC0" x y press b]
    by (simp add: SerialParseWacomIV_1_2_def iv2_button_def byte_at_simps parser_simps iv_x_frame iv_y_frame iv_press8_frame iv_press7_frame Let_def tst_simps
        iv_byte_bits bit_simps bit_out_of_range iv2_press_def)
qed

section \<open>Tablet PC packets\<close>

datatype tpc_packet =
    TPC_Out
  | TPC_Pen "16 word" "16 word" "8 word" bool bool bool

text \<open>\<open>TPC_Pen x y pressure touch switch invert\<close>; the coordinates' low bits share byte 6.\<close>

fun tpc_encode :: "tpc_packet \<Rightarrow> u8 list" where
  "tpc_encode TPC_Out = [0x80, 0, 0, 0, 0, 0, 0, 0, 0]"
| "tpc_encode (TPC_Pen x y press touch sw ers) =
     [0xA0 OR of_bool touch OR push_bit 1 (of_bool sw) OR push_bit 2 (of_bool ers),
      ucast (drop_bit 9 x), ucast (take_bit 7 (drop_bit 2 x)),
      ucast (drop_bit 9 y), ucast (take_bit 7 (drop_bit 2 y)),
      take_bit 7 press,
      push_bit 5 (ucast (take_bit 2 x)) OR push_bit 3 (ucast (take_bit 2 y)) OR drop_bit 7 press,
      0, 0]"

fun tpc_meaning :: "tpc_packet \<Rightarrow> SERIALTABLET \<Rightarrow> SERIALTABLET" where
  "tpc_meaning TPC_Out ps = set_pen_fields 0 WACOMTOOLTYPE_NONE 0 0 0 0 ps"
| "tpc_meaning (TPC_Pen x y press touch sw ers) ps =
     set_pen_fields 1 (if ers then WACOMTOOLTYPE_ERASER else WACOMTOOLTYPE_PEN)
       (ucast x) (ucast y) (ucast press)
       ((if touch then BIT WACOMBUTTON_TOUCH else 0)
        OR (if \<not> ers \<and> sw then BIT WACOMBUTTON_STYLUS else 0)) ps"

lemma tpc_fields [proto_simps]:
  "tpc_x_at (tpc_encode (TPC_Pen x y press touch sw ers)) = ucast x"
  "tpc_y_at (tpc_encode (TPC_Pen x y press touch sw ers)) = ucast y"
  "tpc_press_at (tpc_encode (TPC_Pen x y press touch sw ers)) = ucast press"
  by (rule word_eq_bits, simp add: tpc_x_def tpc_y_def tpc_press_def bitwise)+

lemma tpc_encode_length [simp]: "length (tpc_encode p) = 9"
  by (cases p) simp_all

lemma SerialParseTabletPC_encode:
  assumes "wf_tablet ps" and "wf_out p"
  shows "SerialParseTabletPC ps (tpc_encode pkt) 9 p =
    Some (rc_ok, tpc_meaning pkt ps, map_option (\<lambda>_. s_state (tpc_meaning pkt ps)) p)"
proof (cases pkt)
  case TPC_Out
  then show ?thesis
    using assms by (simp add: SerialParseTabletPC_def parser_simps byte_at_def)
next
  case (TPC_Pen x y press touch sw ers)
  let ?d = "tpc_encode pkt"
  have b: "byte ?d 0 = 0xA0 OR of_bool touch OR push_bit 1 (of_bool sw) OR push_bit 2 (of_bool ers)"
    unfolding TPC_Pen by (rule word_eq_bits) (simp add: bitwise)
  show ?thesis
    using assms TPC_Pen tpc_fields [of x y press touch sw ers] b
    by (cases touch; cases sw; cases ers)
      (simp_all add: SerialParseTabletPC_def tpc_tool_def tpc_button_def byte_at_simps parser_simps del: tpc_encode.simps)
qed

section \<open>Only the packet's own bytes matter\<close>

lemma SerialParseWacomV_take: "SerialParseWacomV ps d 9 p = SerialParseWacomV ps (take 9 d) 9 p"
  by (simp add: SerialParseWacomV_def byte_at_take cong: if_cong)

lemma SerialParseTabletPC_take: "SerialParseTabletPC ps d 9 p = SerialParseTabletPC ps (take 9 d) 9 p"
  by (simp add: SerialParseTabletPC_def byte_at_take cong: if_cong)

lemma SerialParseWacomIV_1_2_take: "SerialParseWacomIV_1_2 ps d 7 p = SerialParseWacomIV_1_2 ps (take 7 d) 7 p"
  by (simp add: SerialParseWacomIV_1_2_def byte_at_take cong: if_cong)

section \<open>Whole packets through SerialParseData\<close>

lemma iv_encode_sync:
  "byte (iv_encode p) 0 AND 0x80 \<noteq> 0" "i \<in> set [1..<7] \<Longrightarrow> byte (iv_encode p) i AND 0x80 = 0"
proof -
  show "byte (iv_encode p) 0 AND 0x80 \<noteq> 0"
    by (cases p) (simp_all add: tst_simps iv_frame_def bitwise)
  assume "i \<in> set [1..<7]"
  then have "i \<in> {1, 2, 3, 4, 5, 6}" by auto
  then show "byte (iv_encode p) i AND 0x80 = 0"
    by (cases p) (auto simp: tst_simps iv_frame_def bitwise)
qed

lemma tpc_encode_sync:
  "byte (tpc_encode p) 0 AND 0x80 \<noteq> 0" "i \<in> set [1..<9] \<Longrightarrow> byte (tpc_encode p) i AND 0x80 = 0"
proof -
  show "byte (tpc_encode p) 0 AND 0x80 \<noteq> 0"
    by (cases p) (simp_all add: tst_simps bitwise)
  assume "i \<in> set [1..<9]"
  then have "i \<in> {1, 2, 3, 4, 5, 6, 7, 8}" by auto
  then show "byte (tpc_encode p) i AND 0x80 = 0"
    by (cases p) (auto simp: tst_simps bitwise)
qed

lemma SerialParseData_synced:
  assumes "n \<le> length d" and "1 \<le> n" and "byte d 0 AND 0x80 \<noteq> 0"
    and "\<And>i. i \<in> set [1..<n] \<Longrightarrow> byte d i AND 0x80 = 0" and "s_pfnParse ps = Some f"
  shows "SerialParseData ps d n p = run_parse f (ps\<lparr>s_nBitErrors := 0\<rparr>) d n p"
proof -
  have "max 1 n \<le> length d" using assms(1,2) by simp
  from SerialParseData_in [OF this] show ?thesis using assms(3-5) by auto
qed

end
