(* ===== verification/Serial_Ranges.thy ===== *)
theory Serial_Ranges
  imports Serial_Proto
begin

text \<open>
  Bounds on everything a parser can store, for arbitrary bytes: each field stays in the range its
  protocol can express, so the numbers handed to a client are never wild.
\<close>

text \<open>The pressure has ten bits in protocol V and eight in the others.\<close>

definition press_max :: "PARSEFUNC \<Rightarrow> int" where
  "press_max f = (if f = SerialParseWacomV_fn then 1023 else 255)"

definition field_range :: "PARSEFUNC \<Rightarrow> nat \<Rightarrow> int \<times> int" where
  "field_range pf f =
     (if f = WACOMFIELD_TOOLTYPE then (0, 7)
      else if f = WACOMFIELD_PROXIMITY then (0, 1)
      else if f = WACOMFIELD_BUTTONS then (0, 255)
      else if f = WACOMFIELD_POSITION_X \<or> f = WACOMFIELD_POSITION_Y then (0, 65535)
      else if f = WACOMFIELD_ROTATION_Z then (-900, 899)
      else if f = WACOMFIELD_DISTANCE then (0, 0)
      else if f = WACOMFIELD_PRESSURE then (0, press_max pf)
      else if f = WACOMFIELD_TILT_X \<or> f = WACOMFIELD_TILT_Y then (-64, 63)
      else if f = WACOMFIELD_ABSWHEEL then (0, 1023)
      else if f = WACOMFIELD_RELWHEEL then (-1, 1)
      else if f = WACOMFIELD_THROTTLE then (-1023, 1023)
      else (- (2 ^ 31), 2 ^ 31 - 1))"

definition within :: "int \<times> int \<Rightarrow> s32 \<Rightarrow> bool" where
  "within r v \<longleftrightarrow> fst r \<le> sint v \<and> sint v \<le> snd r"

definition in_range :: "PARSEFUNC \<Rightarrow> WACOMSTATE \<Rightarrow> bool" where
  "in_range pf s \<longleftrightarrow> (\<forall>f<WACOMFIELD_MAX. within (field_range pf f) (get_nValue f s))"

lemma in_range_zeroed: "in_range pf (s\<lparr>values_arr := replicate WACOMFIELD_MAX zero_value\<rparr>)"
  by (auto simp: in_range_def within_def field_range_def zero_value_def press_max_def)

lemma in_range_put:
  assumes "in_range pf s" and "wf_state s" and "f < WACOMFIELD_MAX" and "within (field_range pf f) v"
  shows "in_range pf (put_nValue f v s)"
  using assms by (auto simp: in_range_def wf_state_length)

section \<open>The decoded fields\<close>

lemma within_bits:
  assumes "\<And>n. bit v n \<Longrightarrow> n < k" and "k \<le> 31" and "fst r \<le> 0" and "2 ^ k - 1 \<le> snd r"
  shows "within r v"
  using sint_bits_below [of v k] assms by (auto simp: within_def)

lemma within_byte_bits:
  assumes "within (0, 255) v" and "bit v n"
  shows "n < 8"
proof -
  have "take_bit 8 (sint v) = sint v"
    using assms(1) by (simp add: within_def take_bit_int_eq_self)
  moreover have "bit (sint v) n"
    using assms(2) bit_imp_le_length [OF assms(2)] by (cases "n = 31") (simp_all add: bit_simps min_def)
  ultimately show ?thesis
    by (metis bit_take_bit_iff)
qed

named_theorems field_bits \<open>the highest bit of each decoded field\<close>

lemma v_field_bits [field_bits]:
  "bit (v_x_at d) n \<Longrightarrow> n < 16" "bit (v_y_at d) n \<Longrightarrow> n < 16" "bit (v_ten_at d) n \<Longrightarrow> n < 10"
  by (erule bits_belowI [rotated], simp add: v_x_def v_y_def v_ten_def bitwise upt_rec_numeral)+

lemma iv_field_bits [field_bits]:
  "bit (iv_x_at d) n \<Longrightarrow> n < 16" "bit (iv_y_at d) n \<Longrightarrow> n < 16" "bit (iv_press8_at d) n \<Longrightarrow> n < 8"
  by (erule bits_belowI [rotated], simp add: iv_x_def iv_y_def iv_press8_def bitwise upt_rec_numeral)+

lemma within_tilt: "within (-64, 63) (v_tilt b)"
proof -
  let ?t = "ucast b :: 7 word"
  have "sint (scast ?t :: s32) = sint ?t"
    by (simp add: sint_up_scast is_up)
  then show ?thesis
    using sint_ge [of ?t] sint_lt [of ?t] by (simp add: within_def v_tilt_scast)
qed

lemma sint_ten: "0 \<le> sint (v_ten_at d) \<and> sint (v_ten_at d) < 1024"
  using sint_bits_below [of "v_ten_at d" 10] field_bits(3) by simp

lemma within_throttle: "within (-1023, 1023) (- v_ten_at d)" "within (-1023, 1023) (v_ten_at d)"
  using sint_ten [of d] by (simp_all add: within_def sint_uminus_s32)

lemma within_rot: "within (-900, 899) (v_rot_at d)"
proof -
  define r where "r = push_bit 7 (byte d 6 AND 0x0F) OR (byte d 7 AND 0x7F)"
  have "n < 11" if "bit r n" for n
    using that unfolding r_def by (elim bits_belowI [rotated]) (simp add: bitwise upt_rec_numeral)
  then have r: "0 \<le> sint r" "sint r < 2048"
    using sint_bits_below [of r 11] by simp_all
  have "sint (1799 - r) = sint (of_int (1799 - sint r) :: s32)"
    by simp
  also have "\<dots> = 1799 - sint r"
    using r by (intro sint_of_int_s32) simp_all
  finally show ?thesis
    using r unfolding v_rot_def r_def [symmetric] Let_def by (simp add: within_def sint_uminus_s32)
qed

lemma within_tool: "within (0, 7) (v_tool t)"
  by (simp add: within_def v_tool_def)

lemma within_wheel:
  assumes "v_mouse_button t b = (button, wheel)"
  shows "within (-1, 1) wheel"
proof -
  have "x AND 1 = of_bool (bit x 0)" "drop_bit (Suc 0) x AND 1 = of_bool (bit x 1)" for x :: s32
    by (simp_all add: and_one_eq bit_0 bit_Suc drop_bit_Suc mod_2_eq_odd)
  then show ?thesis
    using assms by (auto simp: v_mouse_button_def within_def split: if_splits)
qed

lemma v_mouse_mask_bits:
  assumes "\<And>n. bit old n \<Longrightarrow> n < 8" and "bit (v_mouse_mask old button) n"
  shows "n < 8"
proof (rule ccontr)
  assume "\<not> n < 8"
  moreover have "n < 32"
    using bit_imp_le_length [OF assms(2)] by simp
  moreover have "\<not> bit old n"
    using assms(1) [of n] \<open>\<not> n < 8\<close> by blast
  ultimately show False
    using assms(2) by (auto simp: v_mouse_mask_buttons v_buttons_def bit_simps split: if_splits)
qed

lemma v_pen_button_bits [field_bits]: "bit (v_pen_button b p) n \<Longrightarrow> n < 8"
  by (auto simp: v_pen_button_def bit_simps split: if_splits)

text \<open>The tablet PC coordinates fit sixteen bits because the packet's later bytes are seven bits wide.\<close>

lemma tpc_field_bits [field_bits]:
  assumes "\<And>i. i \<in> set [1..<9] \<Longrightarrow> byte d i AND 0x80 = 0"
  shows "bit (tpc_x_at d) n \<Longrightarrow> n < 16" "bit (tpc_y_at d) n \<Longrightarrow> n < 16"
proof -
  have hi: "\<not> bit (byte d 1) 7" "\<not> bit (byte d 3) 7"
    using assms [of 1] assms [of 3] by (simp_all add: tst_simps)
  show "bit (tpc_x_at d) n \<Longrightarrow> n < 16" "bit (tpc_y_at d) n \<Longrightarrow> n < 16"
    by (erule bits_belowI [rotated], insert hi, simp add: tpc_x_def tpc_y_def bitwise upt_rec_numeral)+
qed

lemma small_field_bits [field_bits]:
  "bit (tpc_press_at d) n \<Longrightarrow> n < 8" "bit (iv_press7_at d) n \<Longrightarrow> n < 8"
  "bit (drop_bit 3 (byte d 3 AND 0x78)) n \<Longrightarrow> n < 8"
proof -
  have p: "iv_press7 b = (b AND 0x3F) OR (if b AND 0x40 \<noteq> 0 then 0 else 64)" for b
    unfolding iv_press7_def by (rule disjunctive_add_eq_or) (rule word_eq_bits, simp add: bitwise)
  show "bit (tpc_press_at d) n \<Longrightarrow> n < 8" "bit (iv_press7_at d) n \<Longrightarrow> n < 8"
    "bit (drop_bit 3 (byte d 3 AND 0x78)) n \<Longrightarrow> n < 8"
    by (erule bits_belowI [rotated], simp add: p tpc_press_def bitwise upt_rec_numeral)+
qed

lemma within_BIT_or: "(\<And>n. bit v n \<Longrightarrow> n < 8) \<Longrightarrow> within (0, 255) v"
  by (rule within_bits [where k = 8]) auto

lemmas field_ranges = within_tilt within_throttle within_rot within_tool within_wheel

section \<open>Every parser stays in range\<close>

lemma in_range_set_pen_fields:
  assumes "in_range pf (s_state ps)" and "wf_tablet ps"
    and "within (0, 1) prox" and "within (0, 7) tool" and "within (0, 65535) x" and "within (0, 65535) y"
    and "within (0, press_max pf) press" and "within (0, 255) button"
  shows "in_range pf (s_state (set_pen_fields prox tool x y press button ps))"
  unfolding set_pen_fields_def Let_def
  using assms by (auto intro!: in_range_put simp: field_range_def)

lemma within_const [simp]: "within (0, k) 0 \<longleftrightarrow> 0 \<le> k" "within (0, 1) 1" "within (-1, 1) 0"
  by (auto simp: within_def)

lemma press_max_ge [simp]: "255 \<le> press_max pf" "0 \<le> press_max pf"
  by (simp_all add: press_max_def)

lemma in_range_tool: "in_range pf s \<Longrightarrow> within (0, 7) (get_nValue WACOMFIELD_TOOLTYPE s)"
  unfolding in_range_def by (drule spec [of _ WACOMFIELD_TOOLTYPE]) (simp add: field_range_def)

lemma in_range_buttons: "in_range pf s \<Longrightarrow> within (0, 255) (get_nValue WACOMFIELD_BUTTONS s)"
  unfolding in_range_def by (drule spec [of _ WACOMFIELD_BUTTONS]) (simp add: field_range_def)

definition keeps_range :: "PARSEFUNC \<Rightarrow> parse_out \<Rightarrow> bool" where
  "keeps_range pf out \<longleftrightarrow> (\<forall>r ps' p'. out = Some (r, ps', p') \<longrightarrow> in_range pf (s_state ps'))"

lemma keeps_range_Some [simp]: "keeps_range pf (Some (r, ps, p)) \<longleftrightarrow> in_range pf (s_state ps)"
  by (simp add: keeps_range_def)

lemma within_sixteen: "(\<And>n. bit v n \<Longrightarrow> n < 16) \<Longrightarrow> within (0, 65535) v"
  by (rule within_bits [where k = 16]) auto

lemma within_press: "(\<And>n. bit v n \<Longrightarrow> n < 8) \<Longrightarrow> within (0, press_max pf) v"
  by (rule within_bits [where k = 8]) auto

lemma button_bits [field_bits]:
  "bit (iv3_button (byte d 0) (byte d 3) press tool) n \<Longrightarrow> n < 8" "bit (iv2_button (byte d 0) (byte d 3) press) n \<Longrightarrow> n < 8"
  "bit (tpc_button (byte d 0) tool) n \<Longrightarrow> n < 8"
proof -
  show "bit (iv3_button (byte d 0) (byte d 3) press tool) n \<Longrightarrow> n < 8" "bit (iv2_button (byte d 0) (byte d 3) press) n \<Longrightarrow> n < 8"
    using small_field_bits(3) [of d n]
    by (auto simp: iv3_button_def iv2_button_def bit_or_iff split: if_splits)
  show "bit (tpc_button (byte d 0) tool) n \<Longrightarrow> n < 8"
    by (auto simp: tpc_button_def bit_or_iff split: if_splits)
qed

lemma pen_field_ranges [simp]:
  "within (0, 65535) (iv_x_at d)" "within (0, 65535) (iv_y_at d)" "within (0, press_max pf) (iv_press8_at d)"
  "within (0, press_max pf) (iv_press7_at d)" "within (0, press_max pf) (tpc_press_at d)"
  "within (0, 255) (iv3_button (byte d 0) (byte d 3) press tool)" "within (0, 255) (iv2_button (byte d 0) (byte d 3) press)"
  "within (0, 255) (tpc_button (byte d 0) tool)"
  by (rule within_sixteen within_press within_BIT_or, erule field_bits)+

lemma tool_ranges [simp]:
  "within (0, 7) (tpc_tool b)" "within (0, 7) 1" "within (0, 7) 6"
  "in_range pf (s_state ps) \<Longrightarrow> within (0, 7) (iv3_tool ps b b')"
  using in_range_tool [of pf "s_state ps"] by (auto simp: within_def tpc_tool_def iv3_tool_def)

lemma IV_1_3_range:
  assumes "wf_tablet ps" and "wf_out p" and "in_range pf (s_state ps)" and "n \<le> length d"
  shows "keeps_range pf (SerialParseWacomIV_1_3 ps d n p)"
  using assms by (cases "n = 7") (simp_all add: SerialParseWacomIV_1_3_def Let_def byte_at_simps parser_simps in_range_set_pen_fields)

lemma IV_1_2_range:
  assumes "wf_tablet ps" and "wf_out p" and "in_range pf (s_state ps)" and "n \<le> length d"
  shows "keeps_range pf (SerialParseWacomIV_1_2 ps d n p)"
  using assms by (cases "n = 7") (simp_all add: SerialParseWacomIV_1_2_def Let_def byte_at_simps parser_simps in_range_set_pen_fields)

lemma IV_1_4_range:
  assumes wf: "wf_tablet ps" "wf_out p" and r: "in_range pf (s_state ps)" and len: "n \<le> length d"
  shows "keeps_range pf (SerialParseWacomIV_1_4 ps d n p)"
proof (cases "n = 7 \<or> n = 9")
  case True
  then have len7: "7 \<le> length d" using len by auto
  have tilt: "in_range pf (put_nValue WACOMFIELD_TILT_Y y (put_nValue WACOMFIELD_TILT_X x s))"
    if "in_range pf s" "wf_state s" "within (-64, 63) x" "within (-64, 63) y" for s x y
    using that by (intro in_range_put) (simp_all add: field_range_def)
  from SerialParseWacomIV_1_3_post [OF wf len7] show ?thesis
  proof (cases rule: parser_postE)
    case reject
    then show ?thesis using r by (simp add: SerialParseWacomIV_1_4_def)
  next
    case (accept ps')
    then have "in_range pf (s_state ps')"
      using IV_1_3_range [OF wf r len7] by simp
    then show ?thesis
      using accept r True len by (auto simp: SerialParseWacomIV_1_4_def Let_def byte_at_simps tilt within_tilt)
  qed
qed (use r in \<open>simp add: SerialParseWacomIV_1_4_def\<close>)

lemma TPC_range:
  assumes "wf_tablet ps" and "wf_out p" and "in_range pf (s_state ps)" and "n \<le> length d"
    and "\<And>i. i \<in> set [1..<n] \<Longrightarrow> byte d i AND 0x80 = 0"
  shows "keeps_range pf (SerialParseTabletPC ps d n p)"
proof (cases "n = 9")
  case True
  then have "within (0, 65535) (tpc_x_at d)" "within (0, 65535) (tpc_y_at d)"
    using assms(5) by (intro within_sixteen, elim tpc_field_bits [rotated], simp)+
  then show ?thesis
    using assms True by (simp add: SerialParseTabletPC_def byte_at_simps parser_simps in_range_set_pen_fields)
qed (use assms in \<open>simp add: SerialParseTabletPC_def\<close>)

lemma v_ranges [simp]:
  "within (0, 65535) (v_x_at d)" "within (0, 65535) (v_y_at d)" "within (0, 255) (v_pen_button b p)"
  by (rule within_sixteen within_BIT_or, erule field_bits)+

lemma v_ten_range [simp]: "within (0, 1023) (v_ten_at d)"
  using sint_ten [of d] by (simp add: within_def)

lemma v_mouse_mask_range [simp]: "within (0, 255) old \<Longrightarrow> within (0, 255) (v_mouse_mask old button)"
  using v_mouse_mask_bits [of old button] within_byte_bits [of old] by (intro within_BIT_or) blast

lemma field_range_simps:
  "field_range pf 0 = (0, 7)" "field_range pf (Suc 0) = (- (2 ^ 31), 2 ^ 31 - 1)" "field_range pf 2 = (0, 1)"
  "field_range pf 3 = (0, 255)" "field_range pf 4 = (0, 65535)" "field_range pf 5 = (0, 65535)"
  "field_range pf 6 = (-900, 899)" "field_range pf 8 = (0, press_max pf)" "field_range pf 9 = (-64, 63)"
  "field_range pf 10 = (-64, 63)" "field_range pf 11 = (0, 1023)" "field_range pf 12 = (-1, 1)"
  "field_range pf 13 = (-1023, 1023)"
  by (simp_all add: field_range_def)

lemma within_any [simp]: "within (-2147483648, 2147483647) v"
  using sint_ge [of v] sint_lt [of v] by (simp add: within_def)

lemma V_range:
  assumes "wf_tablet ps" and "wf_out p" and "in_range pf (s_state ps)" and "n \<le> length d" and "pf = SerialParseWacomV_fn"
  shows "keeps_range pf (SerialParseWacomV ps d n p)"
proof -
  have m: "press_max pf = 1023"
    by (simp add: assms(5) press_max_def)
  note old = in_range_buttons [OF assms(3)]
  note put = in_range_put field_range_simps m within_tilt within_rot within_tool within_throttle within_wheel
  show ?thesis
    using assms(1-4) old
    by (cases "n = 9")
       (simp_all add: SerialParseWacomV_def Let_def byte_at_simps parser_simps in_range_zeroed put wf_state_length split: prod.split)
qed

lemma run_parse_range:
  assumes "wf_tablet ps" and "wf_out p" and "in_range f (s_state ps)" and "n \<le> length d"
    and "\<And>i. i \<in> set [1..<n] \<Longrightarrow> byte d i AND 0x80 = 0"
  shows "keeps_range f (run_parse f ps d n p)"
  using assms V_range [OF assms(1-4)] IV_1_4_range [OF assms(1-4)] IV_1_3_range [OF assms(1-4)]
    IV_1_2_range [OF assms(1-4)] TPC_range [OF assms(1-4)]
  by (cases f) simp_all

lemma run_parse_post:
  assumes "wf_tablet ps" and "wf_out p" and "n \<le> length d"
  shows "parser_post ps p (run_parse f ps d n p)"
  using parse_V.post parse_IV_1_4.post parse_IV_1_3.post parse_IV_1_2.post parse_TPC.post assms
  by (cases f) simp_all

lemma SerialParseData_keeps:
  assumes "wf_tablet ps" and "wf_out p" and "max 1 n \<le> length d"
  obtains (reject) k where "SerialParseData ps d n p = Some (fail EINVAL, ps\<lparr>s_nBitErrors := k\<rparr>, p)"
    | (accept) ps' where "SerialParseData ps d n p = Some (rc_ok, ps', map_option (\<lambda>_. s_state ps') p)"
        "wf_tablet ps'" "same_ident ps ps'"
proof (cases "s_pfnParse ps")
  case None
  then have "\<exists>k. SerialParseData ps d n p = Some (fail EINVAL, ps\<lparr>s_nBitErrors := k\<rparr>, p)"
    unfolding SerialParseData_in [OF assms(3)] by auto
  then show thesis using reject by blast
next
  case (Some f)
  then show thesis
    using parse_V.checked_post [OF assms] parse_IV_1_4.checked_post [OF assms] parse_IV_1_3.checked_post [OF assms]
      parse_IV_1_2.checked_post [OF assms] parse_TPC.checked_post [OF assms] reject accept
    by (cases f) blast+
qed

lemma SerialParseData_range:
  assumes "wf_tablet ps" and "wf_out p" and "s_pfnParse ps = Some f" and "in_range f (s_state ps)"
  shows "keeps_range f (SerialParseData ps d n p)"
proof (cases "length d < max 1 n")
  case True
  then show ?thesis
    using SerialParseData_short [OF True, of ps p] assms by (auto simp: keeps_range_def)
next
  case False
  then have len: "max 1 n \<le> length d" by linarith
  show ?thesis
  proof (cases "byte d 0 AND 0x80 = 0 \<or> (\<exists>i\<in>set [1..<n]. byte d i AND 0x80 \<noteq> 0)")
    case True
    then show ?thesis unfolding SerialParseData_in [OF len] using assms by (auto simp: keeps_range_def)
  next
    case False
    then have "SerialParseData ps d n p = run_parse f (ps\<lparr>s_nBitErrors := 0\<rparr>) d n p"
      unfolding SerialParseData_in [OF len] using assms(3) by auto
    moreover have "keeps_range f (run_parse f (ps\<lparr>s_nBitErrors := 0\<rparr>) d n p)"
      using assms False len by (intro run_parse_range) auto
    ultimately show ?thesis by simp
  qed
qed

end
