(* ===== verification/Serial_Packets.thy ===== *)
theory Serial_Packets
  imports Serial_Ranges
begin

text \<open>
  The properties of the packet parsers, stated over \<open>SerialParseData\<close>, the function a client
  reaches through \<open>WacomParseData\<close>. A packet sits at the front of the client's buffer, which may
  be longer.
\<close>

text \<open>A tablet that has been initialised for a protocol; it is the input of the witnesses.\<close>

definition ready_tablet :: "PARSEFUNC \<Rightarrow> SERIALTABLET" where
  "ready_tablet f = (new_serial_tablet 3 None)\<lparr>s_pfnParse := Some f\<rparr>"

lemma ready_tablet_simps [simp]:
  "wf_tablet (ready_tablet f)" "s_pfnParse (ready_tablet f) = Some f"
  by (simp_all add: ready_tablet_def)

lemma in_range_ready: "in_range f (s_state (ready_tablet f))"
  by (auto simp: in_range_def within_def field_range_def zero_value_def press_max_def ready_tablet_def
      new_serial_tablet_def)

lemma take_eq_length: "take n d = e \<Longrightarrow> length e = n \<Longrightarrow> n \<le> length d"
  by (metis length_take min.absorb_iff2 min.cobounded1)

lemma synced_prefix:
  assumes "take n d = e" and "length e = n" and "1 \<le> n" and "byte e 0 AND 0x80 \<noteq> 0"
    and "\<And>i. i \<in> set [1..<n] \<Longrightarrow> byte e i AND 0x80 = 0" and "s_pfnParse ps = Some f"
  shows "SerialParseData ps d n p = run_parse f (ps\<lparr>s_nBitErrors := 0\<rparr>) d n p"
proof (rule SerialParseData_synced)
  show "n \<le> length d" by (rule take_eq_length [OF assms(1,2)])
  show "1 \<le> n" by (rule assms(3))
  show "byte d 0 AND 0x80 \<noteq> 0"
    using assms(3,4) unfolding assms(1) [symmetric] by (simp add: byte_def)
  show "byte d i AND 0x80 = 0" if "i \<in> set [1..<n]" for i
    using assms(5) [OF that] that unfolding assms(1) [symmetric] by (simp add: byte_def)
  show "s_pfnParse ps = Some f" by (rule assms(6))
qed

text \<open>A protocol V packet at the front of the buffer.\<close>

lemma V_packet_parsed:
  assumes "wf_state (s_state ps)" and "pred_option wf_state p" and "s_pfnParse ps = Some SerialParseWacomV_fn"
    and "take 9 buf = v_encode pkt"
  shows "SerialParseData ps buf 9 p =
    (let ps' = v_meaning pkt (ps\<lparr>s_nBitErrors := 0\<rparr>) in Some (rc_ok, ps', map_option (\<lambda>_. s_state ps') p))"
proof -
  have "SerialParseData ps buf 9 p = SerialParseWacomV (ps\<lparr>s_nBitErrors := 0\<rparr>) buf 9 p"
    using synced_prefix [OF assms(4)] v_encode_head v_encode_low assms(3) by simp
  also have "\<dots> = SerialParseWacomV (ps\<lparr>s_nBitErrors := 0\<rparr>) (v_encode pkt) 9 p"
    using SerialParseWacomV_take [of _ buf] assms(4) by simp
  finally show ?thesis
    using SerialParseWacomV_encode [of "ps\<lparr>s_nBitErrors := 0\<rparr>" p pkt] assms(1,2) by (simp add: Let_def)
qed

text \<open>A tablet PC packet at the front of the buffer.\<close>

lemma TPC_packet_parsed:
  assumes "wf_state (s_state ps)" and "pred_option wf_state p" and "s_pfnParse ps = Some SerialParseTabletPC_fn"
    and "take 9 buf = tpc_encode pkt"
  shows "SerialParseData ps buf 9 p =
    (let ps' = tpc_meaning pkt (ps\<lparr>s_nBitErrors := 0\<rparr>) in Some (rc_ok, ps', map_option (\<lambda>_. s_state ps') p))"
proof -
  let ?ps = "ps\<lparr>s_nBitErrors := 0\<rparr>"
  have "SerialParseData ps buf 9 p = SerialParseTabletPC ?ps buf 9 p"
    using synced_prefix [OF assms(4)] tpc_encode_sync assms(3) by simp
  also have "\<dots> = SerialParseTabletPC ?ps (tpc_encode pkt) 9 p"
    using SerialParseTabletPC_take [of _ buf] assms(4) by simp
  finally show ?thesis
    using SerialParseTabletPC_encode [of ?ps p pkt] assms(1,2) by (simp add: Let_def)
qed

text \<open>C9: Protocol V round trip. For every packet of the protocol (tool in, tool out, pen, airbrush,
  mouse, rotation), with its fields at their full width, parsing the bytes that encode it from the
  front of a buffer gives return code 0, has exactly the packet's meaning for the tablet, and hands
  the client the tablet's new state.\<close>

theorem parse_V_packet:
  assumes "wf_state (s_state ps)" and "wf_state st" and "s_pfnParse ps = Some SerialParseWacomV_fn"
    and "take 9 buf = v_encode pkt"
  shows "SerialParseData ps buf 9 (Some st) =
    (let ps' = v_meaning pkt (ps\<lparr>s_nBitErrors := 0\<rparr>) in Some (rc_ok, ps', Some (s_state ps')))"
  using V_packet_parsed [OF assms(1) _ assms(3,4), of "Some st"] assms(2) by simp

theorem parse_V_packet_witness:
  "let pkt = V_Pen 1000 2000 512 (- 3) 5 True False; ps = ready_tablet SerialParseWacomV_fn
   in SerialParseData ps (v_encode pkt @ [0, 0, 0]) 9 (Some WACOMSTATE_INIT) =
      (let ps' = v_meaning pkt (ps\<lparr>s_nBitErrors := 0\<rparr>) in Some (rc_ok, ps', Some (s_state ps')))"
  unfolding Let_def
  by (rule parse_V_packet [of "ready_tablet SerialParseWacomV_fn" WACOMSTATE_INIT
        "v_encode (V_Pen 1000 2000 512 (- 3) 5 True False) @ [0, 0, 0]"
        "V_Pen 1000 2000 512 (- 3) 5 True False", unfolded Let_def]) simp_all

text \<open>C38: Protocol IV round trip with tilt (ROM 1.4). A stylus, cursor or out packet followed by the
  two tilt bytes gives return code 0, sets the six fields as ROM 1.3 does (the tool being kept while
  it stays in proximity), then the two signed tilts, in the tablet and in the client's state alike.\<close>

theorem parse_IV_tilt_packet:
  assumes "wf_state (s_state ps)" and "wf_state st" and "s_pfnParse ps = Some SerialParseWacomIV_1_4_fn"
    and "take 9 buf = iv_encode pkt @ [ucast (tx :: 7 word), ucast (ty :: 7 word)]"
  shows "SerialParseData ps buf 9 (Some st) =
    (let ps' = set_fields [(WACOMFIELD_TILT_X, scast tx), (WACOMFIELD_TILT_Y, scast ty)]
                 (iv3_meaning pkt (ps\<lparr>s_nBitErrors := 0\<rparr>))
     in Some (rc_ok, ps', Some (s_state ps')))"
proof -
  let ?e = "iv_encode pkt @ [ucast tx, ucast ty]"
  let ?ps = "ps\<lparr>s_nBitErrors := 0\<rparr>"
  have b7: "byte_at buf 7 = Some (ucast tx)" "byte_at buf 8 = Some (ucast ty)"
    using byte_at_take [of 9 buf 7] byte_at_take [of 9 buf 8] unfolding assms(4) by (simp_all add: byte_at_def nth_append ucast_7_8)
  have low: "byte ?e i AND 0x80 = 0" if "i \<in> set [1..<9]" for i
  proof (cases "i < 7")
    case True
    then show ?thesis
      using iv_encode_sync(2) [of i pkt] that by (simp add: byte_def nth_append)
  next
    case False
    with that have "i = 7 \<or> i = 8" by auto
    then show ?thesis
      by (auto simp: byte_def nth_append ucast_7_8 tst_simps bit_simps bit_out_of_range)
  qed
  have "SerialParseData ps buf 9 (Some st) = SerialParseWacomIV_1_4 ?ps buf 9 (Some st)"
    using synced_prefix [OF assms(4)] iv_encode_sync(1) [of pkt] low assms(3)
    by (simp add: byte_def nth_append)
  moreover have "take 7 buf = iv_encode pkt"
    using arg_cong [OF assms(4), of "take 7"] by simp
  ultimately show ?thesis
    using assms(1,2) SerialParseWacomIV_1_3_encode [of ?ps "Some st" buf pkt]
    by (simp add: SerialParseWacomIV_1_4_def Let_def b7 v_tilt_meaning)
qed

theorem parse_IV_tilt_packet_witness:
  "let ps = ready_tablet SerialParseWacomIV_1_4_fn; pkt = IV_Stylus 5000 300 200 True False
   in SerialParseData ps (iv_encode pkt @ [5, 0x7F]) 9 (Some WACOMSTATE_INIT) =
      (let ps' = set_fields [(WACOMFIELD_TILT_X, 5), (WACOMFIELD_TILT_Y, - 1)]
                   (iv3_meaning pkt (ps\<lparr>s_nBitErrors := 0\<rparr>))
       in Some (rc_ok, ps', Some (s_state ps')))"
  using parse_IV_tilt_packet [of "ready_tablet SerialParseWacomIV_1_4_fn" WACOMSTATE_INIT
      "iv_encode (IV_Stylus 5000 300 200 True False) @ [5, 0x7F]" "IV_Stylus 5000 300 200 True False" 5 "0x7F"]
  by (simp add: Let_def del: iv_encode.simps iv3_meaning.simps)

text \<open>C39: Tablet PC round trip. Parsing an encoded tablet PC packet recovers both sixteen-bit
  coordinates, the eight-bit pressure, the tool and the buttons exactly.\<close>

theorem parse_TPC_packet:
  assumes "wf_state (s_state ps)" and "wf_state st" and "s_pfnParse ps = Some SerialParseTabletPC_fn"
    and "take 9 buf = tpc_encode pkt"
  shows "SerialParseData ps buf 9 (Some st) =
    (let ps' = tpc_meaning pkt (ps\<lparr>s_nBitErrors := 0\<rparr>) in Some (rc_ok, ps', Some (s_state ps')))"
  using TPC_packet_parsed [OF assms(1) _ assms(3,4), of "Some st"] assms(2) by simp

theorem parse_TPC_packet_witness:
  "let pkt = TPC_Pen 20000 10000 99 True False False; ps = ready_tablet SerialParseTabletPC_fn
   in SerialParseData ps (tpc_encode pkt @ [1, 2]) 9 (Some WACOMSTATE_INIT) =
      (let ps' = tpc_meaning pkt (ps\<lparr>s_nBitErrors := 0\<rparr>) in Some (rc_ok, ps', Some (s_state ps')))"
  unfolding Let_def
  by (rule parse_TPC_packet [of "ready_tablet SerialParseTabletPC_fn" WACOMSTATE_INIT
        "tpc_encode (TPC_Pen 20000 10000 99 True False False) @ [1, 2]"
        "TPC_Pen 20000 10000 99 True False False", unfolded Let_def])
     (simp_all del: tpc_encode.simps)

text \<open>Protocol IV before ROM 1.3. The seven-byte packet's coordinates, tool and buttons are
  recovered exactly; the pressure has all eight bits for ROM 1.2 and loses its lowest bit before.\<close>

theorem parse_IV_old_packet:
  assumes "wf_state (s_state ps)" and "wf_state st" and "s_pfnParse ps = Some SerialParseWacomIV_1_2_fn"
    and "take 7 buf = iv_encode pkt"
  shows "SerialParseData ps buf 7 (Some st) =
    (let ps' = iv2_meaning pkt (ps\<lparr>s_nBitErrors := 0\<rparr>) in Some (rc_ok, ps', Some (s_state ps')))"
proof -
  let ?ps = "ps\<lparr>s_nBitErrors := 0\<rparr>"
  have "SerialParseData ps buf 7 (Some st) = SerialParseWacomIV_1_2 ?ps buf 7 (Some st)"
    using synced_prefix [OF assms(4)] iv_encode_sync assms(3) by simp
  also have "\<dots> = SerialParseWacomIV_1_2 ?ps (iv_encode pkt) 7 (Some st)"
    using SerialParseWacomIV_1_2_take [of _ buf] assms(4) by simp
  finally show ?thesis
    using SerialParseWacomIV_1_2_encode [of ?ps "Some st" pkt] assms(1,2) by (simp add: Let_def)
qed

theorem parse_IV_old_packet_witness:
  "let pkt = IV_Stylus 4000 3000 201 True False;
       ps = (ready_tablet SerialParseWacomIV_1_2_fn)\<lparr>s_nVerMinor := 1\<rparr>
   in SerialParseData ps (iv_encode pkt) 7 (Some WACOMSTATE_INIT) =
      (let ps' = iv2_meaning pkt (ps\<lparr>s_nBitErrors := 0\<rparr>) in Some (rc_ok, ps', Some (s_state ps')))"
  unfolding Let_def
  by (rule parse_IV_old_packet [of "(ready_tablet SerialParseWacomIV_1_2_fn)\<lparr>s_nVerMinor := 1\<rparr>"
        WACOMSTATE_INIT "iv_encode (IV_Stylus 4000 3000 201 True False)"
        "IV_Stylus 4000 3000 201 True False", unfolded Let_def])
     (simp_all del: iv_encode.simps)

section \<open>Any bytes\<close>

definition framed :: "u8 list \<Rightarrow> nat \<Rightarrow> bool" where
  "framed buf n \<longleftrightarrow> byte buf 0 AND 0x80 \<noteq> 0 \<and> (\<forall>i\<in>set [1..<n]. byte buf i AND 0x80 = 0)"

lemma set_pen_fields_errors [simp]: "s_nBitErrors (set_pen_fields a b c d e f ps) = s_nBitErrors ps"
  by (simp add: set_pen_fields_def Let_def)

lemma copy_out_errors: "copy_out ps p = Some (r, ps', p') \<Longrightarrow> ps' = ps"
  by (auto simp: copy_out_def split: option.splits bind_splits)

lemma SerialParseWacomIV_1_3_errors:
  "SerialParseWacomIV_1_3 ps d n p = Some (r, ps', p') \<Longrightarrow> s_nBitErrors ps' = s_nBitErrors ps"
  by (auto simp: SerialParseWacomIV_1_3_def Let_def dest!: copy_out_errors split: if_splits bind_splits)

lemma run_parse_errors:
  assumes "run_parse f ps d n p = Some (r, ps', p')"
  shows "s_nBitErrors ps' = s_nBitErrors ps"
proof (cases f)
  case SerialParseWacomV_fn
  then show ?thesis
    using assms
    by (auto simp: SerialParseWacomV_def Let_def dest!: copy_out_errors split: if_splits prod.splits bind_splits)
next
  case SerialParseWacomIV_1_4_fn
  then show ?thesis
    using assms
    by (auto simp: SerialParseWacomIV_1_4_def Let_def dest!: SerialParseWacomIV_1_3_errors split: if_splits bind_splits)
next
  case SerialParseWacomIV_1_3_fn
  then show ?thesis using assms SerialParseWacomIV_1_3_errors by simp
next
  case SerialParseWacomIV_1_2_fn
  then show ?thesis
    using assms by (auto simp: SerialParseWacomIV_1_2_def Let_def dest!: copy_out_errors split: if_splits bind_splits)
next
  case SerialParseTabletPC_fn
  then show ?thesis
    using assms by (auto simp: SerialParseTabletPC_def Let_def dest!: copy_out_errors split: if_splits bind_splits)
qed

text \<open>The bit error count counts the consecutive packets that are out of frame. A packet whose
  first byte has no high bit, or with a high bit after it, is refused with \<open>EINVAL\<close>, adds one to the
  count and changes nothing else; any other packet, even one the parser refuses, sets it to 0.\<close>

theorem bit_error_count:
  assumes len: "max 1 n \<le> length buf"
  shows "(\<not> framed buf n \<longrightarrow>
      SerialParseData ps buf n p = Some (fail EINVAL, ps\<lparr>s_nBitErrors := s_nBitErrors ps + 1\<rparr>, p)) \<and>
    (framed buf n \<longrightarrow> (\<forall>r ps' p'. SerialParseData ps buf n p = Some (r, ps', p') \<longrightarrow> s_nBitErrors ps' = 0))"
  unfolding SerialParseData_in [OF len]
  by (auto simp: framed_def dest!: run_parse_errors split: option.splits if_splits)

theorem bit_error_count_witness:
  "SerialParseData (ready_tablet SerialParseWacomV_fn) [0x20, 1] 2 None =
     Some (fail EINVAL, (ready_tablet SerialParseWacomV_fn)
       \<lparr>s_nBitErrors := s_nBitErrors (ready_tablet SerialParseWacomV_fn) + 1\<rparr>, None)"
  using bit_error_count [of 2 "[0x20, 1]" "ready_tablet SerialParseWacomV_fn" None]
  by (simp add: framed_def byte_def)



text \<open>C16: Values stay in range. If every field of the tablet is in the range its protocol can express,
  it still is after any call of \<open>SerialParseData\<close>, for arbitrary bytes: positions within sixteen
  bits, pressure within ten or eight bits, tilt -64..63, rotation -900..899, throttle -1023..1023,
  the relative wheel -1..1, a known tool, eight buttons.\<close>

theorem parse_data_in_range:
  assumes "wf_state (s_state ps)" and "wf_state st" and "s_pfnParse ps = Some f"
    and "in_range f (s_state ps)"
    and "SerialParseData ps buf n (Some st) = Some (r, ps', st')"
  shows "in_range f (s_state ps')"
  using SerialParseData_range [of ps "Some st" f buf n] assms by (simp add: keeps_range_def)

theorem parse_data_in_range_witness:
  "in_range SerialParseTabletPC_fn (s_state (tpc_meaning (TPC_Pen 65535 65535 255 True True False)
     ((ready_tablet SerialParseTabletPC_fn)\<lparr>s_nBitErrors := 0\<rparr>)))"
proof -
  let ?pkt = "TPC_Pen 65535 65535 255 True True False" and ?ps = "ready_tablet SerialParseTabletPC_fn"
  have "SerialParseData ?ps (tpc_encode ?pkt) 9 (Some WACOMSTATE_INIT) =
     Some (rc_ok, tpc_meaning ?pkt (?ps\<lparr>s_nBitErrors := 0\<rparr>),
       Some (s_state (tpc_meaning ?pkt (?ps\<lparr>s_nBitErrors := 0\<rparr>))))"
    using synced_prefix [where n = 9 and d = "tpc_encode ?pkt" and e = "tpc_encode ?pkt" and ps = ?ps
        and f = SerialParseTabletPC_fn and p = "Some WACOMSTATE_INIT"] tpc_encode_sync(1) [of ?pkt]
      tpc_encode_sync(2) [of _ ?pkt] SerialParseTabletPC_encode [of "?ps\<lparr>s_nBitErrors := 0\<rparr>" "Some WACOMSTATE_INIT" ?pkt]
    by (simp del: tpc_encode.simps tpc_meaning.simps)
  from parse_data_in_range [OF _ _ _ in_range_ready this] show ?thesis
    by simp
qed

section \<open>Sequences of packets\<close>

text \<open>A client that parses packets one after another, without a state of its own.\<close>

fun feed :: "SERIALTABLET \<Rightarrow> u8 list list \<Rightarrow> SERIALTABLET option" where
  "feed ps [] = Some ps"
| "feed ps (d # ds) = do {
     (r, ps1, p) \<leftarrow> SerialParseData ps d (length d) None;
     feed ps1 ds
   }"

text \<open>A stylus packet, from its five fields.\<close>

type_synonym stroke = "16 word \<times> 16 word \<times> 8 word \<times> bool \<times> bool"

fun stylus :: "stroke \<Rightarrow> iv_packet" where
  "stylus (x, y, press, sw, eraser) = IV_Stylus x y press sw eraser"

lemma IV_1_3_packet_parsed:
  assumes "wf_state (s_state ps)" and "s_pfnParse ps = Some SerialParseWacomIV_1_3_fn"
  shows "SerialParseData ps (iv_encode pkt) 7 None = Some (rc_ok, iv3_meaning pkt (ps\<lparr>s_nBitErrors := 0\<rparr>), None)"
proof -
  have "SerialParseData ps (iv_encode pkt) 7 None =
      SerialParseWacomIV_1_3 (ps\<lparr>s_nBitErrors := 0\<rparr>) (iv_encode pkt) 7 None"
    using synced_prefix [of 7 "iv_encode pkt" "iv_encode pkt"] iv_encode_sync assms(2) by simp
  then show ?thesis
    using SerialParseWacomIV_1_3_encode [of "ps\<lparr>s_nBitErrors := 0\<rparr>" None "iv_encode pkt" pkt] assms(1) by simp
qed

lemma stylus_meaning:
  assumes "wf_state (s_state ps)"
  shows "cur_nValue WACOMFIELD_PROXIMITY (iv3_meaning (stylus s) ps) = 1"
    and "cur_nValue WACOMFIELD_TOOLTYPE (iv3_meaning (stylus s) ps) =
       (if cur_nValue WACOMFIELD_PROXIMITY ps \<noteq> 0 then cur_nValue WACOMFIELD_TOOLTYPE ps
        else if snd (snd (snd (snd s))) then WACOMTOOLTYPE_ERASER else WACOMTOOLTYPE_PEN)"
    and "wf_state (s_state (iv3_meaning (stylus s) ps))" "s_pfnParse (iv3_meaning (stylus s) ps) = s_pfnParse ps"
  using assms wf_state_length [OF assms]
  by (cases s; simp add: Let_def set_pen_fields_def)+

lemma feed_strokes:
  "wf_state (s_state ps) \<Longrightarrow> s_pfnParse ps = Some SerialParseWacomIV_1_3_fn \<Longrightarrow> cur_nValue WACOMFIELD_PROXIMITY ps = 1 \<Longrightarrow>
   \<exists>ps'. feed ps (map (\<lambda>s. iv_encode (stylus s)) ss) = Some ps' \<and> wf_state (s_state ps') \<and>
     s_pfnParse ps' = Some SerialParseWacomIV_1_3_fn \<and> cur_nValue WACOMFIELD_PROXIMITY ps' = 1 \<and>
     cur_nValue WACOMFIELD_TOOLTYPE ps' = cur_nValue WACOMFIELD_TOOLTYPE ps"
proof (induction ss arbitrary: ps)
  case (Cons s ss)
  let ?ps = "iv3_meaning (stylus s) (ps\<lparr>s_nBitErrors := 0\<rparr>)"
  have "feed ps (map (\<lambda>s. iv_encode (stylus s)) (s # ss)) = feed ?ps (map (\<lambda>s. iv_encode (stylus s)) ss)"
    using IV_1_3_packet_parsed [OF Cons.prems(1,2), of "stylus s"] by simp
  moreover have "wf_state (s_state ?ps)" "s_pfnParse ?ps = Some SerialParseWacomIV_1_3_fn"
    "cur_nValue WACOMFIELD_PROXIMITY ?ps = 1" "cur_nValue WACOMFIELD_TOOLTYPE ?ps = cur_nValue WACOMFIELD_TOOLTYPE ps"
    using stylus_meaning [of "ps\<lparr>s_nBitErrors := 0\<rparr>" s] Cons.prems by simp_all
  ultimately show ?case using Cons.IH [of ?ps] by simp
qed simp

text \<open>The tool is latched while it stays in proximity (ROM 1.3). From the packet that brings the
  stylus into proximity, its eraser bit decides between pen and eraser; whatever stylus packets
  follow, of any number and with any value of that bit, the tool stays the same, and the first packet
  out of proximity clears it.\<close>

theorem tool_latched:
  assumes "wf_state (s_state ps)" and "s_pfnParse ps = Some SerialParseWacomIV_1_3_fn"
    and "cur_nValue WACOMFIELD_PROXIMITY ps = 0"
  shows "\<exists>ps1 ps2. feed ps (map (\<lambda>s. iv_encode (stylus s)) ((x, y, press, sw, eraser) # rest)) = Some ps1 \<and>
    cur_nValue WACOMFIELD_TOOLTYPE ps1 = (if eraser then WACOMTOOLTYPE_ERASER else WACOMTOOLTYPE_PEN) \<and>
    feed ps1 [iv_encode IV_Out] = Some ps2 \<and>
    cur_nValue WACOMFIELD_TOOLTYPE ps2 = WACOMTOOLTYPE_NONE \<and> cur_nValue WACOMFIELD_PROXIMITY ps2 = 0"
proof -
  let ?s = "(x, y, press, sw, eraser)"
  let ?p = "iv3_meaning (stylus ?s) (ps\<lparr>s_nBitErrors := 0\<rparr>)"
  have p: "wf_state (s_state ?p)" "s_pfnParse ?p = Some SerialParseWacomIV_1_3_fn" "cur_nValue WACOMFIELD_PROXIMITY ?p = 1"
    "cur_nValue WACOMFIELD_TOOLTYPE ?p = (if eraser then WACOMTOOLTYPE_ERASER else WACOMTOOLTYPE_PEN)"
    using stylus_meaning [of "ps\<lparr>s_nBitErrors := 0\<rparr>" ?s] assms by simp_all
  obtain ps1 where 1: "feed ?p (map (\<lambda>s. iv_encode (stylus s)) rest) = Some ps1" "wf_state (s_state ps1)"
    "s_pfnParse ps1 = Some SerialParseWacomIV_1_3_fn"
    "cur_nValue WACOMFIELD_TOOLTYPE ps1 = cur_nValue WACOMFIELD_TOOLTYPE ?p"
    using feed_strokes [OF p(1-3), of rest] by blast
  have "feed ps (map (\<lambda>s. iv_encode (stylus s)) (?s # rest)) = Some ps1"
    using IV_1_3_packet_parsed [OF assms(1,2), of "stylus ?s"] 1(1) by (simp del: stylus.simps)
  moreover have "feed ps1 [iv_encode IV_Out] = Some (iv3_meaning IV_Out (ps1\<lparr>s_nBitErrors := 0\<rparr>))"
    using IV_1_3_packet_parsed [OF 1(2,3), of IV_Out] by (simp del: iv_encode.simps iv3_meaning.simps add: iv_encode_length)
  moreover have "length (values_arr (s_state ps1)) = 14" by (rule wf_state_length [OF 1(2)])
  then have "cur_nValue WACOMFIELD_TOOLTYPE (iv3_meaning IV_Out (ps1\<lparr>s_nBitErrors := 0\<rparr>)) = WACOMTOOLTYPE_NONE"
    "cur_nValue WACOMFIELD_PROXIMITY (iv3_meaning IV_Out (ps1\<lparr>s_nBitErrors := 0\<rparr>)) = 0"
    by (simp_all add: set_pen_fields_def Let_def)
  ultimately show ?thesis using 1(4) p(4) by metis
qed

theorem tool_latched_witness:
  "\<exists>ps1 ps2. feed (ready_tablet SerialParseWacomIV_1_3_fn)
      (map (\<lambda>s. iv_encode (stylus s)) ((10, 20, 0, False, True) # [(10, 20, 90, True, False), (11, 21, 99, False, False)])) = Some ps1 \<and>
    cur_nValue WACOMFIELD_TOOLTYPE ps1 = (if True then WACOMTOOLTYPE_ERASER else WACOMTOOLTYPE_PEN) \<and>
    feed ps1 [iv_encode IV_Out] = Some ps2 \<and>
    cur_nValue WACOMFIELD_TOOLTYPE ps2 = WACOMTOOLTYPE_NONE \<and> cur_nValue WACOMFIELD_PROXIMITY ps2 = 0"
  by (rule tool_latched) (simp, simp, simp add: ready_tablet_def new_serial_tablet_def zero_value_def)

text \<open>When a protocol V tool leaves, the tablet forgets its ranges. The out packet clears the whole
  array of values, so that from then on every minimum and maximum the tablet was initialised
  with (dimensions, pressure, tilt, rotation) reads as 0, for the client as well.\<close>

theorem out_packet_clears_ranges:
  assumes "wf_state (s_state ps)" and "wf_state st" and "s_pfnParse ps = Some SerialParseWacomV_fn"
    and "take 9 buf = v_encode V_Out" and "f < WACOMFIELD_MAX"
  shows "\<exists>ps' st'. SerialParseData ps buf 9 (Some st) = Some (rc_ok, ps', Some st') \<and>
    get_nMax f (s_state ps') = 0 \<and> get_nMin f (s_state ps') = 0 \<and> get_nMax f st' = 0 \<and> get_nMin f st' = 0"
proof -
  have "get_nMax f (s_state (v_meaning V_Out (ps\<lparr>s_nBitErrors := 0\<rparr>))) = 0"
    "get_nMin f (s_state (v_meaning V_Out (ps\<lparr>s_nBitErrors := 0\<rparr>))) = 0"
    using assms(5) by (simp_all add: zero_value_def)
  then show ?thesis
    using V_packet_parsed [OF assms(1) _ assms(3,4), of "Some st"] assms(2) by (auto simp: Let_def simp del: v_meaning.simps)
qed

theorem out_packet_clears_ranges_witness:
  "\<exists>ps' st'. SerialParseData (set_nValue 4 5 (ready_tablet SerialParseWacomV_fn)) (v_encode V_Out) 9 (Some WACOMSTATE_INIT) =
      Some (rc_ok, ps', Some st') \<and>
    get_nMax WACOMFIELD_PRESSURE (s_state ps') = 0 \<and> get_nMin WACOMFIELD_PRESSURE (s_state ps') = 0 \<and>
    get_nMax WACOMFIELD_PRESSURE st' = 0 \<and> get_nMin WACOMFIELD_PRESSURE st' = 0"
  by (rule out_packet_clears_ranges) simp_all

end
