(* ===== verification/Serial_Session.thy ===== *)
theory Serial_Session
  imports Serial_Open Serial_Packets
begin

text \<open>
  The properties of the exchange with the device: what is sent, what is read, what opening a
  tablet achieves, and whole sessions from the bytes on the wire to the state of the client.
\<close>

section \<open>Example input of the witnesses\<close>

definition world0 :: world where
  "world0 = \<lparr>answers = [], calls = [], w_errno = Eother 0,
     tios = \<lparr>c_iflag = 0x500, c_oflag = 5, c_cflag = 0xBF, c_lflag = 0x8A3B, c_cc = (\<lambda>_. 0),
             c_ispeed = 13, c_ospeed = 13\<rparr>\<rparr>"

text \<open>An ArtPad II of ROM 1.4, an Intuos of ROM 1.2.\<close>

definition artpad :: device where
  "artpad = \<lparr>dev_entry = (xWacomDevices ! 1, xArtPadII ! 0), dev_text = asc ''00,'', dev_major = 1, dev_minor = 4,
     dev_release = Some 0, dev_x = 5103, dev_y = 3711, dev_noise = [0x0D, 0x41]\<rparr>"

definition intuos :: device where
  "intuos = \<lparr>dev_entry = (xWacomDevices ! 7, xIntuos ! 1), dev_text = asc ''00,'', dev_major = 1, dev_minor = 2,
     dev_release = None, dev_x = 20320, dev_y = 16240, dev_noise = []\<rparr>"

text \<open>A Cintiq of ROM 2.0.\<close>

definition cintiq2 :: device where
  "cintiq2 = \<lparr>dev_entry = (xWacomDevices ! 6, xCintiq ! 6), dev_text = asc ''0'', dev_major = 2, dev_minor = 0,
     dev_release = None, dev_x = 5040, dev_y = 3780, dev_noise = []\<rparr>"

lemma devices_models:
  "dev_entry artpad \<in> set serial_models" "dev_entry intuos \<in> set serial_models" "dev_entry cintiq2 \<in> set serial_models"
  by code_simp+

lemma devices_idents:
  "st_pszIdent (snd (dev_entry artpad)) = ''KT-0405-R''" "st_pszIdent (snd (dev_entry intuos)) = ''GD-0608-R''"
  "st_pszIdent (snd (dev_entry cintiq2)) = ''PL-600SX''"
  by (simp_all add: artpad_def intuos_def cintiq2_def subtype_tables)

lemma devices_cooperative: "cooperative artpad" "cooperative intuos" "cooperative cintiq2"
  using devices_models
  by (simp_all add: cooperative_def ident_reply_def dims_reply_def version_text_def devices_idents)
     (simp_all add: artpad_def intuos_def cintiq2_def dec.simps)

lemma resolves_None: "resolves None (None, None, None)"
  by (simp add: resolves_def)

section \<open>Sending and reading\<close>

text \<open>C19: \<open>SerialSendRaw\<close> sends everything or fails. However the kernel splits or refuses the
  writes, the bytes the tablet receives are a prefix of the data, in order and without repetition,
  and the result is 0 exactly when it is all of them.\<close>

theorem send_raw_complete:
  assumes "SerialSendRaw ps d w = (r, w')"
  shows "\<exists>k\<le>length d. sent (s_fd ps) w' = sent (s_fd ps) w @ take k d \<and> (r = 0 \<longleftrightarrow> k = length d) \<and> r \<in> {0, 1}"
  by (rule SerialSendRaw_sent [OF assms])

theorem send_raw_complete_witness:
  "\<exists>k\<le>length [1, 2, 3 :: u8].
     sent 3 (snd (SerialSendRaw (ready_tablet SerialParseWacomV_fn) [1, 2, 3] (world0\<lparr>answers := [Gives 2 []]\<rparr>))) =
       sent 3 (world0\<lparr>answers := [Gives 2 []]\<rparr>) @ take k [1, 2, 3] \<and>
     (1 = (0::int) \<longleftrightarrow> k = length [1, 2, 3 :: u8]) \<and> 1 \<in> {0, 1 :: int}"
proof -
  have fd: "s_fd (ready_tablet SerialParseWacomV_fn) = 3"
    by (simp add: ready_tablet_def new_serial_tablet_def)
  have "SerialSendRaw (ready_tablet SerialParseWacomV_fn) [1, 2, 3] (world0\<lparr>answers := [Gives 2 []]\<rparr>) =
      (1, snd (SerialSendRaw (ready_tablet SerialParseWacomV_fn) [1, 2, 3] (world0\<lparr>answers := [Gives 2 []]\<rparr>)))"
    by (simp add: SerialSendRaw.simps sys_defs world0_def)
  from send_raw_complete [OF this] show ?thesis unfolding fd .
qed

text \<open>C17: \<open>SerialReadRaw\<close> stays inside the packet. For any kernel behaviour, including short reads,
  errors and time-outs, a buffer at least as long as a packet and an error count that does not yet
  ask for a reset, the call ends, writes nothing beyond the packet length, changes nothing of
  the tablet but the error count, and returns 0, -1, or a full packet that begins with a high bit.\<close>

theorem read_raw_safe:
  assumes "unat (s_uPacketLength ps) \<le> length buf" and "sint (s_nBitErrors ps) \<le> 3"
  shows "\<exists>r buf' e w'. SerialReadRaw ps buf w = Some (r, buf', ps\<lparr>s_nBitErrors := e\<rparr>, w') \<and>
    length buf' = length buf \<and> drop (unat (s_uPacketLength ps)) buf' = drop (unat (s_uPacketLength ps)) buf \<and>
    (r = 0 \<or> r = -1 \<or>
     r = int (unat (s_uPacketLength ps)) \<and> (s_uPacketLength ps \<noteq> 0 \<longrightarrow> byte buf' 0 AND 0x80 \<noteq> 0))"
proof -
  let ?L = "unat (s_uPacketLength ps)"
  obtain r buf' ps' w' where out: "read_packet ps ?L 0 buf w = (r, buf', ps', w')"
    by (cases "read_packet ps ?L 0 buf w")
  have post: "read_post ?L ps buf (r, buf', ps', w')"
    using read_packet_post [of 0 ?L buf ps w] assms(1) unfolding out by simp
  have hb: "(b AND 0x80 \<noteq> 0) = (ucast b AND (0x80 :: s32) \<noteq> 0)" for b :: u8
    by (simp add: tst_simps bit_simps and_exp_eq_0_iff_not_bit [of b 7, simplified])
  have "SerialReadRaw ps buf w = Some (r, buf', ps\<lparr>s_nBitErrors := s_nBitErrors ps'\<rparr>, w')"
    using assms out post by (simp add: SerialReadRaw_def Let_def read_post_def)
  moreover have "s_uPacketLength ps \<noteq> 0 \<Longrightarrow> 0 < ?L" by (simp add: unat_gt_0)
  ultimately show ?thesis
    using post hb [of "buf' ! 0"] unfolding read_post_def byte_def by auto
qed

theorem read_raw_safe_witness:
  "\<exists>r buf' e w'. SerialReadRaw ((ready_tablet SerialParseWacomV_fn)\<lparr>s_uPacketLength := 7\<rparr>) (replicate 8 0)
       (world0\<lparr>answers := [Gives 1 [], Gives 3 [1, 0x81, 2], Gives 1 [], Fails EIO]\<rparr>) =
     Some (r, buf', (ready_tablet SerialParseWacomV_fn)\<lparr>s_uPacketLength := 7\<rparr>\<lparr>s_nBitErrors := e\<rparr>, w') \<and>
    length buf' = 8 \<and> drop 7 buf' = drop 7 (replicate 8 0) \<and>
    (r = 0 \<or> r = -1 \<or> r = 7 \<and> byte buf' 0 AND 0x80 \<noteq> 0)"
  using read_raw_safe [of "(ready_tablet SerialParseWacomV_fn)\<lparr>s_uPacketLength := 7\<rparr>" "replicate 8 0"]
  by (simp add: ready_tablet_def new_serial_tablet_def)

text \<open>C14: \<open>SerialReadRaw\<close> finds the packet. If the tablet sends bytes without a high bit followed by
  a packet, then however the stream is cut into reads, the call returns exactly the packet, at the
  front of the buffer; without leading garbage the error count does not change.\<close>

theorem read_raw_stream:
  assumes "answers w = stream_script cs @ later" and "concat cs = junk @ pkt"
    and "\<forall>c\<in>set cs. 0 < length c \<and> length c \<le> L" and "\<forall>b\<in>set junk. \<not> high_bit b" and "high_bit (hd pkt)"
    and "length pkt = L" and "0 < L" and "L \<le> length buf"
    and "unat (s_uPacketLength ps) = L" and "sint (s_nBitErrors ps) \<le> 3"
  shows "\<exists>w' e. SerialReadRaw ps buf w = Some (int L, pkt @ drop L buf, ps\<lparr>s_nBitErrors := e\<rparr>, w') \<and>
    answers w' = later \<and> (junk = [] \<longrightarrow> e = s_nBitErrors ps)"
  using read_packet_stream_aux [OF assms(1,3,2,4,6,7,5,8), of ps] assms(8-10)
  by (auto simp: SerialReadRaw_def Let_def)

theorem read_raw_stream_witness:
  "\<exists>w' e. SerialReadRaw ((ready_tablet SerialParseWacomV_fn)\<lparr>s_uPacketLength := 7\<rparr>) (replicate 8 0)
       (world0\<lparr>answers := stream_script [[1, 2], [3, 0xC0, 5], [6, 7, 8, 9], [10]]\<rparr>) =
     Some (7, [0xC0, 5, 6, 7, 8, 9, 10] @ drop 7 (replicate 8 0),
       (ready_tablet SerialParseWacomV_fn)\<lparr>s_uPacketLength := 7\<rparr>\<lparr>s_nBitErrors := e\<rparr>, w') \<and> answers w' = []"
  using read_raw_stream [of "world0\<lparr>answers := stream_script [[1, 2], [3, 0xC0, 5], [6, 7, 8, 9], [10]]\<rparr>"
      "[[1, 2], [3, 0xC0, 5], [6, 7, 8, 9], [10]]" "[]" "[1, 2, 3]" "[0xC0, 5, 6, 7, 8, 9, 10]" 7 "replicate 8 0"
      "(ready_tablet SerialParseWacomV_fn)\<lparr>s_uPacketLength := 7\<rparr>"]
  by (auto simp: ready_tablet_def new_serial_tablet_def)

section \<open>The port\<close>

lemma reset_at_bauds_tios:
  "reset_at_bauds ps bs t w = (0, w') \<Longrightarrow> bauds_tried bs \<noteq> [] \<Longrightarrow>
   tios w' = t\<lparr>c_ispeed := baud_constant (last (bauds_tried bs)), c_ospeed := baud_constant (last (bauds_tried bs))\<rparr>"
proof (induction bs arbitrary: t w)
  case (Cons cb bs)
  obtain c b where cb: "cb = (c, b)" by (cases cb)
  show ?case
  proof (cases c)
    case False
    then show ?thesis using Cons cb by (simp add: bauds_tried_def)
  next
    case True
    obtain r t1 w1 where r: "SerialResetAtBaud ps t b w = (r, t1, w1)" by (cases "SerialResetAtBaud ps t b w")
    have "r = 0" "reset_at_bauds ps bs t1 w1 = (0, w')"
      using Cons.prems(1) r True cb by (auto split: if_splits)
    moreover from this r have "t1 = t\<lparr>c_ispeed := baud_constant b, c_ospeed := baud_constant b\<rparr>" "tios w1 = t1"
      using SerialResetAtBaud_tios [of ps t b w t1 w1] by auto
    moreover have "reset_at_bauds ps bs t w1 = (0, w1)" if "bauds_tried bs = []" for t w1
      using that by (induction bs) (auto simp: bauds_tried_def split: if_splits)
    ultimately show ?thesis
      using Cons.IH [of t1 w1] True cb by (cases "bauds_tried bs = []") (auto simp: bauds_tried_def)
  qed
qed (simp add: bauds_tried_def)

lemma raw_port_flags:
  "c_cflag (raw_port t) AND (CSIZE OR PARENB OR CSTOPB OR CLOCAL) = CS8 OR CLOCAL"
  "c_lflag (raw_port t) AND (ECHO OR ECHONL OR ICANON OR ISIG OR IEXTEN) = 0"
  "c_oflag (raw_port t) AND OPOST = 0"
  "c_iflag (raw_port t) AND (IGNBRK OR BRKINT OR PARMRK OR ISTRIP OR INLCR OR IGNCR OR ICRNL OR IXON OR IXOFF) = IXOFF"
  "c_cc (raw_port t) VMIN = 1" "c_cc (raw_port t) VTIME = 0"
  by (simp_all add: raw_port_def) (rule word_eq_bits; simp add: bitwise)+

lemma SerialConfigTTY_tios:
  assumes "SerialConfigTTY ps w = (0, w')" and "fst (sys_isatty (s_fd ps) w)"
  shows "\<exists>t. tios w' = (raw_port t)\<lparr>c_ispeed := baud_constant (last (bauds_tried (baud_plan ps))),
     c_ospeed := baud_constant (last (bauds_tried (baud_plan ps)))\<rparr>"
proof -
  obtain w1 where 1: "sys_isatty (s_fd ps) w = (True, w1)"
    using assms(2) by (cases "sys_isatty (s_fd ps) w") auto
  obtain g t w2 where 2: "sys_tcgetattr (s_fd ps) w1 = (g, t, w2)" by (cases "sys_tcgetattr (s_fd ps) w1")
  obtain s w3 where 3: "sys_tcsetattr (s_fd ps) (raw_port t) w2 = (s, w3)"
    by (cases "sys_tcsetattr (s_fd ps) (raw_port t) w2")
  obtain r w4 where 4: "reset_at_bauds ps (baud_plan ps) (raw_port t) w3 = (r, w4)"
    by (cases "reset_at_bauds ps (baud_plan ps) (raw_port t) w3")
  obtain p w5 where 5: "SerialSendStop ps w4 = (p, w5)" by (cases "SerialSendStop ps w4")
  obtain f w6 where 6: "WacomFlush ps w5 = (f, w6)" by (cases "WacomFlush ps w5")
  have "r = 0" "w' = w6"
    using assms(1) by (auto simp: SerialConfigTTY_def 1 2 3 4 5 6 split: if_splits)
  moreover have "bauds_tried (baud_plan ps) \<noteq> []"
    by (simp add: baud_plan_def bauds_tried_def Let_def)
  ultimately show ?thesis
    using reset_at_bauds_tios [of ps "baud_plan ps" "raw_port t" w3 w4] 4 SerialSendStop_tios [OF 5]
      WacomFlush_tios [OF 6] by auto
qed

text \<open>C20: Whatever the kernel does, when \<open>SerialConfigTTY\<close> succeeds on a terminal, the port
  is left raw: eight data bits, no parity, one stop bit, no echo, no signals, no line editing, no
  output processing, software flow control of the input only, one byte per read at least and no
  timer, at the lowest speed of the device (9600 when no device is known).\<close>

theorem config_tty_raw:
  assumes "SerialConfigTTY ps w = (0, w')" and "fst (sys_isatty (s_fd ps) w)" and "known_baud ps"
  shows "let t = tios w' in
    c_cflag t AND (CSIZE OR PARENB OR CSTOPB OR CLOCAL) = CS8 OR CLOCAL \<and>
    c_lflag t AND (ECHO OR ECHONL OR ICANON OR ISIG OR IEXTEN) = 0 \<and>
    c_oflag t AND OPOST = 0 \<and>
    c_iflag t AND (IGNBRK OR BRKINT OR PARMRK OR ISTRIP OR INLCR OR IGNCR OR ICRNL OR IXON OR IXOFF) = IXOFF \<and>
    c_cc t VMIN = 1 \<and> c_cc t VTIME = 0 \<and>
    c_ispeed t = c_ospeed t \<and>
    c_ispeed t = (if n_bauds ps = 2 then B19200 else B9600)"
proof -
  obtain t where t: "tios w' = (raw_port t)\<lparr>c_ispeed := baud_constant (last (bauds_tried (baud_plan ps))),
     c_ospeed := baud_constant (last (bauds_tried (baud_plan ps)))\<rparr>"
    using SerialConfigTTY_tios [OF assms(1,2)] by blast
  have b: "baud_constant (last (bauds_tried (baud_plan ps))) = (if n_bauds ps = 2 then B19200 else B9600)"
    using assms(3)
    by (auto simp: baud_plan_def bauds_tried_def n_bauds_def known_baud_def baud_constant_def split: option.splits)
  show ?thesis
    using raw_port_flags [of t] unfolding Let_def t b by simp
qed

theorem config_tty_raw_witness:
  "let t = tios (snd (SerialConfigTTY (ready_tablet SerialParseWacomV_fn) (world0\<lparr>answers := tty_script 3\<rparr>))) in
    c_cflag t AND (CSIZE OR PARENB OR CSTOPB OR CLOCAL) = CS8 OR CLOCAL \<and>
    c_lflag t AND (ECHO OR ECHONL OR ICANON OR ISIG OR IEXTEN) = 0 \<and>
    c_oflag t AND OPOST = 0 \<and>
    c_iflag t AND (IGNBRK OR BRKINT OR PARMRK OR ISTRIP OR INLCR OR IGNCR OR ICRNL OR IXON OR IXOFF) = IXOFF \<and>
    c_cc t VMIN = 1 \<and> c_cc t VTIME = 0 \<and>
    c_ispeed t = c_ospeed t \<and>
    c_ispeed t = (if n_bauds (ready_tablet SerialParseWacomV_fn) = 2 then B19200 else B9600)"
proof -
  let ?ps = "ready_tablet SerialParseWacomV_fn"
  have d: "n_bauds ?ps = 3" "known_baud ?ps"
    by (simp_all add: n_bauds_def known_baud_def ready_tablet_def new_serial_tablet_def)
  obtain w' where w': "SerialConfigTTY ?ps (world0\<lparr>answers := tty_script 3\<rparr>) = (0, w')"
    using SerialConfigTTY_served [of "world0\<lparr>answers := tty_script 3\<rparr>" ?ps "[]"] d by auto
  have "fst (sys_isatty (s_fd ?ps) (world0\<lparr>answers := tty_script 3\<rparr>))"
    by (simp add: sys_defs tty_script_def)
  from config_tty_raw [OF w' this d(2)] show ?thesis
    unfolding w' by simp
qed

section \<open>Opening\<close>

lemma initialised_dims:
  assumes "wf_state (s_state ps)"
  shows "get_nMax WACOMFIELD_POSITION_X (s_state (initialised v (identified v ps))) = of_nat (dev_x v)"
    and "get_nMax WACOMFIELD_POSITION_Y (s_state (initialised v (identified v ps))) = of_nat (dev_y v)"
proof -
  have "length (values_arr (s_state (identified v ps))) = 14"
    using assms by (simp add: identified_def with_version_def wf_state_def split: prod.split)
  then show "get_nMax WACOMFIELD_POSITION_X (s_state (initialised v (identified v ps))) = of_nat (dev_x v)"
    and "get_nMax WACOMFIELD_POSITION_Y (s_state (initialised v (identified v ps))) = of_nat (dev_y v)"
    by (simp_all add: initialised_def init_protocol_5_def set_tilt_range_def with_dims_def)
qed

lemma open_served:
  assumes "cooperative v" and "resolves pModel fnd" and "answers w = open_script v @ later"
  shows "\<exists>w'. WacomOpenSerialTablet fd pModel w =
       Some (Some (initialised v (identified v (before_ident fnd (new_serial_tablet fd pModel)))), w') \<and>
     answers w' = later \<and> sent fd w' = sent fd w @ open_bytes v"
proof -
  have "s_fd (new_serial_tablet fd pModel) = fd" by (simp add: new_serial_tablet_def)
  with SerialReset_served [OF assms(1-3), of "new_serial_tablet fd pModel"] show ?thesis
    by (auto simp: WacomOpenSerialTablet_def served_def)
qed

lemma new_tablet_simps [simp]:
  "s_pfnParse (new_serial_tablet fd m) = None" "s_nBitErrors (new_serial_tablet fd m) = 0"
  "s_fd (new_serial_tablet fd m) = fd"
  by (simp_all add: new_serial_tablet_def)

text \<open>C2: Opening a protocol IV or V tablet. If the tablet answers the identification request with
  the identifier of a model of the tables and a version, and the size request with two numbers,
  then whatever was requested (nothing, or any device of the vendor), opening it sends the reset at
  three speeds, the stop, both requests, the model's mode commands and the start, in this
  order, and gives a tablet with that device, that version, the parser for it, its packet
  length and the position ranges the tablet reported. (A \<open>PL-600SX\<close> is taken for a \<open>PL-600\<close>.)\<close>

theorem open_wacom_tablet:
  assumes "cooperative v" and "resolves pModel fnd" and "answers w = open_script v @ later"
  shows "\<exists>ps w'. WacomOpenSerialTablet fd pModel w = Some (Some ps, w') \<and> answers w' = later \<and>
    sent fd w' = sent fd w @ open_bytes v \<and>
    s_pDevice ps = Some (fst (dev_entry v)) \<and> s_pSubType ps = Some (taken_for (snd (dev_entry v))) \<and>
    s_nVerMajor ps = of_nat (dev_major v) \<and> s_nVerMinor ps = of_nat (dev_minor v) \<and>
    s_pfnParse ps = parser_for v \<and> unat (s_uPacketLength ps) = packet_length (parser_for v) \<and>
    get_nMax WACOMFIELD_POSITION_X (s_state ps) = of_nat (dev_x v) \<and>
    get_nMax WACOMFIELD_POSITION_Y (s_state ps) = of_nat (dev_y v) \<and> wf_state (s_state ps)"
proof -
  let ?ps0 = "before_ident fnd (new_serial_tablet fd pModel)"
  have "wf_state (s_state ?ps0)" "s_pfnParse ?ps0 = None" by simp_all
  note f = initialised_dims [OF this(1), of v] initialised_parser [OF assms(1) this(2)] initialised_wf [OF this(1), of v]
  from open_served [OF assms, of fd] f show ?thesis by force
qed

theorem open_wacom_tablet_witness:
  "\<exists>ps w'. WacomOpenSerialTablet 5 None (world0\<lparr>answers := open_script artpad @ []\<rparr>) = Some (Some ps, w') \<and>
    answers w' = [] \<and>
    sent 5 w' = sent 5 (world0\<lparr>answers := open_script artpad @ []\<rparr>) @ open_bytes artpad \<and>
    s_pDevice ps = Some (fst (dev_entry artpad)) \<and> s_pSubType ps = Some (taken_for (snd (dev_entry artpad))) \<and>
    s_nVerMajor ps = of_nat (dev_major artpad) \<and> s_nVerMinor ps = of_nat (dev_minor artpad) \<and>
    s_pfnParse ps = parser_for artpad \<and> unat (s_uPacketLength ps) = packet_length (parser_for artpad) \<and>
    get_nMax WACOMFIELD_POSITION_X (s_state ps) = of_nat (dev_x artpad) \<and>
    get_nMax WACOMFIELD_POSITION_Y (s_state ps) = of_nat (dev_y artpad) \<and> wf_state (s_state ps)"
  by (rule open_wacom_tablet [OF devices_cooperative(1) resolves_None]) simp

end
