(* ===== verification/Serial_Identity.thy ===== *)
theory Serial_Identity
  imports Serial_Session
begin

text \<open>
  Which tablet an opened handle stands for: every opened tablet is identified, for every behaviour
  of the kernel; what happens when a reset of an open tablet fails; tablets that are opened
  without a parser; the tablet PC; and whole sessions.
\<close>

section \<open>Every successful open identifies the tablet\<close>

text \<open>The vendor, device and subtype are set and belong to each other in the tables.\<close>

definition belongs :: "SERIALVENDOR \<Rightarrow> SERIALDEVICE \<Rightarrow> SERIALSUBTYPE \<Rightarrow> bool" where
  "belongs v d s \<longleftrightarrow>
     v \<in> set xVendors \<and> d \<in> set (vn_pDevices v) \<and>
     (case dv_pSubTypes d of None \<Rightarrow> False | Some subs \<Rightarrow> s \<in> set subs) \<and> st_pszIdent s \<noteq> ''PL-600SX''"

definition identity_ok :: "SERIALTABLET \<Rightarrow> bool" where
  "identity_ok ps \<longleftrightarrow>
     (case (s_pVendor ps, s_pDevice ps, s_pSubType ps) of
        (Some v, Some d, Some s) \<Rightarrow> belongs v d s \<and> uValid (s_state ps) = dv_uCaps d
      | _ \<Rightarrow> False)"

lemma identity_ok_iff:
  "identity_ok ps \<longleftrightarrow> (\<exists>v d s. s_pVendor ps = Some v \<and> s_pDevice ps = Some d \<and> s_pSubType ps = Some s \<and>
     belongs v d s \<and> uValid (s_state ps) = dv_uCaps d)"
  by (auto simp: identity_ok_def split: option.splits)

lemma xVendors_set [simp]: "set xVendors = {xWacomVendor, xtpcVendor}" "vn_pDevices xWacomVendor = xWacomDevices"
  "vn_pDevices xtpcVendor = xtpcDevices"
  by (simp_all add: vendor_tables)

lemma find_ident_sound:
  "find_ident resp ds = Some (d, s) \<Longrightarrow>
   d \<in> set ds \<and> (case dv_pSubTypes d of None \<Rightarrow> False | Some subs \<Rightarrow> s \<in> set subs)"
  by (induction ds) (auto split: option.splits dest: find_SomeD)

lemma find_SomeD_before:
  "find P (xs @ y # ys) = Some x \<Longrightarrow> x \<notin> set (xs @ [y]) \<Longrightarrow> \<not> P y"
  by (induction xs) (auto split: if_splits)

text \<open>The identifier of the \<open>PL-600\<close> is a prefix of that of the \<open>PL-600SX\<close>, and comes first.\<close>

lemma find_cintiq_not_600SX:
  assumes "find (\<lambda>s. strncmp_eq resp (asc (st_pszIdent s)) (length (st_pszIdent s))) xCintiq = Some s"
  shows "st_pszIdent s \<noteq> ''PL-600SX''"
proof
  let ?P = "\<lambda>s. strncmp_eq resp (asc (st_pszIdent s)) (length (st_pszIdent s))"
  assume i: "st_pszIdent s = ''PL-600SX''"
  from assms have "?P s" by (auto dest: find_SomeD)
  then have "take (length ''PL-600SX'') resp = take (length ''PL-600SX'') (asc ''PL-600SX'')"
    unfolding strncmp_eq_def i .
  from arg_cong [OF this, of "take (length ''PL-600'')"] have "?P (WACOM_SUBTYPE ''PL-600'' ''Wacom PL-600'' 6)"
    by (simp add: strncmp_eq_def WACOM_SUBTYPE_def eval_nat_numeral)
  moreover have "\<not> ?P (WACOM_SUBTYPE ''PL-600'' ''Wacom PL-600'' 6)"
  proof (rule find_SomeD_before [where P = ?P and xs = "take 5 xCintiq" and ys = "drop 6 xCintiq" and x = s])
    have "xCintiq = take 5 xCintiq @ WACOM_SUBTYPE ''PL-600'' ''Wacom PL-600'' 6 # drop 6 xCintiq"
      by (simp add: xCintiq_def)
    then show "find ?P (take 5 xCintiq @ WACOM_SUBTYPE ''PL-600'' ''Wacom PL-600'' 6 # drop 6 xCintiq) = Some s"
      using assms by simp
    show "s \<notin> set (take 5 xCintiq @ [WACOM_SUBTYPE ''PL-600'' ''Wacom PL-600'' 6])"
      using i by (auto simp: xCintiq_def WACOM_SUBTYPE_def)
  qed
  ultimately show False by blast
qed

lemma other_subtypes_not_600SX:
  "d \<in> set xWacomDevices \<Longrightarrow> dv_pSubTypes d = Some subs \<Longrightarrow> subs \<noteq> xCintiq \<Longrightarrow> s \<in> set subs \<Longrightarrow>
   st_pszIdent s \<noteq> ''PL-600SX''"
  by (auto simp: device_tables) (auto simp: subtype_tables)

lemma find_ident_find:
  "find_ident resp ds = Some (d, s) \<Longrightarrow> dv_pSubTypes d = Some subs \<Longrightarrow>
   find (\<lambda>s. strncmp_eq resp (asc (st_pszIdent s)) (length (st_pszIdent s))) subs = Some s"
  by (induction ds) (auto split: option.splits)

lemma find_ident_not_600SX:
  assumes "find_ident resp (vn_pDevices xWacomVendor) = Some (d, s)"
  shows "st_pszIdent s \<noteq> ''PL-600SX''"
proof -
  from find_ident_sound [OF assms] obtain subs where
    "d \<in> set xWacomDevices" "dv_pSubTypes d = Some subs" "s \<in> set subs" by (auto split: option.splits)
  then show ?thesis
    using find_ident_find [OF assms] find_cintiq_not_600SX [of resp s] other_subtypes_not_600SX by blast
qed

text \<open>What \<open>scan_version\<close> keeps.\<close>

lemma assign_version_keeps [simp]:
  "s_pVendor (assign_version vs ps) = s_pVendor ps" "s_pDevice (assign_version vs ps) = s_pDevice ps"
  "s_pSubType (assign_version vs ps) = s_pSubType ps" "s_state (assign_version vs ps) = s_state ps"
  "s_fd (assign_version vs ps) = s_fd ps" "s_pfnParse (assign_version vs ps) = s_pfnParse ps"
  by (induction vs ps rule: assign_version.induct) simp_all

lemma scan_version_keeps:
  "scan_version ps v w = Some (r, ps', w') \<Longrightarrow>
   s_pVendor ps' = s_pVendor ps \<and> s_pDevice ps' = s_pDevice ps \<and> s_pSubType ps' = s_pSubType ps \<and> s_state ps' = s_state ps"
  by (auto simp: scan_version_def Let_def split: bind_splits if_splits)

lemma ident_wacom_ok:
  assumes "SerialIdentWacom ps w = Some (0, ps', w')"
  shows "identity_ok ps'"
proof -
  define ans where "ans = (case SerialSendRequest ps (''~#'' @ [CR]) (replicate 64 0) w of
      Inr x \<Rightarrow> Inr x | Inl w1 \<Rightarrow> if w_errno w1 \<noteq> ETIMEDOUT then Inl w1
        else SerialSendRequest ps (''~#'' @ [CR]) (replicate 64 0) w1)"
  have eq: "SerialIdentWacom ps w = (case ans of Inl w1 \<Rightarrow> Some (1, ps, w1)
      | Inr (buf, w1) \<Rightarrow> (case find_ident (c_str buf) (vn_pDevices xWacomVendor) of None \<Rightarrow> Some (1, ps, w1)
          | Some (pDev, pSub) \<Rightarrow> scan_version
              (ps\<lparr>s_pVendor := Some xWacomVendor, s_pDevice := Some pDev, s_pSubType := Some pSub,
                  s_state := (s_state ps)\<lparr>uValid := dv_uCaps pDev\<rparr>,
                  s_uPacketLength := dv_uPacketLength pDev,
                  s_pfnInit := (case st_pfnInit pSub of Some f \<Rightarrow> Some f | None \<Rightarrow> Some SerialInitWacom_fn)\<rparr>)
              (after_last_V (c_str buf)) w1))"
    unfolding SerialIdentWacom_def Let_def ans_def ..
  obtain buf w1 d s where b: "ans = Inr (buf, w1)" "find_ident (c_str buf) (vn_pDevices xWacomVendor) = Some (d, s)"
    using assms unfolding eq by (auto split: sum.splits option.splits)
  from scan_version_keeps [OF assms [unfolded eq b sum.case prod.case option.case]]
    find_ident_sound [OF b(2)] find_ident_not_600SX [OF b(2)]
  show ?thesis by (simp add: identity_ok_iff belongs_def)
qed

lemma tpc_device: "d \<in> set xtpcDevices \<Longrightarrow> dv_pSubTypes d = Some xTabletPC"
  by (simp add: device_tables)

lemma ident_tpc_ok:
  assumes "SerialIdentTabletPC ps w = Some (0, ps', w')" and "pred_option (\<lambda>d. d \<in> set xtpcDevices) (s_pDevice ps)"
  shows "identity_ok ps'"
  using assms
  by (auto simp: SerialIdentTabletPC_def identity_ok_iff belongs_def tpc_device xTabletPC_def TPC_SUBTYPE_def
      split: option.splits list.splits if_splits)

text \<open>Initialisation keeps the identity.\<close>

lemma identity_ok_cong:
  "s_pVendor ps' = s_pVendor ps \<Longrightarrow> s_pDevice ps' = s_pDevice ps \<Longrightarrow> s_pSubType ps' = s_pSubType ps \<Longrightarrow>
   uValid (s_state ps') = uValid (s_state ps) \<Longrightarrow> identity_ok ps' = identity_ok ps"
  by (simp add: identity_ok_iff)

lemma identity_ok_updates [simp]:
  "identity_ok (set_nMin f v ps) = identity_ok ps" "identity_ok (set_nMax f v ps) = identity_ok ps"
  "identity_ok (ps\<lparr>s_state := put_nMax f v st\<rparr>) = identity_ok (ps\<lparr>s_state := st\<rparr>)"
  "identity_ok (ps\<lparr>s_pfnParse := x\<rparr>) = identity_ok ps" "identity_ok (ps\<lparr>s_uPacketLength := l\<rparr>) = identity_ok ps"
  by (simp_all add: identity_ok_iff)

lemma identity_ok_assign_dims [simp]: "identity_ok (assign_dims vs ps) = identity_ok ps"
  by (induction vs ps rule: assign_dims.induct) simp_all

lemma identity_ok_tilt [simp]: "identity_ok (set_tilt_range ps) = identity_ok ps"
  unfolding set_tilt_range_def by (simp only: identity_ok_updates)

lemma identity_ok_init_5 [simp]: "identity_ok (init_protocol_5 ps) = identity_ok ps"
  unfolding init_protocol_5_def Let_def by (simp only: identity_ok_tilt identity_ok_updates)

lemma identity_ok_init_4:
  "init_protocol_4 ps w = (r, ps', w') \<Longrightarrow> identity_ok ps' = identity_ok ps"
  by (auto simp only: init_protocol_4_def identity_ok_tilt identity_ok_updates prod.inject Let_def
      split: if_splits prod.splits)

lemma identity_ok_init:
  assumes "run_init f ps w = Some (r, ps', w')"
  shows "identity_ok ps' = identity_ok ps"
proof (cases f)
  case SerialInitTabletPC_fn
  then have "ps' = set_nMax WACOMFIELD_PRESSURE 255 (set_nMax WACOMFIELD_POSITION_Y 0x4800
       (set_nMax WACOMFIELD_POSITION_X 0x6000 (ps\<lparr>s_pfnParse := Some SerialParseTabletPC_fn\<rparr>)))"
    using assms by (simp add: SerialInitTabletPC_def)
  then show ?thesis by (simp only: identity_ok_updates)
next
  case SerialInitWacom_fn
  then show ?thesis
    using assms
    by (auto simp: SerialInitWacom_def Let_def dest!: identity_ok_init_4 split: sum.splits bind_splits if_splits)
qed

text \<open>\<open>SerialFindModel\<close> gives entries that belong to each other.\<close>

lemma find_in_vendors_sound:
  "find_in_vendors m vs = Some (r, v, d, s) \<Longrightarrow> r = rc_ok \<Longrightarrow>
   \<exists>v' d'. v = Some v' \<and> d = Some d' \<and> v' \<in> set vs \<and> d' \<in> set (vn_pDevices v') \<and>
     uDevice m = dv_uDevice d' \<and> (uVendor m = 0 \<or> uVendor m = vn_uVendor v') \<and>
     (case s of None \<Rightarrow> uSubType m = 0
      | Some s' \<Rightarrow> uSubType m = st_uSubType s' \<and> (\<exists>subs. dv_pSubTypes d' = Some subs \<and> s' \<in> set subs))"
proof (induction vs)
  case (Cons v0 vs)
  show ?case
  proof (cases "find_in_vendors m vs = Some (r, v, d, s)")
    case True
    then show ?thesis using Cons.IH Cons.prems(2) by auto
  next
    case False
    then obtain d' where d': "find (\<lambda>d. uDevice m = dv_uDevice d) (vn_pDevices v0) = Some d'" "v = Some v0" "d = Some d'"
      "uVendor m = 0 \<or> uVendor m = vn_uVendor v0"
      "(uSubType m = 0 \<and> s = None) \<or>
       (\<exists>subs s'. dv_pSubTypes d' = Some subs \<and> find (\<lambda>s. uSubType m = st_uSubType s) subs = Some s' \<and> s = Some s')"
      using Cons.prems by (auto split: if_splits option.splits)
    then show ?thesis
      using find_SomeD [OF d'(1)] by (auto dest: find_SomeD)
  qed
qed simp

lemma find_in_vendors_errno:
  "find_in_vendors m vs = Some ((0, e), fnd) \<Longrightarrow> e = None"
  by (induction vs) (auto simp: fail_def split: if_splits option.splits)

lemma SerialReset_identity:
  assumes "SerialReset ps pModel w = Some (0, ps', w')"
  shows "identity_ok ps'"
proof -
  obtain rc e fnd where f: "(case pModel of None \<Rightarrow> Some (rc_ok, None, None, None) | Some m \<Rightarrow> SerialFindModel (Some m)) = Some ((rc, e), fnd)"
    "rc = 0"
    using assms by (auto simp: SerialReset_def split: bind_splits if_splits)
  obtain r1 ps1 w1 where s: "SerialSetDevice ps fnd w = (r1, ps1, w1)" by (cases "SerialSetDevice ps fnd w")
  obtain r2 w2 where c: "SerialConfigTTY ps1 w1 = (r2, w2)" by (cases "SerialConfigTTY ps1 w1")
  obtain idf r3 ps3 w3 where i: "s_pfnIdent ps1 = Some idf" "run_ident idf ps1 w2 = Some (r3, ps3, w3)" "r3 = 0"
    using assms unfolding SerialReset_def f
    by (auto simp: s c split: bind_splits if_splits option.splits)
  obtain ini r4 ps4 w4 where n: "s_pfnInit ps3 = Some ini" "run_init ini ps3 w3 = Some (r4, ps4, w4)" "ps' = ps4"
    using assms unfolding SerialReset_def f
    by (auto simp: s c i split: bind_splits if_splits option.splits)
  have "identity_ok ps3"
  proof (cases idf)
    case SerialIdentTabletPC_fn
    obtain v d su where fnd: "fnd = (v, d, su)" by (cases fnd)
    have ps1: "s_pDevice ps1 = d" "s_pVendor ps1 = v"
      using s by (auto simp: SerialSetDevice_def fnd Let_def split: option.splits if_splits)
    have "pred_option (\<lambda>d. d \<in> set xtpcDevices) d"
    proof (cases d)
      case (Some d')
      then have "dv_pfnIdent d' = Some SerialIdentTabletPC_fn"
        using s i(1) SerialIdentTabletPC_fn by (auto simp: SerialSetDevice_def fnd Let_def split: if_splits)
      moreover obtain m where m: "SerialFindModel (Some m) = Some ((rc, e), fnd)"
        using f fnd Some by (cases pModel) auto
      then have "find_in_vendors m xVendors = Some ((rc, e), v, Some d', su)"
        using fnd Some by (auto simp: SerialFindModel_def split: if_splits)
      moreover from this have "e = None"
        using f(2) find_in_vendors_errno by blast
      ultimately have "d' \<in> set xWacomDevices \<or> d' \<in> set xtpcDevices"
        using find_in_vendors_sound [of m xVendors "(rc, e)" v "Some d'" su] f(2) by auto
      then show ?thesis
        using wacom_device_fields \<open>dv_pfnIdent d' = _\<close> Some by auto
    qed simp
    then show ?thesis
      using ident_tpc_ok [of ps1 w2 ps3 w3] i SerialIdentTabletPC_fn ps1 by simp
  qed (use i ident_wacom_ok in \<open>auto simp: SerialIdentDefault_def\<close>)
  then show ?thesis using identity_ok_init [OF n(2)] n(3) by simp
qed

text \<open>C15: An opened serial tablet is identified. For every behaviour of the kernel and whatever was
  requested, when \<open>WacomOpenSerialTablet\<close> gives a tablet, its vendor, device and subtype are
  set, belong to each other in the tables and to its capabilities, and every accessor of the model,
  the names and the capabilities is defined. It is never a \<open>PL-600SX\<close>.\<close>

theorem open_identified:
  assumes "WacomOpenSerialTablet fd pModel w = Some (Some ps, w')"
  shows "identity_ok ps \<and>
    SerialGetModel ps \<noteq> None \<and> SerialGetVendorName ps = Some ''Wacom'' \<and> SerialGetDeviceName ps \<noteq> None \<and>
    SerialGetSubTypeName ps \<noteq> None \<and> SerialGetSubTypeName ps \<noteq> Some ''PL-600SX'' \<and>
    SerialGetModelName ps \<noteq> None \<and> SerialGetCaps ps = Some (uValid (s_state ps))"
proof -
  have ok: "identity_ok ps"
    using assms SerialReset_identity [of _ pModel w ps w']
    by (auto simp: WacomOpenSerialTablet_def split: bind_splits if_splits)
  then obtain v d s subs where o: "s_pVendor ps = Some v" "s_pDevice ps = Some d" "s_pSubType ps = Some s"
    "dv_pSubTypes d = Some subs" "s \<in> set subs" "d \<in> set (vn_pDevices v)" "v = xWacomVendor \<or> v = xtpcVendor"
    "st_pszIdent s \<noteq> ''PL-600SX''"
    by (auto simp: identity_ok_iff belongs_def split: option.splits)
  have "vn_pszDesc v = ''Wacom''" using o(7) by (auto simp: vendor_tables)
  moreover have "st_pszName s = st_pszIdent s"
    using o(4-7) by (auto simp: device_tables) (auto simp: subtype_tables)
  ultimately show ?thesis
    using ok o
    by (auto simp: SerialGetModel_def SerialGetVendorName_def SerialGetDeviceName_def SerialGetSubTypeName_def
        SerialGetModelName_def SerialGetCaps_def identity_ok_iff)
qed

theorem open_identified_witness:
  "\<exists>ps w'. WacomOpenSerialTablet 5 None (world0\<lparr>answers := open_script cintiq2\<rparr>) = Some (Some ps, w') \<and>
    SerialGetModel ps \<noteq> None \<and> SerialGetSubTypeName ps \<noteq> Some ''PL-600SX''"
proof -
  obtain ps w' where o: "WacomOpenSerialTablet 5 None (world0\<lparr>answers := open_script cintiq2\<rparr>) = Some (Some ps, w')"
    using open_served [OF devices_cooperative(3) resolves_None, of "world0\<lparr>answers := open_script cintiq2\<rparr>" "[]" 5] by auto
  with open_identified [OF o] show ?thesis by blast
qed

section \<open>Failures\<close>

text \<open>A protocol IV tablet whose ROM is not version 1.x is opened successfully, started, and then
  useless: it has no parser, so every packet, well formed or not, is refused with \<open>EINVAL\<close>.\<close>

theorem rom_not_1_never_parses:
  assumes "cooperative v" and "resolves pModel fnd" and "answers w = open_script v @ later"
    and "dv_nProtocol (fst (dev_entry v)) = PROTOCOL_4" and "dev_major v \<noteq> 1"
  shows "\<exists>ps w'. WacomOpenSerialTablet fd pModel w = Some (Some ps, w') \<and>
    (\<forall>buf n p. max 1 n \<le> length buf \<longrightarrow>
       (\<exists>k. SerialParseData ps buf n p = Some (fail EINVAL, ps\<lparr>s_nBitErrors := k\<rparr>, p)))"
proof -
  let ?ps = "initialised v (identified v (before_ident fnd (new_serial_tablet fd pModel)))"
  have "s_pfnParse ?ps = None"
    using initialised_parser(1) [OF assms(1), of "before_ident fnd (new_serial_tablet fd pModel)"] assms(4,5)
    by (simp add: parser_for_def)
  then have "\<exists>k. SerialParseData ?ps buf n p = Some (fail EINVAL, ?ps\<lparr>s_nBitErrors := k\<rparr>, p)"
    if "max 1 n \<le> length buf" for buf n p
    unfolding SerialParseData_in [OF that] by (auto simp del: initialised_simps)
  with open_served [OF assms(1-3), of fd] show ?thesis by blast
qed

theorem rom_not_1_never_parses_witness:
  "\<exists>ps w' k. WacomOpenSerialTablet 5 None (world0\<lparr>answers := open_script cintiq2 @ []\<rparr>) = Some (Some ps, w') \<and>
    SerialParseData ps [0xE0, 0, 0, 0, 0, 0, 0] 7 None = Some (fail EINVAL, ps\<lparr>s_nBitErrors := k\<rparr>, None)"
proof -
  have "\<exists>ps w'. WacomOpenSerialTablet 5 None (world0\<lparr>answers := open_script cintiq2 @ []\<rparr>) = Some (Some ps, w') \<and>
    (\<forall>buf n p. max 1 n \<le> length buf \<longrightarrow>
       (\<exists>k. SerialParseData ps buf n p = Some (fail EINVAL, ps\<lparr>s_nBitErrors := k\<rparr>, p)))"
    by (rule rom_not_1_never_parses [OF devices_cooperative(3) resolves_None])
       (simp_all add: cintiq2_def device_tables)
  moreover have "max 1 7 \<le> length [0xE0, 0, 0, 0, 0, 0, 0 :: u8]" by simp
  ultimately show ?thesis by blast
qed

text \<open>A reset that fails in the middle of a session leaves the handle half dismantled. When
  more than three bit errors have been counted and no model was requested, \<open>SerialReadRaw\<close> resets
  the tablet first; if the port no longer answers, the read reports a time-out, but the device and
  its vendor are gone from the handle, and asking it for its model, a name or its capabilities dereferences a
  null pointer.\<close>

theorem failed_reset_loses_identity:
  assumes "unat (s_uPacketLength ps) \<le> length buf" and "3 < sint (s_nBitErrors ps)"
    and "s_uPacketLength ps \<noteq> 0" and "uDevice (s_modelRequested ps) = 0" and "answers w = []"
  shows "\<exists>ps' w'. SerialReadRaw ps buf w = Some (-1, buf, ps', w') \<and> s_nBitErrors ps' = 0 \<and>
    SerialGetModel ps' = None \<and> SerialGetVendorName ps' = None \<and> SerialGetDeviceName ps' = None \<and>
    SerialGetSubTypeName ps' = None \<and> SerialGetModelName ps' = None \<and> SerialGetCaps ps' = None"
proof -
  let ?ps1 = "ps\<lparr>s_nBitErrors := 0\<rparr>"
  let ?ps2 = "?ps1\<lparr>s_pVendor := None, s_pDevice := None, s_pSubType := None, s_pfnIdent := Some SerialIdentDefault_fn\<rparr>"
  have f: "SerialFindModel (Some (s_modelRequested ps)) = Some (rc_ok, None, None, None)"
    using assms(4) by (simp add: SerialFindModel_def)
  have d: "SerialSetDevice ?ps1 (None, None, None) w = (0, ?ps2, w)" by (simp add: SerialSetDevice_def)
  obtain r2 w2 where c: "SerialConfigTTY ?ps2 w = (r2, w2)" by (cases "SerialConfigTTY ?ps2 w")
  have "sys_number s w = (-1, set_errno EIO (log_call s w))" for s
    using assms(5) by (simp add: sys_number_def next_answer_def)
  moreover have "SerialSendReset ?ps2 (log_call s (set_errno EIO w)) = (1, w')"
    if "w' = snd (SerialSendReset ?ps2 (log_call s (set_errno EIO w)))" for s w'
    using assms(5) that
    by (simp add: SerialSendReset_def SerialSend_def SerialSendRaw_step sys_write_def next_answer_def)
  ultimately have r2: "r2 \<noteq> 0" "answers w2 = []"
    using c assms(5)
    by (auto simp: SerialConfigTTY_def sys_isatty_def SerialSendReset_def SerialSend_def SerialSendRaw_step
        sys_write_def next_answer_def asc_def)
  have reset: "SerialReset ?ps1 (Some (s_modelRequested ?ps1)) w = Some (1, ?ps2, w2)"
    using r2(1) by (simp add: SerialReset_def f d c)
  have "0 < unat (s_uPacketLength ps)" using assms(3) by (simp add: unat_gt_0)
  then have "\<exists>w3. read_packet ?ps2 (unat (s_uPacketLength ps)) 0 buf w2 = (-1, buf, ?ps2, w3)"
    using r2(2) read_packet_timeout [of 0 "unat (s_uPacketLength ps)" ?ps2 w2 "-1"]
    by (simp add: sys_select_def sys_number_def next_answer_def)
  then obtain w3 where "SerialReadRaw ps buf w = Some (-1, buf, ?ps2, w3)"
    using assms(1,2) reset by (auto simp: SerialReadRaw_def Let_def)
  then show ?thesis
    by (auto simp: SerialGetModel_def SerialGetVendorName_def SerialGetDeviceName_def SerialGetSubTypeName_def
        SerialGetModelName_def SerialGetCaps_def)
qed

theorem failed_reset_loses_identity_witness:
  "\<exists>ps' w'. SerialReadRaw ((ready_tablet SerialParseWacomV_fn)\<lparr>s_uPacketLength := 9, s_nBitErrors := 4\<rparr>)
      (replicate 64 0) world0 = Some (-1, replicate 64 0, ps', w') \<and> s_nBitErrors ps' = 0 \<and>
    SerialGetModel ps' = None \<and> SerialGetVendorName ps' = None \<and> SerialGetDeviceName ps' = None \<and>
    SerialGetSubTypeName ps' = None \<and> SerialGetModelName ps' = None \<and> SerialGetCaps ps' = None"
  by (rule failed_reset_loses_identity)
     (simp_all add: ready_tablet_def new_serial_tablet_def zero_model_def world0_def)

section \<open>The tablet PC\<close>

definition tpc_tablet :: "int \<Rightarrow> WACOMMODEL \<Rightarrow> SERIALTABLET" where
  "tpc_tablet fd m =
     set_nMax WACOMFIELD_PRESSURE 255 (set_nMax WACOMFIELD_POSITION_Y 0x4800 (set_nMax WACOMFIELD_POSITION_X 0x6000
       ((new_serial_tablet fd (Some m))\<lparr>s_pVendor := Some xtpcVendor, s_pDevice := Some (xtpcDevices ! 0),
          s_pSubType := Some (xTabletPC ! 0), s_pfnIdent := Some SerialIdentTabletPC_fn,
          s_state := (s_state (new_serial_tablet fd (Some m)))\<lparr>uValid := TABLETPC_CAPS\<rparr>,
          s_uPacketLength := 9, s_pfnInit := Some SerialInitTabletPC_fn,
          s_nVerMajor := 0, s_nVerMinor := 0, s_nVerRelease := 0, s_pfnParse := Some SerialParseTabletPC_fn\<rparr>)))"

definition tpc_script :: "answer list" where "tpc_script = tty_script 2 @ [takes_all]"

definition tpc_bytes :: "u8 list" where "tpc_bytes = config_bytes 2 @ start_bytes"

definition asks_tpc :: "WACOMMODEL \<Rightarrow> bool" where
  "asks_tpc m \<longleftrightarrow> uDevice m = WACOMDEVICE_TPC \<and> (uVendor m = 0 \<or> uVendor m = WACOMVENDOR_TPC) \<and> uSubType m = 0"

lemma asks_tpc_found:
  "asks_tpc m \<Longrightarrow> SerialFindModel (Some m) = Some (rc_ok, Some xtpcVendor, Some (xtpcDevices ! 0), None)"
  by (auto simp: asks_tpc_def SerialFindModel_def vendor_tables device_tables)

lemma open_tpc_served:
  assumes "asks_tpc m" and "answers w = tpc_script @ later"
  shows "\<exists>w'. WacomOpenSerialTablet fd (Some m) w = Some (Some (tpc_tablet fd m), w') \<and> answers w' = later \<and>
    sent fd w' = sent fd w @ tpc_bytes"
proof -
  let ?n = "new_serial_tablet fd (Some m)"
  let ?d = "xtpcDevices ! 0"
  let ?ps1 = "?n\<lparr>s_pVendor := Some xtpcVendor, s_pDevice := Some ?d, s_pSubType := None,
    s_pfnIdent := Some SerialIdentTabletPC_fn\<rparr>"
  have dev: "dv_pfnIdent ?d = Some SerialIdentTabletPC_fn" "dv_nMinBaudRate ?d = 19200" "dv_pSubTypes ?d = Some xTabletPC"
    "dv_uCaps ?d = TABLETPC_CAPS" "dv_uPacketLength ?d = 9"
    by (simp_all add: device_tables)
  have s: "SerialSetDevice ?n (Some xtpcVendor, Some ?d, None) w = (0, ?ps1, w)"
    by (simp add: SerialSetDevice_def dev Let_def)
  have nb: "n_bauds ?ps1 = 2" "known_baud ?ps1" by (simp_all add: n_bauds_def known_baud_def dev)
  have "answers w = tty_script (n_bauds ?ps1) @ takes_all # later" using assms(2) nb by (simp add: tpc_script_def)
  from SerialConfigTTY_served [OF this nb(2)] nb(1) obtain w2 where
    c: "SerialConfigTTY ?ps1 w = (0, w2)" "served ?ps1 w (config_bytes 2) (takes_all # later) w2" by auto
  let ?t = "tpc_tablet fd m"
  have i: "\<exists>ps3. SerialIdentTabletPC ?ps1 w2 = Some (0, ps3, w2) \<and> s_pfnInit ps3 = Some SerialInitTabletPC_fn \<and>
      SerialInitTabletPC ps3 w2 = Some (0, ?t, w2)"
    by (simp add: SerialIdentTabletPC_def SerialInitTabletPC_def dev xTabletPC_def TPC_SUBTYPE_def tpc_tablet_def)
  have fd: "s_fd ?t = fd" by (simp add: tpc_tablet_def)
  have "answers w2 = takes_all # later" using c(2) by (simp add: served_def)
  from SerialSend_served [OF this, of "''ST'' @ [CR]" ?t] obtain w5 where
    st: "SerialSendStart ?t w2 = (0, w5)" "served ?t w2 start_bytes later w5"
    unfolding asc_CR SerialSendStart_def start_bytes_def by auto
  from i obtain ps3 where "SerialIdentTabletPC ?ps1 w2 = Some (0, ps3, w2)" "s_pfnInit ps3 = Some SerialInitTabletPC_fn"
    "SerialInitTabletPC ps3 w2 = Some (0, ?t, w2)" by blast
  then have "SerialReset ?n (Some m) w = Some (0, ?t, w5)"
    by (simp add: SerialReset_def asks_tpc_found [OF assms(1)] s c(1) st(1))
  then show ?thesis
    using c(2) st(2) fd by (simp add: WacomOpenSerialTablet_def served_def tpc_bytes_def)
qed

lemma tpc_tablet_simps [simp]:
  "wf_state (s_state (tpc_tablet fd m))" "s_pfnParse (tpc_tablet fd m) = Some SerialParseTabletPC_fn"
  "s_uPacketLength (tpc_tablet fd m) = 9" "s_nBitErrors (tpc_tablet fd m) = 0" "s_fd (tpc_tablet fd m) = fd"
  using new_serial_tablet_wf [of fd "Some m"] by (simp_all add: tpc_tablet_def wf_state_def)

section \<open>Sessions\<close>

text \<open>Reading one packet of a stream from a tablet without bit errors.\<close>

lemma read_one_packet:
  assumes "answers w = stream_script cs @ later" and "concat cs = junk @ pkt"
    and "\<forall>c\<in>set cs. 0 < length c \<and> length c \<le> 9" and "\<forall>b\<in>set junk. \<not> high_bit b" and "high_bit (hd pkt)"
    and "length pkt = 9" and "9 \<le> length buf" and "unat (s_uPacketLength ps) = 9" and "s_nBitErrors ps = 0"
  shows "\<exists>e w'. SerialReadRaw ps buf w = Some (9, pkt @ drop 9 buf, ps\<lparr>s_nBitErrors := e\<rparr>, w') \<and> answers w' = later"
  using read_packet_stream_aux [OF assms(1,3,2,4,6) _ assms(5,7), of ps] assms(7-9)
  by (auto simp: SerialReadRaw_def Let_def)

lemma head_high_bit: "d \<noteq> [] \<Longrightarrow> byte d 0 AND 0x80 \<noteq> 0 \<Longrightarrow> high_bit (hd d)"
  by (simp add: byte_def hd_conv_nth tst_simps bit_simps and_exp_eq_0_iff_not_bit [of _ 7, simplified])

text \<open>C1: A session with a protocol V tablet. From the first system call to the client's state: the
  tablet is opened and identified, then sends a packet, possibly after garbage and in pieces of any
  size; one \<open>SerialReadRaw\<close> and one \<open>SerialParseData\<close> give the client exactly the meaning of the packet
  for the tablet as it was opened.\<close>

theorem session_protocol_V:
  assumes "cooperative v" and "resolves pModel fnd" and "dv_nProtocol (fst (dev_entry v)) = PROTOCOL_5"
    and "answers w = open_script v @ stream_script cs @ later" and "concat cs = junk @ v_encode pkt"
    and "\<forall>c\<in>set cs. 0 < length c \<and> length c \<le> 9" and "\<forall>b\<in>set junk. \<not> high_bit b" and "wf_state st" and "9 \<le> length buf"
  shows "\<exists>ps w1 ps1 buf1 w2. WacomOpenSerialTablet fd pModel w = Some (Some ps, w1) \<and>
    SerialReadRaw ps buf w1 = Some (9, buf1, ps1, w2) \<and> answers w2 = later \<and>
    SerialParseData ps1 buf1 9 (Some st) = Some (rc_ok, v_meaning pkt ps, Some (s_state (v_meaning pkt ps)))"
proof -
  let ?pre = "before_ident fnd (new_serial_tablet fd pModel)"
  let ?ps = "initialised v (identified v ?pre)"
  have ps0: "wf_state (s_state ?pre)" "s_pfnParse ?pre = None" by simp_all
  note ps = initialised_parser [OF assms(1) ps0(2)]
  have p: "wf_state (s_state ?ps)" "s_pfnParse ?ps = Some SerialParseWacomV_fn" "unat (s_uPacketLength ?ps) = 9"
    "s_nBitErrors ?ps = 0"
    using initialised_wf [OF ps0(1)] unfolding ps by (simp_all add: parser_for_def packet_length_def assms(3))
  obtain w1 where 1: "WacomOpenSerialTablet fd pModel w = Some (Some ?ps, w1)" "answers w1 = stream_script cs @ later"
    using open_served [OF assms(1,2,4), of fd] by blast
  have len: "length (v_encode pkt) = 9" "v_encode pkt \<noteq> []" by (simp, metis length_0_conv v_encode_length zero_neq_numeral)
  obtain e w2 where 2: "SerialReadRaw ?ps buf w1 = Some (9, v_encode pkt @ drop 9 buf, ?ps\<lparr>s_nBitErrors := e\<rparr>, w2)"
    "answers w2 = later"
    using read_one_packet [OF 1(2) assms(5-7) head_high_bit [OF len(2) v_encode_head] len(1) assms(9) p(3,4)] by blast
  have "SerialParseData (?ps\<lparr>s_nBitErrors := e\<rparr>) (v_encode pkt @ drop 9 buf) 9 (Some st) =
      Some (rc_ok, v_meaning pkt (?ps\<lparr>s_nBitErrors := 0\<rparr>), Some (s_state (v_meaning pkt (?ps\<lparr>s_nBitErrors := 0\<rparr>))))"
    using V_packet_parsed [of "?ps\<lparr>s_nBitErrors := e\<rparr>" "Some st" "v_encode pkt @ drop 9 buf" pkt] p assms(8)
      len by (simp add: Let_def del: initialised_simps)
  moreover have "?ps\<lparr>s_nBitErrors := 0\<rparr> = ?ps" using p(4) by (cases ?ps) simp
  ultimately show ?thesis using 1 2 by metis
qed

theorem session_protocol_V_witness:
  "\<exists>ps w1 ps1 buf1 w2. WacomOpenSerialTablet 5 None (world0\<lparr>answers := open_script intuos @
        stream_script [[1, 2, 0xA2], take 4 (drop 1 (v_encode (V_Pen 1 2 600 0 0 True False))),
          drop 5 (v_encode (V_Pen 1 2 600 0 0 True False))] @ []\<rparr>) = Some (Some ps, w1) \<and>
    SerialReadRaw ps (replicate 64 0) w1 = Some (9, buf1, ps1, w2) \<and> answers w2 = [] \<and>
    SerialParseData ps1 buf1 9 (Some WACOMSTATE_INIT) =
      Some (rc_ok, v_meaning (V_Pen 1 2 600 0 0 True False) ps, Some (s_state (v_meaning (V_Pen 1 2 600 0 0 True False) ps)))"
  by (rule session_protocol_V [OF devices_cooperative(2) resolves_None, where junk = "[1, 2]"
        and cs = "[[1, 2, 0xA2], take 4 (drop 1 (v_encode (V_Pen 1 2 600 0 0 True False))),
          drop 5 (v_encode (V_Pen 1 2 600 0 0 True False))]"])
     (simp_all add: intuos_def device_tables v_frame_def)

end
