(* ===== verification/Linux_Input.thy ===== *)
theory Linux_Input
  imports World
begin

text \<open>
  The event interface of Linux that \<^verbatim>\<open>wacusb.c\<close>, \<^verbatim>\<open>wacom-input.c\<close> and
  \<^verbatim>\<open>tablet-mode.c\<close> use: the constants of \<^verbatim>\<open>linux/input.h\<close>, \<open>struct input_event\<close> with
  its bytes on a 64-bit little-endian machine, and bit sets filled by \<open>ioctl\<close>.
\<close>

section \<open>Constants\<close>

abbreviation (input) EV_SYN :: u16 where "EV_SYN \<equiv> 0x00"
abbreviation (input) EV_KEY :: u16 where "EV_KEY \<equiv> 0x01"
abbreviation (input) EV_REL :: u16 where "EV_REL \<equiv> 0x02"
abbreviation (input) EV_ABS :: u16 where "EV_ABS \<equiv> 0x03"
abbreviation (input) EV_MSC :: u16 where "EV_MSC \<equiv> 0x04"
abbreviation (input) EV_SW :: u16 where "EV_SW \<equiv> 0x05"
abbreviation (input) SYN_REPORT :: u16 where "SYN_REPORT \<equiv> 0"
abbreviation (input) MSC_SERIAL :: u16 where "MSC_SERIAL \<equiv> 0x00"
abbreviation (input) SW_LID :: u16 where "SW_LID \<equiv> 0x00"
abbreviation (input) SW_TABLET_MODE :: u16 where "SW_TABLET_MODE \<equiv> 0x01"
abbreviation (input) REL_WHEEL :: u16 where "REL_WHEEL \<equiv> 0x08"

abbreviation (input) ABS_X :: u16 where "ABS_X \<equiv> 0x00"
abbreviation (input) ABS_Y :: u16 where "ABS_Y \<equiv> 0x01"
abbreviation (input) ABS_RZ :: u16 where "ABS_RZ \<equiv> 0x05"
abbreviation (input) ABS_THROTTLE :: u16 where "ABS_THROTTLE \<equiv> 0x06"
abbreviation (input) ABS_WHEEL :: u16 where "ABS_WHEEL \<equiv> 0x08"
abbreviation (input) ABS_PRESSURE :: u16 where "ABS_PRESSURE \<equiv> 0x18"
abbreviation (input) ABS_DISTANCE :: u16 where "ABS_DISTANCE \<equiv> 0x19"
abbreviation (input) ABS_TILT_X :: u16 where "ABS_TILT_X \<equiv> 0x1a"
abbreviation (input) ABS_TILT_Y :: u16 where "ABS_TILT_Y \<equiv> 0x1b"

abbreviation (input) BTN_0 :: u16 where "BTN_0 \<equiv> 0x100"
abbreviation (input) BTN_LEFT :: u16 where "BTN_LEFT \<equiv> 0x110"
abbreviation (input) BTN_RIGHT :: u16 where "BTN_RIGHT \<equiv> 0x111"
abbreviation (input) BTN_MIDDLE :: u16 where "BTN_MIDDLE \<equiv> 0x112"
abbreviation (input) BTN_SIDE :: u16 where "BTN_SIDE \<equiv> 0x113"
abbreviation (input) BTN_EXTRA :: u16 where "BTN_EXTRA \<equiv> 0x114"
abbreviation (input) BTN_TOOL_PEN :: u16 where "BTN_TOOL_PEN \<equiv> 0x140"
abbreviation (input) BTN_TOOL_RUBBER :: u16 where "BTN_TOOL_RUBBER \<equiv> 0x141"
abbreviation (input) BTN_TOOL_BRUSH :: u16 where "BTN_TOOL_BRUSH \<equiv> 0x142"
abbreviation (input) BTN_TOOL_PENCIL :: u16 where "BTN_TOOL_PENCIL \<equiv> 0x143"
abbreviation (input) BTN_TOOL_AIRBRUSH :: u16 where "BTN_TOOL_AIRBRUSH \<equiv> 0x144"
abbreviation (input) BTN_TOOL_FINGER :: u16 where "BTN_TOOL_FINGER \<equiv> 0x145"
abbreviation (input) BTN_TOOL_MOUSE :: u16 where "BTN_TOOL_MOUSE \<equiv> 0x146"
abbreviation (input) BTN_TOOL_LENS :: u16 where "BTN_TOOL_LENS \<equiv> 0x147"
abbreviation (input) BTN_TOUCH :: u16 where "BTN_TOUCH \<equiv> 0x14a"
abbreviation (input) BTN_STYLUS :: u16 where "BTN_STYLUS \<equiv> 0x14b"
abbreviation (input) BTN_STYLUS2 :: u16 where "BTN_STYLUS2 \<equiv> 0x14c"
abbreviation (input) BTN_TOOL_DOUBLETAP :: u16 where "BTN_TOOL_DOUBLETAP \<equiv> 0x14d"

section \<open>struct input_event\<close>

text \<open>Every event the programs write has its time zeroed; the time of one they read is not used.\<close>

record input_event =
  ev_type :: u16
  ev_code :: u16
  ev_value :: s32

abbreviation (input) sizeof_input_event :: nat where "sizeof_input_event \<equiv> 24"

definition event :: "u16 \<Rightarrow> u16 \<Rightarrow> s32 \<Rightarrow> input_event" where
  "event t c v = \<lparr>ev_type = t, ev_code = c, ev_value = v\<rparr>"

lemma event_sel [simp]: "ev_type (event t c v) = t" "ev_code (event t c v) = c" "ev_value (event t c v) = v"
  by (simp_all add: event_def)

text \<open>The event in memory: sixteen bytes of time, the type, the code, the value.\<close>

definition event_bytes :: "input_event \<Rightarrow> u8 list" where
  "event_bytes ev = replicate 16 0 @ le16 (ev_type ev) @ le16 (ev_code ev) @ le32 (ev_value ev)"

definition event_at :: "u8 list \<Rightarrow> input_event" where
  "event_at b = \<lparr>ev_type = get16 b 16, ev_code = get16 b 18, ev_value = get32 b 20\<rparr>"

lemma length_event_bytes [simp]: "length (event_bytes ev) = sizeof_input_event"
  by (simp add: event_bytes_def le16_def le32_def)

lemma event_at_bytes [simp]: "event_at (event_bytes ev @ r) = ev"
  by (cases ev)
     (simp add: event_at_def event_bytes_def le16_def le32_def get16_def get32_def nth_append get_le16 get_le32)

lemma event_at_bytes' [simp]: "event_at (event_bytes ev) = ev"
  using event_at_bytes [of ev "[]"] by simp

section \<open>Bit sets\<close>

text \<open>
  \<open>ISBITSET\<close> and \<open>test_bit\<close> on an array of \<open>unsigned long\<close> in memory; a byte the kernel did
  not store is taken as zero.
\<close>

definition is_bit_set :: "u8 list \<Rightarrow> u16 \<Rightarrow> bool" where
  "is_bit_set bs y = (let i = unat y in i div 8 < length bs \<and> bit (bs ! (i div 8)) (i mod 8))"

text \<open>\<open>NBITS(x)\<close> words of 64 bits, in bytes.\<close>

definition sizeof_bits :: "nat \<Rightarrow> nat" where
  "sizeof_bits x = 8 * ((x - 1) div 64 + 1)"

end
