(* ===== verification/Usb_Tables.thy ===== *)
theory Usb_Tables
  imports Catalog Linux_Input
begin

text \<open>
  \<^verbatim>\<open>wacom/wacusb.c\<close>, the code under \<open>WCM_ENABLE_LINUXINPUT\<close>: the USB tablet object, the device
  tables, the functions that search them, and the functions of the other branch, which stand for
  USB support that is not compiled in. Names that \<^verbatim>\<open>wacserial.c\<close> uses too carry the prefix
  \<open>u\<close>.
\<close>

section \<open>Data\<close>

record USBSUBTYPE =
  us_pszName :: string
  us_pszDesc :: string
  us_uSubType :: u32
  us_uProduct :: u32

record USBDEVICE =
  ud_pszName :: string
  ud_pszDesc :: string
  ud_uDevice :: u32
  ud_pSubTypes :: "USBSUBTYPE list"
  ud_uChannelCnt :: nat

record USBVENDOR =
  uv_pszName :: string
  uv_pszDesc :: string
  uv_uVendor :: u32
  uv_pDevices :: "USBDEVICE list"

abbreviation (input) MAX_CHANNELS :: nat where "MAX_CHANNELS \<equiv> 2"
abbreviation (input) MAX_USB_EVENTS :: nat where "MAX_USB_EVENTS \<equiv> 32"

text \<open>The arrays \<open>state\<close>, \<open>nToolProx\<close> and \<open>events\<close> are lists of their declared lengths.\<close>

record USBTABLET =
  u_fd :: int
  u_pVendor :: "USBVENDOR option"
  u_pDevice :: "USBDEVICE option"
  u_pSubType :: "USBSUBTYPE option"
  u_nBus :: s32
  u_nVersion :: s32
  u_state :: "WACOMSTATE list"
  u_nToolProx :: "s32 list"
  u_nChannel :: nat
  u_nLastToolSerial :: s32
  u_nEventCnt :: nat
  u_events :: "input_event list"

text \<open>The object \<open>WacomOpenUSBTablet\<close> allocates, all zero but the descriptor.\<close>

definition zero_state :: WACOMSTATE where
  "zero_state = \<lparr>uValueCnt = 0, uValid = 0, values_arr = replicate WACOMFIELD_MAX zero_value\<rparr>"

definition new_usb_tablet :: "int \<Rightarrow> USBTABLET" where
  "new_usb_tablet fd =
    \<lparr>u_fd = fd, u_pVendor = None, u_pDevice = None, u_pSubType = None, u_nBus = 0, u_nVersion = 0,
     u_state = replicate MAX_CHANNELS zero_state, u_nToolProx = replicate MAX_CHANNELS 0, u_nChannel = 0,
     u_nLastToolSerial = 0, u_nEventCnt = 0, u_events = replicate MAX_USB_EVENTS (event 0 0 0)\<rparr>"

text \<open>The key codes a pad button may have.\<close>

definition padkey_codes :: "u16 list" where
  "padkey_codes =
    [0x100, 0x101, 0x102, 0x103, 0x104,
     0x105, 0x106, 0x107, 0x108, 0x109,
     0x130, 0x131, 0x132, 0x133, 0x134, 0x135,
     0x126, 0x127, 0x128,
     0x129, 0x12a, 0x12b,
     0x136, 0x137, 0x138, 0x139, 0x13a]"

section \<open>Tables\<close>

definition usb_subtype :: "string \<Rightarrow> string \<Rightarrow> u32 \<Rightarrow> u32 \<Rightarrow> USBSUBTYPE" where
  "usb_subtype n d s p = \<lparr>us_pszName = n, us_pszDesc = d, us_uSubType = s, us_uProduct = p\<rparr>"

definition usb_device :: "string \<Rightarrow> string \<Rightarrow> u32 \<Rightarrow> USBSUBTYPE list \<Rightarrow> nat \<Rightarrow> USBDEVICE" where
  "usb_device n d i s c = \<lparr>ud_pszName = n, ud_pszDesc = d, ud_uDevice = i, ud_pSubTypes = s, ud_uChannelCnt = c\<rparr>"

definition uxPenPartner :: "USBSUBTYPE list" where
  "uxPenPartner =
    [usb_subtype ''MODEL_PP_0405'' ''Wacom PenPartner'' 1 0x00]"

definition uxGraphire :: "USBSUBTYPE list" where
  "uxGraphire =
    [usb_subtype ''ET_0405'' ''Wacom Graphire'' 1 0x10]"

definition uxGraphire2 :: "USBSUBTYPE list" where
  "uxGraphire2 =
    [usb_subtype ''ET_0405'' ''Wacom Graphire2 4x5'' 1 0x11,
     usb_subtype ''ET_0507'' ''Wacom Graphire2 5x7'' 2 0x12]"

definition uxGraphire3 :: "USBSUBTYPE list" where
  "uxGraphire3 =
    [usb_subtype ''ET_0405'' ''Wacom Graphire3 4x5'' 1 0x13,
     usb_subtype ''ET_0608'' ''Wacom Graphire3 6x8'' 2 0x14]"

definition uxGraphire4 :: "USBSUBTYPE list" where
  "uxGraphire4 =
    [usb_subtype ''CTE_440'' ''Wacom Graphire4 4x5'' 1 0x15,
     usb_subtype ''CTE_640'' ''Wacom Graphire4 6x8'' 2 0x16]"

definition uxIntuos :: "USBSUBTYPE list" where
  "uxIntuos =
    [usb_subtype ''GD_0405-U'' ''Wacom Intuos 4x5'' 1 0x20,
     usb_subtype ''GD_0608-U'' ''Wacom Intuos 6x8'' 2 0x21,
     usb_subtype ''GD_0912-U'' ''Wacom Intuos 9x12'' 3 0x22,
     usb_subtype ''GD_1212-U'' ''Wacom Intuos 12x12'' 4 0x23,
     usb_subtype ''GD_1218-U'' ''Wacom Intuos 12x18'' 5 0x24]"

definition uxCintiq :: "USBSUBTYPE list" where
  "uxCintiq =
    [usb_subtype ''PL400'' ''Wacom PL400'' 1 0x30,
     usb_subtype ''PL500'' ''Wacom PL500'' 2 0x31,
     usb_subtype ''PL600'' ''Wacom PL600'' 3 0x32,
     usb_subtype ''PL600SX'' ''Wacom PL600SX'' 4 0x33,
     usb_subtype ''PL550'' ''Wacom PL550'' 5 0x34,
     usb_subtype ''PL800'' ''Wacom PL800'' 6 0x35,
     usb_subtype ''PL700'' ''Wacom PL700'' 7 0x37,
     usb_subtype ''PL510'' ''Wacom PL510'' 8 0x38,
     usb_subtype ''DTU710'' ''Wacom PL710'' 9 0x39,
     usb_subtype ''DTF720'' ''Wacom DTF720'' 10 0xC0,
     usb_subtype ''DTF521'' ''Wacom DTF521'' 11 0xC4,
     usb_subtype ''DTU1931'' ''Wacom DTU1931'' 12 0xC7,
     usb_subtype ''DTU2231'' ''Wacom DTU2231'' 13 0xCE,
     usb_subtype ''DTU1631'' ''Wacom DTU1631'' 14 0xF0]"

definition uxIntuos2 :: "USBSUBTYPE list" where
  "uxIntuos2 =
    [usb_subtype ''XD-0405-U'' ''Wacom Intuos2 4x5'' 1 0x41,
     usb_subtype ''XD-0608-U'' ''Wacom Intuos2 6x8'' 2 0x42,
     usb_subtype ''XD-0912-U'' ''Wacom Intuos2 9x12'' 3 0x43,
     usb_subtype ''XD-1212-U'' ''Wacom Intuos2 12x12'' 4 0x44,
     usb_subtype ''XD-1218-U'' ''Wacom Intuos2 12x18'' 5 0x45,
     usb_subtype ''XD-0608-U'' ''Wacom Intuos2 6x8'' 2 0x47]"

definition uxVolito :: "USBSUBTYPE list" where
  "uxVolito =
    [usb_subtype ''MODEL-VOL'' ''Wacom Volito'' 1 0x60]"

definition uxVolito2 :: "USBSUBTYPE list" where
  "uxVolito2 =
    [usb_subtype ''FT-0203-U'' ''Wacom PenStation'' 1 0x61,
     usb_subtype ''CTF-420-U'' ''Wacom Volito2 4x5'' 2 0x62,
     usb_subtype ''CTF-220-U'' ''Wacom Volito2 2x3'' 3 0x63,
     usb_subtype ''CTF-421-U'' ''Wacom PenPartner2'' 4 0x64,
     usb_subtype ''CTF_430-U'' ''Wacom Bamboo1'' 5 0x69]"

definition uxBamboo :: "USBSUBTYPE list" where
  "uxBamboo =
    [usb_subtype ''MTE_450'' ''Wacom Bamboo'' 1 0x65,
     usb_subtype ''CTE_450'' ''Wacom BambooFun 4x5'' 2 0x17,
     usb_subtype ''CTE_650'' ''Wacom BambooFun 6x8'' 3 0x18,
     usb_subtype ''CTE_631'' ''Wacom Bamboo1 Medium'' 4 0x19]"

definition uxCintiqPartner :: "USBSUBTYPE list" where
  "uxCintiqPartner =
    [usb_subtype ''PTU-600'' ''Wacom Cintiq Partner'' 1 0x03]"

definition uxTabletPC :: "USBSUBTYPE list" where
  "uxTabletPC =
    [usb_subtype ''TPC-090'' ''Wacom Tablet PC90'' 1 0x90,
     usb_subtype ''TPC-093'' ''Wacom Tablet PC93'' 2 0x93,
     usb_subtype ''TPC-09A'' ''Wacom Tablet PC9A'' 3 0x9A]"

definition uxCintiqV5 :: "USBSUBTYPE list" where
  "uxCintiqV5 =
    [usb_subtype ''DTZ-21ux'' ''Wacom Cintiq 21UX'' 1 0x3F,
     usb_subtype ''DTZ-20wsx'' ''Wacom Cintiq 20WSX'' 2 0xC5,
     usb_subtype ''DTZ-12wx'' ''Wacom Cintiq 12WX'' 3 0xC6,
     usb_subtype ''DTZ-21ux2'' ''Wacom Cintiq 21UX2'' 4 0xCC]"

definition uxIntuos3 :: "USBSUBTYPE list" where
  "uxIntuos3 =
    [usb_subtype ''PTZ-430'' ''Wacom Intuos3 4x5'' 1 0xB0,
     usb_subtype ''PTZ-630'' ''Wacom Intuos3 6x8'' 2 0xB1,
     usb_subtype ''PTZ-930'' ''Wacom Intuos3 9x12'' 3 0xB2,
     usb_subtype ''PTZ-1230'' ''Wacom Intuos3 12x12'' 4 0xB3,
     usb_subtype ''PTZ-1231W'' ''Wacom Intuos3 12x19'' 5 0xB4,
     usb_subtype ''PTZ-631W'' ''Wacom Intuos3 6x11'' 6 0xB5,
     usb_subtype ''PTZ-431W'' ''Wacom Intuos3 4x6'' 7 0xB7]"

definition uxIntuos4 :: "USBSUBTYPE list" where
  "uxIntuos4 =
    [usb_subtype ''PTK-440'' ''Wacom Intuos4 4x6'' 1 0xB8,
     usb_subtype ''PTK-640'' ''Wacom Intuos4 6x9'' 2 0xB9,
     usb_subtype ''PTK-840'' ''Wacom Intuos4 8x13'' 3 0xBA,
     usb_subtype ''PTK-1240'' ''Wacom Intuos4 12x19'' 4 0xBB,
     usb_subtype ''PTK-540WL'' ''Wacom Intuos4 WLUSB'' 5 0xBC,
     usb_subtype ''PTK-540WL'' ''Wacom Intuos4 WLBT'' 6 0xBD]"

definition uxWacomDevices :: "USBDEVICE list" where
  "uxWacomDevices =
    [usb_device ''pp'' ''PenPartner'' WACOMDEVICE_PENPARTNER uxPenPartner 1,
     usb_device ''gr'' ''Graphire'' WACOMDEVICE_GRAPHIRE uxGraphire 1,
     usb_device ''gr2'' ''Graphire2'' WACOMDEVICE_GRAPHIRE2 uxGraphire2 1,
     usb_device ''gr3'' ''Graphire3'' WACOMDEVICE_GRAPHIRE3 uxGraphire3 1,
     usb_device ''gr4'' ''Graphire4'' WACOMDEVICE_GRAPHIRE4 uxGraphire4 2,
     usb_device ''int'' ''Intuos'' WACOMDEVICE_INTUOS uxIntuos 2,
     usb_device ''int2'' ''Intuos2'' WACOMDEVICE_INTUOS2 uxIntuos2 2,
     usb_device ''int3'' ''Intuos3'' WACOMDEVICE_INTUOS3 uxIntuos3 2,
     usb_device ''int4'' ''Intuos4'' WACOMDEVICE_INTUOS3 uxIntuos4 2,
     usb_device ''ctq'' ''Cintiq (V5)'' WACOMDEVICE_CINTIQV5 uxCintiqV5 2,
     usb_device ''pl'' ''Cintiq (PL)'' WACOMDEVICE_CINTIQ uxCintiq 1,
     usb_device ''ptu'' ''Cintiq Partner (PTU)'' WACOMDEVICE_PTU uxCintiqPartner 1,
     usb_device ''vol'' ''Volito'' WACOMDEVICE_VOLITO uxVolito 1,
     usb_device ''vol2'' ''Volito2'' WACOMDEVICE_VOLITO2 uxVolito2 1,
     usb_device ''mo'' ''Bamboo'' WACOMDEVICE_MO uxBamboo 2,
     usb_device ''tpc'' ''Tablet PC'' WACOMDEVICE_TPC uxTabletPC 1]"

lemmas usb_subtype_tables = uxPenPartner_def uxGraphire_def uxGraphire2_def uxGraphire3_def uxGraphire4_def uxIntuos_def uxCintiq_def uxIntuos2_def uxVolito_def uxVolito2_def uxBamboo_def uxCintiqPartner_def uxTabletPC_def uxCintiqV5_def uxIntuos3_def uxIntuos4_def usb_subtype_def

lemmas usb_device_tables = uxWacomDevices_def usb_device_def

definition uxVendors :: "USBVENDOR list" where
  "uxVendors = [\<lparr>uv_pszName = ''wacom'', uv_pszDesc = ''Wacom'', uv_uVendor = WACOMVENDOR_WACOM,
     uv_pDevices = uxWacomDevices\<rparr>]"

text \<open>The entries for a tablet that is in none of the tables.\<close>

definition xUnkSub :: "USBSUBTYPE list" where
  "xUnkSub = [usb_subtype ''UNKNOWN'' ''Unknown'' 1 0x00]"

definition xUnkDev :: "USBDEVICE list" where
  "xUnkDev = [usb_device ''unk'' ''Unknown'' WACOMDEVICE_UNKNOWN xUnkSub MAX_CHANNELS]"

definition xUnkVendor :: USBVENDOR where
  "xUnkVendor = \<lparr>uv_pszName = ''unknown'', uv_pszDesc = ''Unknown'', uv_uVendor = WACOMVENDOR_UNKNOWN,
     uv_pDevices = xUnkDev\<rparr>"

section \<open>The supported-device list and the names\<close>

definition usb_devrec :: "USBVENDOR \<Rightarrow> USBDEVICE \<Rightarrow> WACOMDEVICEREC" where
  "usb_devrec v d =
    \<lparr>dr_pszName = ud_pszName d, dr_pszDesc = ud_pszDesc d, dr_pszVendorName = uv_pszName v,
     dr_pszVendorDesc = uv_pszDesc v, dr_pszClass = ''usb'',
     dr_model = \<lparr>uClass = WACOMCLASS_USB, uVendor = uv_uVendor v, uDevice = ud_uDevice d, uSubType = 0\<rparr>\<rparr>"

fun usb_count :: "USBVENDOR list \<Rightarrow> nat" where
  "usb_count [] = 0"
| "usb_count (v # vs) = length (uv_pDevices v) + usb_count vs"

fun usb_fill :: "USBVENDOR list \<Rightarrow> WACOMDEVICEREC list" where
  "usb_fill [] = []"
| "usb_fill (v # vs) = map (usb_devrec v) (uv_pDevices v) @ usb_fill vs"

definition WacomGetSupportedUSBDeviceList ::
  "bool \<Rightarrow> bool \<Rightarrow> (rc \<times> (WACOMDEVICEREC list \<times> nat) option) option" where
  "WacomGetSupportedUSBDeviceList ppList pnSize =
     (if \<not> ppList \<or> \<not> pnSize then Some (fail EINVAL, None)
      else (let nCnt = usb_count uxVendors; recs = usb_fill uxVendors
            in if length recs = nCnt then Some (rc_ok, Some (recs, nCnt)) else None))"

fun usb_name_lookup :: "string \<Rightarrow> USBVENDOR list \<Rightarrow> USBDEVICE option" where
  "usb_name_lookup n [] = None"
| "usb_name_lookup n (v # vs) =
     (case find (\<lambda>d. strcasecmp_eq n (ud_pszName d)) (uv_pDevices v) of
        Some d \<Rightarrow> Some d | None \<Rightarrow> usb_name_lookup n vs)"

definition WacomGetUSBDeviceFromName :: "string option \<Rightarrow> u32 \<times> errno option" where
  "WacomGetUSBDeviceFromName pszName =
     (case pszName of None \<Rightarrow> (0, Some EINVAL)
      | Some n \<Rightarrow> (case usb_name_lookup n uxVendors of
                     Some d \<Rightarrow> (ud_uDevice d, None) | None \<Rightarrow> (0, Some ENOENT)))"

section \<open>Without USB support\<close>

text \<open>The other branch of the \<open>#ifdef\<close>; a null list is the empty one.\<close>

definition no_usb_WacomGetUSBDeviceFromName :: "string option \<Rightarrow> u32 \<times> errno option" where
  "no_usb_WacomGetUSBDeviceFromName pszName = (0, Some ENOENT)"

definition no_usb_WacomGetSupportedUSBDeviceList ::
  "bool \<Rightarrow> bool \<Rightarrow> (rc \<times> (WACOMDEVICEREC list \<times> nat) option) option" where
  "no_usb_WacomGetSupportedUSBDeviceList ppList pnSize =
     (if \<not> ppList \<or> \<not> pnSize then Some (fail EINVAL, None) else Some (rc_ok, Some ([], 0)))"

definition no_usb_WacomOpenUSBTablet :: "int \<Rightarrow> world \<Rightarrow> USBTABLET option \<times> world" where
  "no_usb_WacomOpenUSBTablet fd w = (None, set_errno EPERM w)"

section \<open>USBFindModel\<close>

text \<open>The first device of the vendor with a subtype of this product number.\<close>

fun find_product :: "u32 \<Rightarrow> USBDEVICE list \<Rightarrow> (USBDEVICE \<times> USBSUBTYPE) option" where
  "find_product p [] = None"
| "find_product p (d # ds) =
     (case find (\<lambda>s. us_uProduct s = p) (ud_pSubTypes d) of
        Some s \<Rightarrow> Some (d, s) | None \<Rightarrow> find_product p ds)"

text \<open>It always returns 0.\<close>

definition USBFindModel :: "USBTABLET \<Rightarrow> u32 \<Rightarrow> u32 \<Rightarrow> USBTABLET" where
  "USBFindModel pUSB vendor product =
     (let known = (case find (\<lambda>v. uv_uVendor v = vendor) uxVendors of
                     None \<Rightarrow> None
                   | Some v \<Rightarrow> map_option (\<lambda>(d, s). (v, d, s)) (find_product product (uv_pDevices v)))
      in case known of
           Some (v, d, s) \<Rightarrow> pUSB\<lparr>u_pVendor := Some v, u_pDevice := Some d, u_pSubType := Some s\<rparr>
         | None \<Rightarrow> pUSB\<lparr>u_pVendor := Some xUnkVendor, u_pDevice := Some (xUnkDev ! 0), u_pSubType := Some (xUnkSub ! 0)\<rparr>)"

section \<open>The list and the names agree\<close>

lemma usb_count_fill: "length (usb_fill vs) = usb_count vs"
  by (induction vs) simp_all

definition usb_recs :: "WACOMDEVICEREC list" where
  "usb_recs = usb_fill uxVendors"

lemma usb_list_succeeds: "WacomGetSupportedUSBDeviceList True True = Some (rc_ok, Some (usb_recs, length usb_recs))"
  by (simp add: WacomGetSupportedUSBDeviceList_def Let_def usb_count_fill usb_recs_def)

lemma usb_listed_class:
  "list_all (\<lambda>r. uClass (dr_model r) = WACOMCLASS_USB \<and> uDevice (dr_model r) \<noteq> 0) usb_recs"
  by code_simp

lemma usb_lookup_listed:
  "list_all (\<lambda>r. WacomGetUSBDeviceFromName (Some (dr_pszName r)) = (uDevice (dr_model r), None)) usb_recs"
  by code_simp

lemma usb_name_lookup_Some:
  "usb_name_lookup n vs = Some d \<Longrightarrow> \<exists>r\<in>set (usb_fill vs). strcasecmp_eq n (dr_pszName r) \<and> uDevice (dr_model r) = ud_uDevice d"
proof (induction vs)
  case (Cons v vs)
  show ?case
  proof (cases "find (\<lambda>d. strcasecmp_eq n (ud_pszName d)) (uv_pDevices v)")
    case None
    then show ?thesis using Cons by auto
  next
    case (Some d')
    then have "d' \<in> set (uv_pDevices v)" "strcasecmp_eq n (ud_pszName d')" "d = d'"
      using Cons.prems find_SomeD [OF Some] by auto
    then show ?thesis by (intro bexI [of _ "usb_devrec v d'"]) (auto simp: usb_devrec_def)
  qed
qed simp

lemma usb_name_lookup_None:
  "usb_name_lookup n vs = None \<Longrightarrow> \<forall>r\<in>set (usb_fill vs). \<not> strcasecmp_eq n (dr_pszName r)"
  by (induction vs) (auto simp: usb_devrec_def find_None_iff split: option.splits)

interpretation usb_catalog: device_catalog usb_recs WacomGetUSBDeviceFromName WACOMCLASS_USB
proof unfold_locales
  show "uClass (dr_model r) = WACOMCLASS_USB \<and> uDevice (dr_model r) \<noteq> 0" if "r \<in> set usb_recs" for r
    using that usb_listed_class by (auto simp: list_all_iff)
  show "WacomGetUSBDeviceFromName (Some (dr_pszName r)) = (uDevice (dr_model r), None)" if "r \<in> set usb_recs" for r
    using that usb_lookup_listed by (auto simp: list_all_iff)
  show "(e = None \<and> (\<exists>r\<in>set usb_recs. strcasecmp_eq n (dr_pszName r) \<and> d = uDevice (dr_model r))) \<or>
      (e = Some ENOENT \<and> d = 0 \<and> (\<forall>r\<in>set usb_recs. \<not> strcasecmp_eq n (dr_pszName r)))"
    if "WacomGetUSBDeviceFromName (Some n) = (d, e)" for n d e
    using that usb_name_lookup_Some [of n uxVendors] usb_name_lookup_None [of n uxVendors]
    by (auto simp: WacomGetUSBDeviceFromName_def usb_recs_def split: option.splits)
  show "WacomGetUSBDeviceFromName None = (0, Some EINVAL)"
    by (simp add: WacomGetUSBDeviceFromName_def)
qed

text \<open>Every USB product is identified as itself. For each subtype of each device of the tables,
  \<open>USBFindModel\<close> with its product number and the vendor's number finds exactly that device and that
  subtype: no product number occurs twice.\<close>

theorem usb_products_distinct:
  assumes "v \<in> set uxVendors" and "d \<in> set (uv_pDevices v)" and "s \<in> set (ud_pSubTypes d)"
  shows "USBFindModel pUSB (uv_uVendor v) (us_uProduct s) =
    pUSB\<lparr>u_pVendor := Some v, u_pDevice := Some d, u_pSubType := Some s\<rparr>"
proof -
  have "list_all (\<lambda>v. list_all (\<lambda>d. list_all (\<lambda>s.
      find (\<lambda>v'. uv_uVendor v' = uv_uVendor v) uxVendors = Some v \<and>
      find_product (us_uProduct s) (uv_pDevices v) = Some (d, s)) (ud_pSubTypes d)) (uv_pDevices v)) uxVendors"
    by code_simp
  with assms show ?thesis
    by (auto simp: list_all_iff USBFindModel_def Let_def)
qed

theorem usb_products_distinct_witness:
  "USBFindModel (new_usb_tablet 3) (uv_uVendor (uxVendors ! 0)) (us_uProduct (uxIntuos4 ! 4)) =
    (new_usb_tablet 3)\<lparr>u_pVendor := Some (uxVendors ! 0), u_pDevice := Some (uxWacomDevices ! 8),
      u_pSubType := Some (uxIntuos4 ! 4)\<rparr>"
  by (rule usb_products_distinct) (simp_all add: uxVendors_def usb_device_tables uxIntuos4_def)

end
