(* ===== verification/Usb_Driver.thy ===== *)
theory Usb_Driver
  imports Usb_Tables
begin

text \<open>
  \<^verbatim>\<open>wacom/wacusb.c\<close>, the driver: identification of the device by \<open>ioctl\<close>, reading and
  parsing of its events. The pad keys found at identification are the globals \<open>gPadKeys\<close> and
  \<open>gNumPadKeys\<close>; here they are the list of the keys found. \<open>None\<close> is undefined behaviour or a
  failed \<open>assert\<close>.
\<close>

section \<open>Access to the channels\<close>

abbreviation chan_state :: "USBTABLET \<Rightarrow> WACOMSTATE" where
  "chan_state pUSB \<equiv> u_state pUSB ! u_nChannel pUSB"

abbreviation chan_prox :: "USBTABLET \<Rightarrow> s32" where
  "chan_prox pUSB \<equiv> u_nToolProx pUSB ! u_nChannel pUSB"

definition upd_state :: "(WACOMSTATE \<Rightarrow> WACOMSTATE) \<Rightarrow> USBTABLET \<Rightarrow> USBTABLET" where
  "upd_state f pUSB = pUSB\<lparr>u_state := (u_state pUSB)[u_nChannel pUSB := f (chan_state pUSB)]\<rparr>"

definition upd_prox :: "(s32 \<Rightarrow> s32) \<Rightarrow> USBTABLET \<Rightarrow> USBTABLET" where
  "upd_prox f pUSB = pUSB\<lparr>u_nToolProx := (u_nToolProx pUSB)[u_nChannel pUSB := f (chan_prox pUSB)]\<rparr>"

abbreviation chan_set :: "nat \<Rightarrow> s32 \<Rightarrow> USBTABLET \<Rightarrow> USBTABLET" where
  "chan_set f v pUSB \<equiv> upd_state (put_nValue f v) pUSB"

abbreviation chan_get :: "nat \<Rightarrow> USBTABLET \<Rightarrow> s32" where
  "chan_get f pUSB \<equiv> get_nValue f (chan_state pUSB)"

section \<open>Identification\<close>

text \<open>
  \<open>EVIOCGABS\<close> stores five integers: value, minimum, maximum, fuzz, flat. Bytes an \<open>ioctl\<close> did
  not store are uninitialised in C; they are taken as zero.
\<close>

definition padded :: "u8 list \<Rightarrow> u8 list" where
  "padded d = d @ replicate 24 0"

definition USBGetRange :: "USBTABLET \<Rightarrow> u8 list \<Rightarrow> u16 \<Rightarrow> nat \<Rightarrow> world \<Rightarrow> int \<times> USBTABLET \<times> world" where
  "USBGetRange pUSB pBits nAbsField uField w =
     (if \<not> is_bit_set pBits nAbsField then (0, pUSB, w)
      else (let (r, d, w1) = sys_ioctl (u_fd pUSB) (EVIOCGABS (unat nAbsField)) w
            in if r \<noteq> 0 then (1, pUSB, w1)
               else (let st = u_state pUSB ! 0;
                         st1 = put_nMin uField (get32 (padded d) 4) st;
                         st2 = put_nMax uField (get32 (padded d) 8) st1;
                         st3 = st2\<lparr>uValid := uValid st2 OR BIT uField\<rparr>
                     in (0, pUSB\<lparr>u_state := (u_state pUSB)[0 := st3]\<rparr>, w1))))"

text \<open>The chain of \<open>||\<close> over the fields: it stops at the first that fails.\<close>

fun get_ranges :: "USBTABLET \<Rightarrow> u8 list \<Rightarrow> (u16 \<times> nat) list \<Rightarrow> world \<Rightarrow> int \<times> USBTABLET \<times> world" where
  "get_ranges pUSB bits [] w = (0, pUSB, w)"
| "get_ranges pUSB bits ((a, f) # fs) w =
     (let (r, p1, w1) = USBGetRange pUSB bits a f w
      in if r \<noteq> 0 then (1, p1, w1) else get_ranges p1 bits fs w1)"

definition range_fields :: "(u16 \<times> nat) list" where
  "range_fields =
    [(ABS_X, WACOMFIELD_POSITION_X), (ABS_Y, WACOMFIELD_POSITION_Y), (ABS_RZ, WACOMFIELD_ROTATION_Z),
     (ABS_DISTANCE, WACOMFIELD_DISTANCE), (ABS_PRESSURE, WACOMFIELD_PRESSURE), (ABS_TILT_X, WACOMFIELD_TILT_X),
     (ABS_TILT_Y, WACOMFIELD_TILT_Y), (ABS_WHEEL, WACOMFIELD_ABSWHEEL), (ABS_THROTTLE, WACOMFIELD_THROTTLE)]"

text \<open>
  The loop that detects the pad keys runs \<open>nCnt\<close> from 0 to \<open>WACOMBUTTON_MAX - 1\<close> over the array
  \<open>padkey_codes\<close>; an index outside the array is undefined.
\<close>

fun detect_padkeys :: "u8 list \<Rightarrow> nat list \<Rightarrow> u16 list option" where
  "detect_padkeys bits [] = Some []"
| "detect_padkeys bits (i # is) =
     (if length padkey_codes \<le> i then None
      else do {
        keys \<leftarrow> detect_padkeys bits is;
        Some (if is_bit_set bits (padkey_codes ! i) then padkey_codes ! i # keys else keys)
      })"

definition add_valid :: "u32 \<Rightarrow> USBTABLET \<Rightarrow> USBTABLET" where
  "add_valid m pUSB =
     pUSB\<lparr>u_state := (u_state pUSB)[0 := (u_state pUSB ! 0)\<lparr>uValid := uValid (u_state pUSB ! 0) OR m\<rparr>]\<rparr>"

text \<open>
  The part of \<open>USBIdentifyModel\<close> for each kind of event: \<open>ident_abs\<close>, \<open>ident_rel\<close>, \<open>ident_key\<close>.
  A result other than 0 is \<open>return 1\<close>.
\<close>

definition ident_abs :: "USBTABLET \<Rightarrow> u8 list \<Rightarrow> world \<Rightarrow> int \<times> USBTABLET \<times> world" where
  "ident_abs pUSB evbits w =
     (if is_bit_set evbits EV_ABS then
        (let (n, absbits, w1) = sys_ioctl (u_fd pUSB) (EVIOCGBIT 3 (sizeof_bits 0x3f)) w
         in if n < 0 then (1, pUSB, w1) else get_ranges pUSB absbits range_fields w1)
      else (0, pUSB, w))"

definition ident_rel :: "USBTABLET \<Rightarrow> u8 list \<Rightarrow> world \<Rightarrow> (int \<times> USBTABLET \<times> world) option" where
  "ident_rel pUSB evbits w =
     (if is_bit_set evbits EV_REL then
        (let (n, relbits, w1) = sys_ioctl (u_fd pUSB) (EVIOCGBIT 2 (sizeof_bits 0x0f)) w
         in if n < 0 then Some (1, pUSB, w1)
            else if n \<noteq> int (sizeof_bits 0x0f) then None
            else Some (0, if is_bit_set relbits REL_WHEEL
                          then (let p1 = add_valid (BIT WACOMFIELD_RELWHEEL) pUSB
                                in p1\<lparr>u_state := (u_state p1)[0 := put_nMax WACOMFIELD_RELWHEEL 1
                                       (put_nMin WACOMFIELD_RELWHEEL (- 1) (u_state p1 ! 0))]\<rparr>)
                          else pUSB, w1))
      else Some (0, pUSB, w))"

definition ident_key ::
  "USBTABLET \<Rightarrow> u8 list \<Rightarrow> world \<Rightarrow> (int \<times> USBTABLET \<times> u16 list \<times> world) option" where
  "ident_key pUSB evbits w =
     (if is_bit_set evbits EV_KEY then
        (let (n, keybits, w1) = sys_ioctl (u_fd pUSB) (EVIOCGBIT 1 (sizeof_bits 0x2ff)) w
         in if n < 0 then Some (1, pUSB, [], w1)
            else if n \<noteq> int (sizeof_bits 0x2ff) then None
            else (let p1 = (if \<exists>b\<in>set [BTN_LEFT, BTN_RIGHT, BTN_MIDDLE, BTN_SIDE, BTN_EXTRA]. is_bit_set keybits b
                            then add_valid (BIT WACOMFIELD_BUTTONS) pUSB else pUSB);
                      p2 = (if \<exists>b\<in>set [BTN_TOOL_PEN, BTN_TOOL_RUBBER, BTN_TOOL_BRUSH, BTN_TOOL_PENCIL, BTN_TOOL_AIRBRUSH,
                                      BTN_TOOL_FINGER, BTN_TOOL_MOUSE, BTN_TOOL_LENS, BTN_TOOL_DOUBLETAP]. is_bit_set keybits b
                            then add_valid (BIT WACOMFIELD_PROXIMITY OR BIT WACOMFIELD_TOOLTYPE) p1 else p1)
                  in do {
                    keys \<leftarrow> detect_padkeys keybits [0..<WACOMBUTTON_MAX];
                    Some (0, p2, keys, w1)
                  }))
      else Some (0, pUSB, [], w))"

text \<open>\<open>sID\<close> is four \<open>short\<close>s, so the vendor and product numbers are sign-extended.\<close>

definition USBIdentifyModel :: "USBTABLET \<Rightarrow> world \<Rightarrow> (int \<times> USBTABLET \<times> u16 list \<times> world) option" where
  "USBIdentifyModel pUSB w =
     (let (r, ids, w1) = sys_ioctl (u_fd pUSB) EVIOCGID w
      in if r < 0 then Some (1, pUSB, [], w1)
         else
           (let p1 = pUSB\<lparr>u_state := (u_state pUSB)[0 := (u_state pUSB ! 0)\<lparr>uValueCnt := of_nat WACOMFIELD_MAX\<rparr>]\<rparr>;
                (n, evbits, w2) = sys_ioctl (u_fd pUSB) (EVIOCGBIT 0 (sizeof_bits 0x1f)) w1
            in if n < 0 then Some (1, p1, [], w2)
               else if n \<noteq> int (sizeof_bits 0x1f) then None
               else
                 (let (ra, p2, w3) = ident_abs p1 evbits w2
                  in if ra \<noteq> 0 then Some (1, p2, [], w3)
                     else do {
                       (rr, p3, w4) \<leftarrow> ident_rel p2 evbits w3;
                       if rr \<noteq> 0 then Some (1, p3, [], w4)
                       else do {
                         (rk, p4, keys, w5) \<leftarrow> ident_key p3 evbits w4;
                         if rk \<noteq> 0 then Some (1, p4, [], w5)
                         else do {
                           let p5 = p4\<lparr>u_nBus := scast (get16 (padded ids) 0), u_nVersion := scast (get16 (padded ids) 6)\<rparr>;
                           let p6 = USBFindModel p5 (scast (get16 (padded ids) 2)) (scast (get16 (padded ids) 4));
                           dev \<leftarrow> u_pDevice p6;
                           let p7 = (if ud_uDevice dev \<in> {WACOMDEVICE_MO, WACOMDEVICE_GRAPHIRE4, WACOMDEVICE_INTUOS,
                                        WACOMDEVICE_INTUOS2, WACOMDEVICE_INTUOS3, WACOMDEVICE_CINTIQV5}
                                     then add_valid (BIT WACOMFIELD_SERIAL) p6 else p6);
                           Some (0, p7\<lparr>u_state := map (\<lambda>_. u_state p7 ! 0) (u_state p7)\<rparr>, keys, w5)
                         }
                       }
                     })))"

text \<open>The tablet (\<open>None\<close> for \<open>NULL\<close>) with the pad keys.\<close>

definition WacomOpenUSBTablet :: "int \<Rightarrow> world \<Rightarrow> ((USBTABLET \<times> u16 list) option \<times> world) option" where
  "WacomOpenUSBTablet fd w = do {
     (r, p, keys, w1) \<leftarrow> USBIdentifyModel (new_usb_tablet fd) w;
     Some (if r \<noteq> 0 then None else Some (p, keys), w1)
   }"

section \<open>Reading\<close>

function read_event :: "USBTABLET \<Rightarrow> nat \<Rightarrow> u8 list \<Rightarrow> world \<Rightarrow> int \<times> u8 list \<times> world" where
  "read_event pUSB uCnt buf w =
     (if uCnt < sizeof_input_event then
        (let (nXfer, d, w1) = sys_read (u_fd pUSB) (sizeof_input_event - uCnt) w
         in if nXfer \<le> 0 then (nXfer, buf, w1)
            else read_event pUSB (uCnt + nat nXfer) (take uCnt buf @ d @ drop (uCnt + length d) buf) w1)
      else (int uCnt, buf, w))"
  by pat_completeness auto

termination
  by (relation "measure (\<lambda>(p, uCnt, buf, w). sizeof_input_event - uCnt)") auto

declare read_event.simps [simp del]

definition USBReadRaw :: "USBTABLET \<Rightarrow> u8 list \<Rightarrow> world \<Rightarrow> int \<times> u8 list \<times> world" where
  "USBReadRaw pUSB buf w =
     (if length buf < sizeof_input_event then (0, buf, set_errno EINVAL w) else read_event pUSB 0 buf w)"

section \<open>Parsing\<close>

definition USBParseMSC :: "USBTABLET \<Rightarrow> input_event \<Rightarrow> USBTABLET" where
  "USBParseMSC pUSB ev =
     (let p1 = (if ev_code ev = MSC_SERIAL \<and> ev_value ev \<noteq> 0
                then chan_set WACOMFIELD_SERIAL (ev_value ev) pUSB else pUSB)
      in if chan_get WACOMFIELD_PROXIMITY p1 = 0 then chan_set WACOMFIELD_SERIAL 0 p1 else p1)"

text \<open>The \<open>switch\<close> on the key code: a button, a tool, or a pad key, in the order of detection.\<close>

datatype key_meaning = Key_none | Key_button nat | Key_tool nat

fun pad_index :: "u16 \<Rightarrow> u16 list \<Rightarrow> nat \<Rightarrow> key_meaning" where
  "pad_index c [] i = Key_none"
| "pad_index c (k # ks) i = (if c = k then Key_button (WACOMBUTTON_BT0 + i) else pad_index c ks (i + 1))"

definition key_meaning :: "u16 list \<Rightarrow> u16 \<Rightarrow> key_meaning" where
  "key_meaning pad c =
     (if c = BTN_LEFT then Key_button WACOMBUTTON_LEFT
      else if c = BTN_RIGHT then Key_button WACOMBUTTON_RIGHT
      else if c = BTN_MIDDLE then Key_button WACOMBUTTON_MIDDLE
      else if c = BTN_SIDE then Key_button WACOMBUTTON_SIDE
      else if c = BTN_EXTRA then Key_button WACOMBUTTON_EXTRA
      else if c = BTN_TOUCH then Key_button WACOMBUTTON_TOUCH
      else if c = BTN_STYLUS then Key_button WACOMBUTTON_STYLUS
      else if c = BTN_STYLUS2 then Key_button WACOMBUTTON_STYLUS2
      else if c = BTN_TOOL_PEN then Key_tool 1
      else if c = BTN_TOOL_PENCIL then Key_tool 2
      else if c = BTN_TOOL_BRUSH then Key_tool 3
      else if c = BTN_TOOL_RUBBER then Key_tool 4
      else if c = BTN_TOOL_AIRBRUSH then Key_tool 5
      else if c = BTN_TOOL_MOUSE then Key_tool 6
      else if c = BTN_TOOL_FINGER then Key_tool 8
      else if c = BTN_TOOL_LENS then Key_tool 7
      else if c = BTN_TOOL_DOUBLETAP then Key_tool 9
      else pad_index c pad 0)"

text \<open>
  \<open>BIT\<close> is an \<open>unsigned long\<close> in this file; stored back into an \<open>int\<close> only its low 32 bits
  matter, and those of \<open>BIT(n)\<close> are 0 from \<open>n = 32\<close> on.
\<close>

definition key_button :: "nat \<Rightarrow> bool \<Rightarrow> USBTABLET \<Rightarrow> USBTABLET" where
  "key_button b down pUSB =
     (if down then chan_set WACOMFIELD_BUTTONS (chan_get WACOMFIELD_BUTTONS pUSB OR BIT b) pUSB
      else chan_set WACOMFIELD_BUTTONS (chan_get WACOMFIELD_BUTTONS pUSB AND NOT (BIT b)) pUSB)"

definition tool_in :: "nat \<Rightarrow> USBTABLET \<Rightarrow> USBTABLET" where
  "tool_in t pUSB =
     (let p1 = (if chan_prox pUSB AND BIT t = 0 then chan_set WACOMFIELD_PROXIMITY 1 pUSB else pUSB);
          p2 = upd_prox (\<lambda>x. x OR BIT t) p1
      in chan_set WACOMFIELD_TOOLTYPE (of_nat t) p2)"

text \<open>The last loop sets the tool to each one still in proximity, so the highest number stays.\<close>

fun switch_tool :: "nat list \<Rightarrow> USBTABLET \<Rightarrow> USBTABLET" where
  "switch_tool [] pUSB = pUSB"
| "switch_tool (i # is) pUSB =
     switch_tool is (if chan_prox pUSB AND BIT i \<noteq> 0 then chan_set WACOMFIELD_TOOLTYPE (of_nat i) pUSB else pUSB)"

definition tool_out :: "nat \<Rightarrow> USBTABLET \<Rightarrow> USBTABLET option" where
  "tool_out t pUSB =
     (let p1 = (if chan_prox pUSB AND BIT t \<noteq> 0 then upd_prox (\<lambda>x. x AND NOT (BIT t)) pUSB else pUSB);
          p2 = (if uValid (chan_state p1) AND BIT WACOMFIELD_SERIAL = 0 then upd_prox (\<lambda>_. 0) p1 else p1);
          p3 = chan_set WACOMFIELD_PROXIMITY 0 p2;
          p4 = chan_set WACOMFIELD_TOOLTYPE 0 p3
      in if chan_prox p4 = 0
         then do {
           st \<leftarrow> zero_values (unat (uValueCnt (chan_state p4))) (chan_state p4);
           Some (upd_state (\<lambda>_. st) p4)
         }
         else Some (switch_tool [1..<10] p4))"

definition USBParseKEY :: "u16 list \<Rightarrow> USBTABLET \<Rightarrow> input_event \<Rightarrow> USBTABLET option" where
  "USBParseKEY pad pUSB ev =
     (case key_meaning pad (ev_code ev) of
        Key_none \<Rightarrow> Some pUSB
      | Key_button b \<Rightarrow> Some (key_button b (ev_value ev \<noteq> 0) pUSB)
      | Key_tool t \<Rightarrow> if ev_value ev \<noteq> 0 then Some (tool_in t pUSB) else tool_out t pUSB)"

definition abs_field :: "u16 \<Rightarrow> nat" where
  "abs_field c =
     (if c = ABS_X then WACOMFIELD_POSITION_X else if c = ABS_Y then WACOMFIELD_POSITION_Y
      else if c = ABS_RZ then WACOMFIELD_ROTATION_Z else if c = ABS_DISTANCE then WACOMFIELD_DISTANCE
      else if c = ABS_PRESSURE then WACOMFIELD_PRESSURE else if c = ABS_TILT_X then WACOMFIELD_TILT_X
      else if c = ABS_TILT_Y then WACOMFIELD_TILT_Y else if c = ABS_WHEEL then WACOMFIELD_ABSWHEEL
      else if c = ABS_THROTTLE then WACOMFIELD_THROTTLE else 0)"

definition USBParseABS :: "USBTABLET \<Rightarrow> input_event \<Rightarrow> USBTABLET" where
  "USBParseABS pUSB ev =
     (if abs_field (ev_code ev) \<noteq> 0 then chan_set (abs_field (ev_code ev)) (ev_value ev) pUSB else pUSB)"

definition rel_field :: "u16 \<Rightarrow> nat" where
  "rel_field c = (if c = REL_WHEEL then WACOMFIELD_RELWHEEL else 0)"

definition USBParseREL :: "USBTABLET \<Rightarrow> input_event \<Rightarrow> USBTABLET" where
  "USBParseREL pUSB ev =
     (if rel_field (ev_code ev) \<noteq> 0 then chan_set (rel_field (ev_code ev)) (ev_value ev) pUSB else pUSB)"

text \<open>One event of a report; \<open>Inl\<close> is the early return with the event's type.\<close>

definition usb_event :: "u16 list \<Rightarrow> USBTABLET \<Rightarrow> input_event \<Rightarrow> (u16 + USBTABLET) option" where
  "usb_event pad pUSB ev =
     (if ev_type ev = EV_SYN \<or> ev_type ev = EV_MSC then Some (Inr (USBParseMSC pUSB ev))
      else if ev_type ev = EV_KEY then map_option Inr (USBParseKEY pad pUSB ev)
      else if ev_type ev = EV_ABS then Some (Inr (USBParseABS pUSB ev))
      else if ev_type ev = EV_REL then Some (Inr (USBParseREL pUSB ev))
      else Some (Inl (ev_type ev)))"

text \<open>The events of a report, in order; the first component of \<open>Inl\<close> is what has been done so far.\<close>

fun usb_events :: "u16 list \<Rightarrow> USBTABLET \<Rightarrow> input_event list \<Rightarrow> ((USBTABLET \<times> u16) + USBTABLET) option" where
  "usb_events pad pUSB [] = Some (Inr pUSB)"
| "usb_events pad pUSB (ev # evs) = do {
     r \<leftarrow> usb_event pad pUSB ev;
     (case r of Inl t \<Rightarrow> Some (Inl (pUSB, t)) | Inr p1 \<Rightarrow> usb_events pad p1 evs)
   }"

text \<open>
  The channel for a report: the one whose tool has the serial number of the report, else the first
  without a tool, else none.
\<close>

definition find_channel :: "nat \<Rightarrow> USBTABLET \<Rightarrow> nat option" where
  "find_channel n pUSB =
     (case find (\<lambda>c. get_nValue WACOMFIELD_SERIAL (u_state pUSB ! c) = u_nLastToolSerial pUSB) [0..<n] of
        Some c \<Rightarrow> Some c
      | None \<Rightarrow> find (\<lambda>c. u_nToolProx pUSB ! c = 0) [0..<n])"

abbreviation drop_report :: "USBTABLET \<Rightarrow> USBTABLET" where
  "drop_report pUSB \<equiv> pUSB\<lparr>u_nEventCnt := 0, u_nLastToolSerial := 0\<rparr>"

text \<open>What happens at the end of a report, the channel having been found.\<close>

definition finish_report ::
  "u16 list \<Rightarrow> USBTABLET \<Rightarrow> WACOMSTATE option \<Rightarrow> (rc \<times> USBTABLET \<times> WACOMSTATE option) option" where
  "finish_report pad pUSB pState = do {
     let p1 = chan_set WACOMFIELD_RELWHEEL 0 pUSB;
     r \<leftarrow> usb_events pad p1 (take (u_nEventCnt p1) (u_events p1));
     (case r of
        Inl (p2, t) \<Rightarrow> Some ((int (unat t), Some EINVAL), p2, pState)
      | Inr p2 \<Rightarrow>
          (case pState of
             None \<Rightarrow> Some (rc_ok, drop_report p2, None)
           | Some d \<Rightarrow> do {
               (rc, d') \<leftarrow> WacomCopyState (Some d) (Some (chan_state p2));
               Some (rc, drop_report p2, d')
             }))
   }"

definition USBParseData ::
  "u16 list \<Rightarrow> USBTABLET \<Rightarrow> u8 list \<Rightarrow> nat \<Rightarrow> WACOMSTATE option \<Rightarrow> (rc \<times> USBTABLET \<times> WACOMSTATE option) option" where
  "USBParseData pad pUSB puchData uLength pState =
     (if uLength \<noteq> sizeof_input_event then Some ((1, None), pUSB, pState)
      else if length puchData < sizeof_input_event then None
      else
        (let ev = event_at puchData
         in if MAX_USB_EVENTS \<le> u_nEventCnt pUSB then Some ((-1, Some ENOBUFS), drop_report pUSB, pState)
            else
              (let p1 = pUSB\<lparr>u_events := (u_events pUSB)[u_nEventCnt pUSB := ev], u_nEventCnt := u_nEventCnt pUSB + 1\<rparr>
               in if ev_type ev = EV_MSC \<and> ev_code ev = MSC_SERIAL
                  then Some (rc_ok, p1\<lparr>u_nLastToolSerial := ev_value ev\<rparr>, pState)
                  else if ev_type ev = EV_SYN \<and> ev_code ev = SYN_REPORT
                  then do {
                    dev \<leftarrow> u_pDevice p1;
                    if 1 < ud_uChannelCnt dev
                    then (case find_channel (ud_uChannelCnt dev) p1 of
                            None \<Rightarrow> Some ((-1, Some ENOBUFS), drop_report (p1\<lparr>u_nChannel := 0\<rparr>), pState)
                          | Some c \<Rightarrow> finish_report pad (p1\<lparr>u_nChannel := c\<rparr>) pState)
                    else finish_report pad p1 pState
                  }
                  else Some (rc_ok, p1, pState))))"

section \<open>The rest of the table of functions\<close>

definition USBClose :: "USBTABLET \<Rightarrow> world \<Rightarrow> world" where
  "USBClose pUSB w = sys_close (u_fd pUSB) w"

definition USBGetModel :: "USBTABLET \<Rightarrow> WACOMMODEL option" where
  "USBGetModel pUSB = do {
     v \<leftarrow> u_pVendor pUSB; d \<leftarrow> u_pDevice pUSB; s \<leftarrow> u_pSubType pUSB;
     Some \<lparr>uClass = WACOMCLASS_USB, uVendor = uv_uVendor v, uDevice = ud_uDevice d, uSubType = us_uSubType s\<rparr>
   }"

definition USBGetVendorName :: "USBTABLET \<Rightarrow> string option" where
  "USBGetVendorName pUSB = map_option uv_pszDesc (u_pVendor pUSB)"

definition USBGetClassName :: "USBTABLET \<Rightarrow> string option" where
  "USBGetClassName pUSB = Some ''USB''"

definition USBGetDeviceName :: "USBTABLET \<Rightarrow> string option" where
  "USBGetDeviceName pUSB = map_option ud_pszDesc (u_pDevice pUSB)"

definition USBGetSubTypeName :: "USBTABLET \<Rightarrow> string option" where
  "USBGetSubTypeName pUSB = map_option us_pszName (u_pSubType pUSB)"

definition USBGetModelName :: "USBTABLET \<Rightarrow> string option" where
  "USBGetModelName pUSB = map_option us_pszDesc (u_pSubType pUSB)"

text \<open>Only \<open>pnMajor\<close> is checked; a null \<open>pnMinor\<close> or \<open>pnRelease\<close> is dereferenced.\<close>

definition USBGetROMVer ::
  "USBTABLET \<Rightarrow> bool \<Rightarrow> bool \<Rightarrow> bool \<Rightarrow> (rc \<times> s32 option \<times> s32 option \<times> s32 option) option" where
  "USBGetROMVer pUSB major minor release =
     (if \<not> major then Some (fail EINVAL, None, None, None)
      else if \<not> minor \<or> \<not> release then None
      else Some (rc_ok, Some (signed_drop_bit 8 (u_nVersion pUSB)),
                 Some (signed_drop_bit 4 (u_nVersion pUSB) AND 0xF), Some (u_nVersion pUSB AND 0xF)))"

definition USBGetCaps :: "USBTABLET \<Rightarrow> u32" where
  "USBGetCaps pUSB = uValid (u_state pUSB ! 0)"

definition USBGetState :: "USBTABLET \<Rightarrow> WACOMSTATE option \<Rightarrow> (rc \<times> WACOMSTATE option) option" where
  "USBGetState pUSB pState = WacomCopyState pState (Some (chan_state pUSB))"

definition USBGetFD :: "USBTABLET \<Rightarrow> int" where
  "USBGetFD pUSB = u_fd pUSB"

end
