(* ===== verification/Usb_Reports.thy ===== *)
theory Usb_Reports
  imports Usb_Driver
begin

text \<open>
  The properties of the USB driver: every event keeps the tablet well formed, a report is applied
  as a whole to the channel of its tool and to no other, and the ways a report fails.
\<close>

section \<open>The invariant\<close>

definition wf_usb :: "USBTABLET \<Rightarrow> bool" where
  "wf_usb p \<longleftrightarrow>
     length (u_state p) = MAX_CHANNELS \<and> list_all wf_state (u_state p) \<and> length (u_nToolProx p) = MAX_CHANNELS \<and>
     u_nChannel p < MAX_CHANNELS \<and> u_nEventCnt p \<le> MAX_USB_EVENTS \<and> length (u_events p) = MAX_USB_EVENTS \<and>
     (case u_pDevice p of None \<Rightarrow> False | Some d \<Rightarrow> ud_uChannelCnt d \<le> MAX_CHANNELS)"

named_theorems usb_simps \<open>what the channel updates keep\<close>

lemma upd_fields [usb_simps, simp]:
  "u_nToolProx (upd_state f p) = u_nToolProx p" "u_state (upd_prox g p) = u_state p"
  "u_nChannel (upd_state f p) = u_nChannel p" "u_nChannel (upd_prox g p) = u_nChannel p"
  "u_nEventCnt (upd_state f p) = u_nEventCnt p" "u_nEventCnt (upd_prox g p) = u_nEventCnt p"
  "u_events (upd_state f p) = u_events p" "u_events (upd_prox g p) = u_events p"
  "u_pDevice (upd_state f p) = u_pDevice p" "u_pDevice (upd_prox g p) = u_pDevice p"
  "u_nLastToolSerial (upd_state f p) = u_nLastToolSerial p" "u_nLastToolSerial (upd_prox g p) = u_nLastToolSerial p"
  by (simp_all add: upd_state_def upd_prox_def)

lemma chan_upd [simp]:
  "u_nChannel p < length (u_state p) \<Longrightarrow> chan_state (upd_state f p) = f (chan_state p)"
  "u_nChannel p < length (u_nToolProx p) \<Longrightarrow> chan_prox (upd_prox g p) = g (chan_prox p)"
  "chan_prox (upd_state f p) = chan_prox p" "chan_state (upd_prox g p) = chan_state p"
  by (simp_all add: upd_state_def upd_prox_def)

lemma wf_usb_chan: "wf_usb p \<Longrightarrow> wf_state (chan_state p)"
  by (simp add: wf_usb_def list_all_length)

lemma wf_usb_state:
  assumes "wf_usb p" and "wf_state (f (chan_state p))"
  shows "wf_usb (upd_state f p)"
  using assms by (auto simp: wf_usb_def upd_state_def list_all_length nth_list_update split: option.splits)

lemma wf_usb_chan_set [simp]: "wf_usb p \<Longrightarrow> wf_usb (chan_set f v p)"
  by (rule wf_usb_state) (simp_all add: wf_usb_chan)

lemma wf_usb_prox [simp]: "wf_usb p \<Longrightarrow> wf_usb (upd_prox g p)"
  by (auto simp: wf_usb_def upd_prox_def)

text \<open>
  What an event may change: the state and the tools of the selected channel. \<open>other_channels\<close>
  says that everything else is kept.
\<close>

definition other_channels :: "USBTABLET \<Rightarrow> USBTABLET \<Rightarrow> bool" where
  "other_channels p p' \<longleftrightarrow>
     (\<forall>c < length (u_state p). c \<noteq> u_nChannel p \<longrightarrow>
        u_state p' ! c = u_state p ! c \<and> u_nToolProx p' ! c = u_nToolProx p ! c) \<and>
     u_nChannel p' = u_nChannel p \<and> u_nEventCnt p' = u_nEventCnt p \<and> u_events p' = u_events p \<and>
     u_pDevice p' = u_pDevice p \<and> u_nLastToolSerial p' = u_nLastToolSerial p \<and> length (u_state p') = length (u_state p)"

lemma other_refl [simp]: "other_channels p p"
  by (simp add: other_channels_def)

lemma other_trans: "other_channels p q \<Longrightarrow> other_channels q r \<Longrightarrow> other_channels p r"
  by (auto simp: other_channels_def)

lemma other_state [simp]: "other_channels q p \<Longrightarrow> other_channels q (upd_state f p)"
  by (auto simp: other_channels_def upd_state_def)

lemma other_prox [simp]: "other_channels q p \<Longrightarrow> other_channels q (upd_prox g p)"
  by (auto simp: other_channels_def upd_prox_def)

text \<open>Both together are what each step keeps.\<close>

definition keeps :: "USBTABLET \<Rightarrow> USBTABLET \<Rightarrow> bool" where
  "keeps q p \<longleftrightarrow> wf_usb p \<and> other_channels q p"

lemma keeps_chan_set [simp]: "keeps q p \<Longrightarrow> keeps q (chan_set f v p)"
  by (simp add: keeps_def)

lemma keeps_prox [simp]: "keeps q p \<Longrightarrow> keeps q (upd_prox g p)"
  by (simp add: keeps_def)

lemma keeps_state: "keeps q p \<Longrightarrow> wf_state st \<Longrightarrow> keeps q (upd_state (\<lambda>_. st) p)"
  by (simp add: keeps_def wf_usb_state)

lemma keeps_refl: "wf_usb p \<Longrightarrow> keeps p p"
  by (simp add: keeps_def)

lemma USBParseMSC_keeps: "keeps q p \<Longrightarrow> keeps q (USBParseMSC p ev)"
  by (simp add: USBParseMSC_def Let_def)

lemma USBParseABS_keeps: "keeps q p \<Longrightarrow> keeps q (USBParseABS p ev)"
  by (simp add: USBParseABS_def)

lemma USBParseREL_keeps: "keeps q p \<Longrightarrow> keeps q (USBParseREL p ev)"
  by (simp add: USBParseREL_def)

lemma switch_tool_keeps: "keeps q p \<Longrightarrow> keeps q (switch_tool ts p)"
  by (induction ts arbitrary: p) simp_all

lemma tool_out_keeps:
  assumes "keeps q p"
  shows "\<exists>p'. tool_out t p = Some p' \<and> keeps q p'"
proof -
  define p1 where "p1 = (if chan_prox p AND BIT t \<noteq> 0 then upd_prox (\<lambda>x. x AND NOT (BIT t)) p else p)"
  define p2 where "p2 = (if uValid (chan_state p1) AND BIT WACOMFIELD_SERIAL = 0 then upd_prox (\<lambda>_. 0) p1 else p1)"
  define p4 where "p4 = chan_set WACOMFIELD_TOOLTYPE 0 (chan_set WACOMFIELD_PROXIMITY 0 p2)"
  have eq: "tool_out t p = (if chan_prox p4 = 0
         then do { st \<leftarrow> zero_values (unat (uValueCnt (chan_state p4))) (chan_state p4); Some (upd_state (\<lambda>_. st) p4) }
         else Some (switch_tool [1..<10] p4))"
    by (simp only: tool_out_def Let_def p1_def p2_def p4_def)
  have k: "keeps q p4" using assms by (simp add: p4_def p2_def p1_def)
  then have wf: "wf_state (chan_state p4)" by (simp add: keeps_def wf_usb_chan)
  have z: "zero_values (unat (uValueCnt (chan_state p4))) (chan_state p4) =
      Some ((chan_state p4)\<lparr>values_arr := replicate WACOMFIELD_MAX zero_value\<rparr>)" (is "_ = Some ?st")
    by (rule zero_values_wf [OF wf])
  have "wf_state ?st" using wf by (simp add: wf_state_def)
  from keeps_state [OF k this] show ?thesis
    by (simp add: eq z switch_tool_keeps [OF k])
qed

lemma usb_event_keeps:
  assumes "keeps q p"
  shows "\<exists>r. usb_event pad p ev = Some r \<and> (\<forall>p'. r = Inr p' \<longrightarrow> keeps q p')"
proof -
  have "\<exists>p'. USBParseKEY pad p ev = Some p' \<and> keeps q p'"
    using assms tool_out_keeps [OF assms]
    by (auto simp: USBParseKEY_def key_button_def tool_in_def Let_def split: key_meaning.splits)
  then show ?thesis
    using assms by (auto simp: usb_event_def USBParseMSC_keeps USBParseABS_keeps USBParseREL_keeps)
qed

lemma usb_events_keeps:
  "keeps q p \<Longrightarrow> \<exists>r. usb_events pad p evs = Some r \<and>
     (case r of Inl (p', t) \<Rightarrow> keeps q p' | Inr p' \<Rightarrow> keeps q p')"
proof (induction evs arbitrary: p)
  case (Cons ev evs)
  from usb_event_keeps [OF Cons.prems, of pad ev] obtain r where
    r: "usb_event pad p ev = Some r" "\<And>p'. r = Inr p' \<Longrightarrow> keeps q p'" by blast
  show ?case
  proof (cases r)
    case (Inl t)
    then show ?thesis using r(1) Cons.prems by simp
  next
    case (Inr p')
    then show ?thesis using r(1) Cons.IH [OF r(2) [OF Inr]] by simp
  qed
qed simp

lemma find_channel_bound: "find_channel n p = Some c \<Longrightarrow> c < n"
  by (auto simp: find_channel_def find_Some_iff split: option.splits)

lemma usb_events_Inl: "usb_events pad p evs = Some (Inl (p', t)) \<Longrightarrow> t \<noteq> 0"
  by (induction evs arbitrary: p) (auto simp: usb_event_def split: bind_splits if_splits sum.splits option.splits)

text \<open>The end of a report, in its three outcomes.\<close>

lemma finish_report_cases:
  assumes "wf_usb p" and "pred_option wf_state st"
  obtains
    (unknown) p' and t :: u16 where "finish_report pad p st = Some ((int (unat t), Some EINVAL), p', st)" and "t \<noteq> 0"
      and "wf_usb p'" and "other_channels p p'"
  | (applied) p' where "finish_report pad p st = Some (rc_ok, drop_report p', map_option (\<lambda>_. chan_state p') st)"
      and "wf_usb p'" and "other_channels p p'"
proof -
  let ?p1 = "chan_set WACOMFIELD_RELWHEEL 0 p"
  have "keeps p ?p1" using assms(1) by (simp add: keeps_refl)
  from usb_events_keeps [OF this, of pad "take (u_nEventCnt ?p1) (u_events ?p1)"] obtain r where
    r: "usb_events pad ?p1 (take (u_nEventCnt ?p1) (u_events ?p1)) = Some r"
    "case r of Inl (p', t) \<Rightarrow> keeps p p' | Inr p' \<Rightarrow> keeps p p'" by blast
  show ?thesis
  proof (cases r)
    case (Inl pt)
    obtain p2 t where pt: "pt = (p2, t)" by (cases pt)
    have "finish_report pad p st = Some ((int (unat t), Some EINVAL), p2, st)"
      using r(1) by (simp add: finish_report_def Let_def Inl pt)
    moreover have "t \<noteq> 0" using usb_events_Inl r(1) Inl pt by blast
    ultimately show ?thesis using unknown [of t p2] r(2) by (simp add: Inl pt keeps_def)
  next
    case (Inr p2)
    then have k: "keeps p p2" using r(2) by simp
    then have "wf_state (chan_state p2)" by (simp add: keeps_def wf_usb_chan)
    then have "finish_report pad p st = Some (rc_ok, drop_report p2, map_option (\<lambda>_. chan_state p2) st)"
      using r(1) assms(2) by (cases st) (simp_all add: finish_report_def Let_def Inr WacomCopyState_eq)
    then show ?thesis using applied k by (simp add: keeps_def)
  qed
qed

lemma wf_usb_drop [simp]: "wf_usb p \<Longrightarrow> wf_usb (drop_report p)"
  by (simp add: wf_usb_def)

lemma wf_usb_device: "wf_usb p \<Longrightarrow> \<exists>d. u_pDevice p = Some d \<and> ud_uChannelCnt d \<le> MAX_CHANNELS"
  by (auto simp: wf_usb_def split: option.splits)

lemma wf_usb_channel [simp]: "wf_usb p \<Longrightarrow> c < MAX_CHANNELS \<Longrightarrow> wf_usb (p\<lparr>u_nChannel := c\<rparr>)"
  by (simp add: wf_usb_def)

section \<open>Receiving one event\<close>

text \<open>The event in the buffer, and the channel its report goes to when it ends one.\<close>

definition buffered :: "USBTABLET \<Rightarrow> input_event \<Rightarrow> USBTABLET" where
  "buffered p ev = p\<lparr>u_events := (u_events p)[u_nEventCnt p := ev], u_nEventCnt := u_nEventCnt p + 1\<rparr>"

definition ends_report :: "input_event \<Rightarrow> bool" where
  "ends_report ev \<longleftrightarrow> ev_type ev = EV_SYN \<and> ev_code ev = SYN_REPORT"

definition names_serial :: "input_event \<Rightarrow> bool" where
  "names_serial ev \<longleftrightarrow> ev_type ev = EV_MSC \<and> ev_code ev = MSC_SERIAL"

definition report_channel :: "USBTABLET \<Rightarrow> nat option" where
  "report_channel p =
     (case u_pDevice p of None \<Rightarrow> None
      | Some d \<Rightarrow> if 1 < ud_uChannelCnt d then find_channel (ud_uChannelCnt d) p else Some (u_nChannel p))"

lemma buffered_fields [simp]:
  "u_state (buffered p ev) = u_state p" "u_nToolProx (buffered p ev) = u_nToolProx p"
  "u_pDevice (buffered p ev) = u_pDevice p" "u_nChannel (buffered p ev) = u_nChannel p"
  "u_nLastToolSerial (buffered p ev) = u_nLastToolSerial p" "u_nEventCnt (buffered p ev) = u_nEventCnt p + 1"
  "find_channel n (buffered p ev) = find_channel n p" "report_channel (buffered p ev) = report_channel p"
  by (simp_all add: buffered_def report_channel_def find_channel_def split: option.split)

lemma wf_buffered [simp]: "wf_usb p \<Longrightarrow> u_nEventCnt p < MAX_USB_EVENTS \<Longrightarrow> wf_usb (buffered p ev)"
  by (simp add: wf_usb_def buffered_def)

lemma report_channel_bound: "wf_usb p \<Longrightarrow> report_channel p = Some c \<Longrightarrow> c < MAX_CHANNELS"
  by (auto simp: report_channel_def wf_usb_def split: option.splits if_splits dest: find_channel_bound)

lemma channel_same [simp]: "p\<lparr>u_nChannel := u_nChannel p\<rparr> = p"
  by simp

text \<open>The branches of \<open>USBParseData\<close> on a well-formed tablet.\<close>

lemma ParseData_buffered:
  "USBParseData pad p b sizeof_input_event st =
     (if length b < sizeof_input_event then None
      else if MAX_USB_EVENTS \<le> u_nEventCnt p then Some ((-1, Some ENOBUFS), drop_report p, st)
      else if names_serial (event_at b)
      then Some (rc_ok, (buffered p (event_at b))\<lparr>u_nLastToolSerial := ev_value (event_at b)\<rparr>, st)
      else if ends_report (event_at b)
      then do {
        dev \<leftarrow> u_pDevice (buffered p (event_at b));
        if 1 < ud_uChannelCnt dev
        then (case find_channel (ud_uChannelCnt dev) (buffered p (event_at b)) of
                None \<Rightarrow> Some ((-1, Some ENOBUFS), drop_report ((buffered p (event_at b))\<lparr>u_nChannel := 0\<rparr>), st)
              | Some c \<Rightarrow> finish_report pad ((buffered p (event_at b))\<lparr>u_nChannel := c\<rparr>) st)
        else finish_report pad (buffered p (event_at b)) st
      }
      else Some (rc_ok, buffered p (event_at b), st))"
  by (simp only: USBParseData_def buffered_def names_serial_def ends_report_def Let_def simp_thms if_False)

lemma ParseData_full:
  "sizeof_input_event \<le> length b \<Longrightarrow> MAX_USB_EVENTS \<le> u_nEventCnt p \<Longrightarrow>
   USBParseData pad p b sizeof_input_event st = Some ((-1, Some ENOBUFS), drop_report p, st)"
  by (simp add: ParseData_buffered)

lemma ParseData_inside:
  assumes "sizeof_input_event \<le> length b" and "u_nEventCnt p < MAX_USB_EVENTS" and "\<not> ends_report (event_at b)"
  shows "USBParseData pad p b sizeof_input_event st =
    Some (rc_ok, if names_serial (event_at b) then (buffered p (event_at b))\<lparr>u_nLastToolSerial := ev_value (event_at b)\<rparr>
                 else buffered p (event_at b), st)"
  using assms by (simp add: ParseData_buffered)

lemma ParseData_end:
  assumes "wf_usb p" and "sizeof_input_event \<le> length b" and "u_nEventCnt p < MAX_USB_EVENTS" and "ends_report (event_at b)"
  shows "USBParseData pad p b sizeof_input_event st =
    (case report_channel p of
       None \<Rightarrow> Some ((-1, Some ENOBUFS), drop_report ((buffered p (event_at b))\<lparr>u_nChannel := 0\<rparr>), st)
     | Some c \<Rightarrow> finish_report pad ((buffered p (event_at b))\<lparr>u_nChannel := c\<rparr>) st)"
proof -
  obtain d where d: "u_pDevice p = Some d" using wf_usb_device [OF assms(1)] by blast
  have self: "(buffered p (event_at b))\<lparr>u_nChannel := u_nChannel p\<rparr> = buffered p (event_at b)"
    using channel_same [of "buffered p (event_at b)"] by (simp del: channel_same)
  have "\<not> names_serial (event_at b)" using assms(4) by (simp add: ends_report_def names_serial_def)
  then show ?thesis
    using assms(2-4) d by (simp add: ParseData_buffered report_channel_def self)
qed

lemma pred_map_const: "P x \<Longrightarrow> pred_option P (map_option (\<lambda>_. x) st)"
  by (cases st) simp_all

lemma USBParseData_defined:
  assumes "wf_usb p" and "pred_option wf_state st" and "sizeof_input_event \<le> length buf"
  shows "\<exists>r p' st'. USBParseData pad p buf sizeof_input_event st = Some (r, p', st') \<and> wf_usb p' \<and>
    u_pDevice p' = u_pDevice p \<and> pred_option wf_state st' \<and>
    (st' = st \<or> fst r = 0 \<and> st' = map_option (\<lambda>_. chan_state p') st)"
proof -
  consider "MAX_USB_EVENTS \<le> u_nEventCnt p"
    | "u_nEventCnt p < MAX_USB_EVENTS" "\<not> ends_report (event_at buf)"
    | "u_nEventCnt p < MAX_USB_EVENTS" "ends_report (event_at buf)" by linarith
  then show ?thesis
  proof cases
    case 1
    then show ?thesis using assms by (simp add: ParseData_full)
  next
    case 2
    then have "wf_usb ((buffered p (event_at buf))\<lparr>u_nLastToolSerial := v\<rparr>)" for v
      using wf_buffered [OF assms(1)] by (simp add: wf_usb_def)
    with 2 show ?thesis using assms by (simp add: ParseData_inside)
  next
    case 3
    show ?thesis
    proof (cases "report_channel p")
      case None
      then show ?thesis using 3 assms by (simp add: ParseData_end)
    next
      case (Some c)
      let ?q = "(buffered p (event_at buf))\<lparr>u_nChannel := c\<rparr>"
      have "wf_usb ?q" using 3 assms(1) report_channel_bound [OF assms(1) Some] by simp
      from finish_report_cases [OF this assms(2), of pad] show ?thesis
        using 3 assms Some wf_usb_chan
        by cases (auto simp: ParseData_end other_channels_def pred_map_const)
    qed
  qed
qed

text \<open>An Intuos2 as it is after identification: two channels, serial numbers.\<close>

definition intuos2_usb :: USBTABLET where
  "intuos2_usb = (new_usb_tablet 5)\<lparr>u_pVendor := Some (hd uxVendors), u_pDevice := Some (uxWacomDevices ! 6),
     u_pSubType := Some (uxIntuos2 ! 1), u_state := replicate MAX_CHANNELS (WACOMSTATE_INIT\<lparr>uValid := BIT WACOMFIELD_SERIAL\<rparr>)\<rparr>"

text \<open>C12: No event breaks the USB driver. On a well-formed tablet, for any pad keys and any 24 bytes,
  \<open>USBParseData\<close> has defined behaviour and leaves a well-formed tablet: channels, buffer and counters in
  bounds, the channels' states well formed, the device the same; the client's state is left alone
  or is the state of the selected channel.\<close>

theorem usb_parse_safe:
  assumes "wf_usb p" and "pred_option wf_state st" and "sizeof_input_event \<le> length buf"
  shows "\<exists>r p' st'. USBParseData pad p buf sizeof_input_event st = Some (r, p', st') \<and> wf_usb p' \<and>
    u_pDevice p' = u_pDevice p \<and> (st' = st \<or> st' = map_option (\<lambda>_. chan_state p') st)"
  using USBParseData_defined [OF assms, of pad] by fast

theorem usb_parse_safe_witness:
  "\<exists>r p' st'. USBParseData [] intuos2_usb (replicate 24 0) sizeof_input_event (Some WACOMSTATE_INIT) = Some (r, p', st') \<and> wf_usb p' \<and>
    u_pDevice p' = u_pDevice intuos2_usb \<and> (st' = Some WACOMSTATE_INIT \<or> st' = map_option (\<lambda>_. chan_state p') (Some WACOMSTATE_INIT))"
  by (rule usb_parse_safe) (simp_all add: intuos2_usb_def wf_usb_def new_usb_tablet_def usb_device_tables WACOMSTATE_INIT_def
      wf_state_def nth_Cons' list_all_iff)

end
