(* ===== verification/Usb_Channels.thy ===== *)
theory Usb_Channels
  imports Usb_Reports
begin

text \<open>
  What a USB report means, without the driver's buffers: each channel is the state of its tool and
  the set of tools in proximity, and an event changes one channel. The driver refines this: the
  events of a report are collected, the channel of the report's serial number is selected, and the
  events act on that channel alone.
\<close>

section \<open>Channels and what events mean for them\<close>

record channel =
  ch_state :: WACOMSTATE
  ch_tools :: "nat set"

definition chan_at :: "USBTABLET \<Rightarrow> nat \<Rightarrow> channel" where
  "chan_at p c = \<lparr>ch_state = u_state p ! c, ch_tools = {t. bit (u_nToolProx p ! c) t}\<rparr>"

definition put_field :: "nat \<Rightarrow> s32 \<Rightarrow> channel \<Rightarrow> channel" where
  "put_field f v ch = ch\<lparr>ch_state := put_nValue f v (ch_state ch)\<rparr>"

lemma put_field_sel [simp]:
  "ch_state (put_field f v ch) = put_nValue f v (ch_state ch)" "ch_tools (put_field f v ch) = ch_tools ch"
  by (simp_all add: put_field_def)

definition spec_serial :: "input_event \<Rightarrow> channel \<Rightarrow> channel" where
  "spec_serial ev ch =
     (let ch1 = (if ev_code ev = MSC_SERIAL \<and> ev_value ev \<noteq> 0 then put_field WACOMFIELD_SERIAL (ev_value ev) ch else ch)
      in if get_nValue WACOMFIELD_PROXIMITY (ch_state ch1) = 0 then put_field WACOMFIELD_SERIAL 0 ch1 else ch1)"

definition spec_button :: "nat \<Rightarrow> bool \<Rightarrow> channel \<Rightarrow> channel" where
  "spec_button b down ch =
     (let old = get_nValue WACOMFIELD_BUTTONS (ch_state ch)
      in put_field WACOMFIELD_BUTTONS (if down then old OR BIT b else old AND NOT (BIT b)) ch)"

definition spec_tool_in :: "nat \<Rightarrow> channel \<Rightarrow> channel" where
  "spec_tool_in t ch =
     (put_field WACOMFIELD_TOOLTYPE (of_nat t) (if t \<in> ch_tools ch then ch else put_field WACOMFIELD_PROXIMITY 1 ch))
       \<lparr>ch_tools := insert t (ch_tools ch)\<rparr>"

text \<open>
  The last tool out clears the channel; otherwise the highest of the tools that are left is the
  current one. A channel without serial numbers has one tool.
\<close>

definition spec_tool_out :: "nat \<Rightarrow> channel \<Rightarrow> channel" where
  "spec_tool_out t ch =
     (let ts = (if bit (uValid (ch_state ch)) WACOMFIELD_SERIAL then ch_tools ch - {t} else {})
      in if ts = {} then \<lparr>ch_state = (ch_state ch)\<lparr>values_arr := replicate WACOMFIELD_MAX zero_value\<rparr>, ch_tools = {}\<rparr>
         else (put_field WACOMFIELD_TOOLTYPE (of_nat (Max ts)) (put_field WACOMFIELD_PROXIMITY 0 ch))\<lparr>ch_tools := ts\<rparr>)"

definition spec_event :: "u16 list \<Rightarrow> input_event \<Rightarrow> channel \<Rightarrow> channel" where
  "spec_event pad ev ch =
     (if ev_type ev = EV_SYN \<or> ev_type ev = EV_MSC then spec_serial ev ch
      else if ev_type ev = EV_KEY
      then (case key_meaning pad (ev_code ev) of
              Key_none \<Rightarrow> ch
            | Key_button b \<Rightarrow> spec_button b (ev_value ev \<noteq> 0) ch
            | Key_tool t \<Rightarrow> if ev_value ev \<noteq> 0 then spec_tool_in t ch else spec_tool_out t ch)
      else if ev_type ev = EV_ABS
      then (if abs_field (ev_code ev) = 0 then ch else put_field (abs_field (ev_code ev)) (ev_value ev) ch)
      else (if rel_field (ev_code ev) = 0 then ch else put_field (rel_field (ev_code ev)) (ev_value ev) ch))"

definition known_event :: "input_event \<Rightarrow> bool" where
  "known_event ev \<longleftrightarrow> ev_type ev \<in> {EV_SYN, EV_MSC, EV_KEY, EV_ABS, EV_REL}"

section \<open>The driver refines the channels\<close>

text \<open>Only the tool types 1 to 9 are ever remembered.\<close>

definition tools_ok :: "USBTABLET \<Rightarrow> bool" where
  "tools_ok p \<longleftrightarrow> (\<forall>c < MAX_CHANNELS. \<forall>t. bit (u_nToolProx p ! c) t \<longrightarrow> t \<in> {1..9})"

lemma pad_index_not_tool: "pad_index c ks i \<noteq> Key_tool t"
  by (induction ks arbitrary: i) auto

lemma key_tool_range: "key_meaning pad c = Key_tool t \<Longrightarrow> t \<in> {1..9}"
  by (auto simp: key_meaning_def pad_index_not_tool split: if_splits)

lemma and_BIT_eq_0: "n < 32 \<Longrightarrow> ((x :: s32) AND BIT n = 0) \<longleftrightarrow> \<not> bit x n"
  by (simp add: BIT_def push_bit_eq_mult and_exp_zero)

lemma prox_bits:
  "n < 32 \<Longrightarrow> {t. bit (x OR BIT n) t} = insert n {t. bit (x :: s32) t}"
  "{t. bit (x AND NOT (BIT n)) t} = {t. bit (x :: s32) t} - {n}"
  by (auto simp: bit_simps dest: bit_imp_le_length)

lemma prox_empty: "(x :: s32) = 0 \<longleftrightarrow> {t. bit x t} = {}"
proof
  assume "{t. bit x t} = {}"
  then show "x = 0" by (intro bit_word_eqI) auto
qed simp

lemma tools_ok_chan: "wf_usb p \<Longrightarrow> tools_ok p \<Longrightarrow> bit (chan_prox p) t \<Longrightarrow> t \<in> {1..9}"
  unfolding tools_ok_def wf_usb_def by blast

lemma chan_at_upd [simp]:
  assumes "wf_usb p"
  shows "chan_at (upd_state f p) (u_nChannel p) = (chan_at p (u_nChannel p))\<lparr>ch_state := f (ch_state (chan_at p (u_nChannel p)))\<rparr>"
    and "chan_at (upd_prox g p) (u_nChannel p) = (chan_at p (u_nChannel p))\<lparr>ch_tools := {t. bit (g (chan_prox p)) t}\<rparr>"
  using assms by (simp_all add: chan_at_def upd_state_def upd_prox_def wf_usb_def)

lemma chan_at_set:
  "wf_usb p \<Longrightarrow> chan_at (chan_set f v p) (u_nChannel p) = put_field f v (chan_at p (u_nChannel p))"
  by (simp add: put_field_def)

lemma chan_at_sel: "ch_state (chan_at p c) = u_state p ! c" "ch_tools (chan_at p c) = {t. bit (u_nToolProx p ! c) t}"
  by (simp_all add: chan_at_def)

lemma tools_ok_state [simp]: "tools_ok (upd_state f p) = tools_ok p"
  by (simp add: tools_ok_def)

lemma tools_ok_prox:
  assumes "wf_usb p" and "tools_ok p" and "\<And>t. bit (g (chan_prox p)) t \<Longrightarrow> t \<in> {1..9}"
  shows "tools_ok (upd_prox g p)"
  using assms by (auto simp: tools_ok_def upd_prox_def nth_list_update wf_usb_def)

lemma put_nValue_twice [simp]: "put_nValue f v (put_nValue f u s) = put_nValue f v s"
  by (cases "f < length (values_arr s)") (simp_all add: put_nValue_def list_update_beyond)

lemma chan_set_twice: "wf_usb p \<Longrightarrow> chan_set f v (chan_set f u p) = chan_set f v p"
  by (simp add: upd_state_def wf_usb_def)

lemma switch_tool_last:
  assumes "list_all (\<lambda>t. t < 32) ts" and "wf_usb p"
  shows "switch_tool ts p =
     (if filter (bit (chan_prox p)) ts = [] then p
      else chan_set WACOMFIELD_TOOLTYPE (of_nat (last (filter (bit (chan_prox p)) ts))) p)"
  using assms
  by (induction ts arbitrary: p) (auto simp: and_BIT_eq_0 chan_set_twice)

lemma last_sorted_Max: "sorted xs \<Longrightarrow> xs \<noteq> [] \<Longrightarrow> last xs = Max (set xs)"
  by (induction xs rule: rev_induct) (auto simp: sorted_append intro!: Max_eqI [symmetric])

lemma switch_tool_Max:
  assumes "wf_usb p" and "tools_ok p" and "chan_prox p \<noteq> 0"
  shows "switch_tool [1..<10] p = chan_set WACOMFIELD_TOOLTYPE (of_nat (Max {t. bit (chan_prox p) t})) p"
proof -
  let ?xs = "filter (bit (chan_prox p)) [1..<10]"
  have set: "set ?xs = {t. bit (chan_prox p) t}" using tools_ok_chan [OF assms(1,2)] by fastforce
  have ne: "?xs \<noteq> []" using assms(3) set prox_empty by (metis empty_set)
  have "sorted ?xs" using sorted_filter [of "\<lambda>x. x" "[1..<10]" "bit (chan_prox p)"] by simp
  from last_sorted_Max [OF this ne] have "last ?xs = Max {t. bit (chan_prox p) t}" by (simp only: set)
  moreover have "list_all (\<lambda>t. t < 32) [1..<10]" by (simp add: list_all_iff)
  ultimately show ?thesis
    using switch_tool_last [OF _ assms(1), of "[1..<10]"] ne by metis
qed

text \<open>One event.\<close>

lemma tool_in_spec:
  assumes "wf_usb p" and "tools_ok p" and "t \<in> {1..9}"
  shows "chan_at (tool_in t p) (u_nChannel p) = spec_tool_in t (chan_at p (u_nChannel p))" and "tools_ok (tool_in t p)"
proof -
  have t: "t < 32" using assms(3) by simp
  define p1 where "p1 = (if chan_prox p AND BIT t = 0 then chan_set WACOMFIELD_PROXIMITY 1 p else p)"
  have p1: "wf_usb p1" "tools_ok p1" "u_nChannel p1 = u_nChannel p" "chan_prox p1 = chan_prox p"
    "chan_at p1 (u_nChannel p) = (if t \<in> ch_tools (chan_at p (u_nChannel p)) then chan_at p (u_nChannel p)
       else put_field WACOMFIELD_PROXIMITY 1 (chan_at p (u_nChannel p)))"
    using assms t by (auto simp: p1_def and_BIT_eq_0 chan_at_sel chan_at_set simp del: chan_at_upd)
  let ?p2 = "upd_prox (\<lambda>x. x OR BIT t) p1"
  have eq: "tool_in t p = chan_set WACOMFIELD_TOOLTYPE (of_nat t) ?p2"
    by (simp add: tool_in_def Let_def p1_def)
  show "chan_at (tool_in t p) (u_nChannel p) = spec_tool_in t (chan_at p (u_nChannel p))"
    by (rule channel.equality)
       (use assms(1) t in \<open>simp_all add: tool_in_def Let_def and_BIT_eq_0 spec_tool_in_def chan_at_sel
          upd_state_def upd_prox_def wf_usb_def prox_bits\<close>)
  show "tools_ok (tool_in t p)"
    using p1 assms(3) tools_ok_chan [OF p1(1,2)] by (auto simp: eq bit_simps intro!: tools_ok_prox)
qed

lemma tool_out_spec:
  assumes "wf_usb p" and "tools_ok p" and "t \<in> {1..9}"
  shows "\<exists>p'. tool_out t p = Some p' \<and> tools_ok p' \<and>
    chan_at p' (u_nChannel p) = spec_tool_out t (chan_at p (u_nChannel p))"
proof -
  let ?c = "u_nChannel p" and ?ser = "bit (uValid (chan_state p)) WACOMFIELD_SERIAL"
  have t: "t < 32" using assms(3) by simp
  define p2 where "p2 = upd_prox (\<lambda>x. if ?ser then x AND NOT (BIT t) else 0) p"
  have noop: "upd_prox (\<lambda>x. x AND NOT (BIT t)) p = p" if "\<not> bit (chan_prox p) t"
  proof -
    have "chan_prox p AND NOT (BIT t) = chan_prox p"
      using that by (intro bit_word_eqI) (auto simp: bit_simps)
    then show ?thesis by (simp add: upd_prox_def)
  qed
  have twice: "upd_prox g (upd_prox h p) = upd_prox (\<lambda>x. g (h x)) p" for g h
    using assms(1) by (simp add: upd_prox_def wf_usb_def)
  have 1: "(if chan_prox p AND BIT t \<noteq> 0 then upd_prox (\<lambda>x. x AND NOT (BIT t)) p else p) =
      upd_prox (\<lambda>x. x AND NOT (BIT t)) p"
    using noop by (auto simp: and_BIT_eq_0 [OF t])
  define p4 where "p4 = chan_set WACOMFIELD_TOOLTYPE 0 (chan_set WACOMFIELD_PROXIMITY 0 p2)"
  have eq: "tool_out t p = (if chan_prox p4 = 0
         then do { st \<leftarrow> zero_values (unat (uValueCnt (chan_state p4))) (chan_state p4); Some (upd_state (\<lambda>_. st) p4) }
         else Some (switch_tool [1..<10] p4))"
    unfolding tool_out_def Let_def 1
    by (simp add: p4_def p2_def twice and_BIT_eq_0)
  have w2: "wf_usb p2" "tools_ok p2" "u_nChannel p2 = ?c" "chan_state p2 = chan_state p"
    using assms tools_ok_chan [OF assms(1,2)] by (auto simp: p2_def bit_simps intro!: tools_ok_prox split: if_splits)
  then have w4: "wf_usb p4" "tools_ok p4" "u_nChannel p4 = ?c"
    by (simp_all add: p4_def)
  have tools: "{u. bit (chan_prox p4) u} = (if ?ser then ch_tools (chan_at p ?c) - {t} else {})"
    using assms(1) by (auto simp: p4_def p2_def upd_prox_def wf_usb_def bit_simps chan_at_sel dest: bit_imp_le_length)
  have at4: "chan_at p4 ?c = (put_field WACOMFIELD_TOOLTYPE 0 (put_field WACOMFIELD_PROXIMITY 0 (chan_at p ?c)))
      \<lparr>ch_tools := {u. bit (chan_prox p4) u}\<rparr>"
    using w2 w4 by (simp add: chan_at_def put_field_def p4_def wf_usb_def upd_state_def)
  show ?thesis
  proof (cases "chan_prox p4 = 0")
    case True
    have "wf_state (chan_state p4)" using w4(1) by (rule wf_usb_chan)
    note z = zero_values_wf [OF this, unfolded w4(3)]
    have "(chan_state p4)\<lparr>values_arr := vs\<rparr> = (chan_state p)\<lparr>values_arr := vs\<rparr>" for vs
      using arg_cong [OF at4, of ch_state] w4(3) by (simp add: chan_at_sel put_nValue_def)
    then have "chan_at (upd_state (\<lambda>_. (chan_state p4)\<lparr>values_arr := replicate WACOMFIELD_MAX zero_value\<rparr>) p4) ?c =
        spec_tool_out t (chan_at p ?c)"
      using chan_at_upd(1) [OF w4(1)] tools True at4 w4(3)
      by (intro channel.equality) (simp_all add: spec_tool_out_def Let_def chan_at_sel)
    then show ?thesis using True w4 by (simp add: eq z)
  next
    case False
    have "switch_tool [1..<10] p4 = chan_set WACOMFIELD_TOOLTYPE (of_nat (Max {u. bit (chan_prox p4) u})) p4"
      by (rule switch_tool_Max [OF w4(1,2) False])
    moreover have "(if ?ser then ch_tools (chan_at p ?c) - {t} else {}) \<noteq> {}"
      using False tools prox_empty [of "chan_prox p4"] by simp
    ultimately show ?thesis
      using False w4 tools at4 chan_at_set [OF w4(1)]
      by (simp add: eq spec_tool_out_def Let_def chan_at_sel put_field_def)
  qed
qed

lemma USBParseMSC_spec:
  assumes "wf_usb p"
  shows "chan_at (USBParseMSC p ev) (u_nChannel p) = spec_serial ev (chan_at p (u_nChannel p))"
    and "tools_ok (USBParseMSC p ev) = tools_ok p"
proof -
  define p1 where "p1 = (if ev_code ev = MSC_SERIAL \<and> ev_value ev \<noteq> 0
    then chan_set WACOMFIELD_SERIAL (ev_value ev) p else p)"
  define ch1 where "ch1 = (if ev_code ev = MSC_SERIAL \<and> ev_value ev \<noteq> 0
    then put_field WACOMFIELD_SERIAL (ev_value ev) (chan_at p (u_nChannel p)) else chan_at p (u_nChannel p))"
  have p1: "wf_usb p1" "u_nChannel p1 = u_nChannel p" "tools_ok p1 = tools_ok p" "chan_at p1 (u_nChannel p) = ch1"
    using assms by (auto simp: p1_def ch1_def chan_at_set simp del: chan_at_upd)
  have "chan_state p1 = ch_state ch1" using p1 by (simp flip: p1(4) add: chan_at_sel)
  then show "chan_at (USBParseMSC p ev) (u_nChannel p) = spec_serial ev (chan_at p (u_nChannel p))"
    using p1 chan_at_set [OF p1(1)]
    unfolding USBParseMSC_def Let_def spec_serial_def p1_def [symmetric] ch1_def [symmetric] by simp
  show "tools_ok (USBParseMSC p ev) = tools_ok p"
    using p1(3) unfolding USBParseMSC_def Let_def p1_def [symmetric] by simp
qed

lemma usb_event_spec:
  assumes "wf_usb p" and "tools_ok p" and "known_event ev"
  shows "\<exists>p'. usb_event pad p ev = Some (Inr p') \<and> keeps p p' \<and> tools_ok p' \<and>
    chan_at p' (u_nChannel p) = spec_event pad ev (chan_at p (u_nChannel p))"
proof -
  let ?c = "u_nChannel p"
  have *: "\<exists>p'. usb_event pad p ev = Some (Inr p') \<and> tools_ok p' \<and> chan_at p' ?c = spec_event pad ev (chan_at p ?c)"
  proof -
    consider "ev_type ev = EV_SYN \<or> ev_type ev = EV_MSC" | "ev_type ev = EV_KEY" | "ev_type ev = EV_ABS" | "ev_type ev = EV_REL"
      using assms(3) by (auto simp: known_event_def)
    then show ?thesis
    proof cases
      case 1
      then show ?thesis using assms(1,2) USBParseMSC_spec [OF assms(1), of ev] by (auto simp: usb_event_def spec_event_def)
    next
      case 2
      show ?thesis
      proof (cases "key_meaning pad (ev_code ev)")
        case Key_none
        then show ?thesis using 2 assms(2) by (simp add: usb_event_def USBParseKEY_def spec_event_def)
      next
        case (Key_button b)
        then show ?thesis using 2 assms(1,2)
          by (auto simp: usb_event_def USBParseKEY_def spec_event_def key_button_def spec_button_def Let_def
              chan_at_set chan_at_sel simp del: chan_at_upd)
      next
        case (Key_tool t)
        note r = key_tool_range [OF Key_tool]
        show ?thesis
          using 2 Key_tool tool_in_spec [OF assms(1,2) r] tool_out_spec [OF assms(1,2) r]
          by (auto simp: usb_event_def USBParseKEY_def spec_event_def)
      qed
    next
      case 3
      then show ?thesis using assms(1,2)
        by (auto simp: usb_event_def USBParseABS_def spec_event_def chan_at_set simp del: chan_at_upd)
    next
      case 4
      then show ?thesis using assms(1,2)
        by (auto simp: usb_event_def USBParseREL_def spec_event_def chan_at_set simp del: chan_at_upd)
    qed
  qed
  then show ?thesis using usb_event_keeps [OF keeps_refl [OF assms(1)], of pad ev] by auto
qed

lemma keeps_trans: "keeps p q \<Longrightarrow> keeps q r \<Longrightarrow> keeps p r"
  by (auto simp: keeps_def other_channels_def)

lemma usb_events_spec:
  "wf_usb p \<Longrightarrow> tools_ok p \<Longrightarrow> list_all known_event evs \<Longrightarrow>
   \<exists>p'. usb_events pad p evs = Some (Inr p') \<and> keeps p p' \<and> tools_ok p' \<and>
     chan_at p' (u_nChannel p) = fold (spec_event pad) evs (chan_at p (u_nChannel p))"
proof (induction evs arbitrary: p)
  case (Cons ev evs)
  then obtain p1 where p1: "usb_event pad p ev = Some (Inr p1)" "keeps p p1" "tools_ok p1"
      "chan_at p1 (u_nChannel p) = spec_event pad ev (chan_at p (u_nChannel p))"
    using usb_event_spec [of p ev pad] by auto
  then have "u_nChannel p1 = u_nChannel p" "wf_usb p1" by (simp_all add: keeps_def other_channels_def)
  then show ?case using Cons.IH [of p1] Cons.prems p1 keeps_trans by auto
qed (simp add: keeps_refl)

end
