(* ===== verification/Usb_Session.thy ===== *)
theory Usb_Session
  imports Usb_Channels
begin

text \<open>
  Whole reports through \<open>USBParseData\<close>, and the ways a report fails.
\<close>

section \<open>Feeding events\<close>

text \<open>The client's loop: one call for each event read, until one fails.\<close>

fun usb_feed :: "u16 list \<Rightarrow> USBTABLET \<Rightarrow> u8 list list \<Rightarrow> WACOMSTATE option \<Rightarrow>
    (rc \<times> USBTABLET \<times> WACOMSTATE option) option" where
  "usb_feed pad p [] st = Some (rc_ok, p, st)"
| "usb_feed pad p (b # bs) st = do {
     (r, p1, st1) \<leftarrow> USBParseData pad p b sizeof_input_event st;
     if fst r \<noteq> 0 then Some (r, p1, st1) else usb_feed pad p1 bs st1
   }"

definition accept :: "input_event \<Rightarrow> USBTABLET \<Rightarrow> USBTABLET" where
  "accept ev p = (if names_serial ev then (buffered p ev)\<lparr>u_nLastToolSerial := ev_value ev\<rparr> else buffered p ev)"

text \<open>The serial number a report names: the last one.\<close>

definition report_serial :: "input_event list \<Rightarrow> s32 \<Rightarrow> s32" where
  "report_serial evs s = fold (\<lambda>ev s. if names_serial ev then ev_value ev else s) evs s"

lemma accept_fields [simp]:
  "u_state (accept ev p) = u_state p" "u_nToolProx (accept ev p) = u_nToolProx p"
  "u_pDevice (accept ev p) = u_pDevice p" "u_nChannel (accept ev p) = u_nChannel p"
  "u_nEventCnt (accept ev p) = u_nEventCnt p + 1" "length (u_events (accept ev p)) = length (u_events p)"
  "u_nLastToolSerial (accept ev p) = (if names_serial ev then ev_value ev else u_nLastToolSerial p)"
  by (simp_all add: accept_def) (simp_all add: buffered_def)

lemma accept_events:
  "u_nEventCnt p < length (u_events p) \<Longrightarrow>
   take (u_nEventCnt p + 1) (u_events (accept ev p)) = take (u_nEventCnt p) (u_events p) @ [ev]"
  by (simp add: accept_def buffered_def take_Suc_conv_app_nth)

lemma accept_all_fields [simp]:
  "u_state (fold accept evs p) = u_state p" "u_nToolProx (fold accept evs p) = u_nToolProx p"
  "u_pDevice (fold accept evs p) = u_pDevice p" "u_nChannel (fold accept evs p) = u_nChannel p"
  "u_nEventCnt (fold accept evs p) = u_nEventCnt p + length evs"
  "length (u_events (fold accept evs p)) = length (u_events p)"
  "u_nLastToolSerial (fold accept evs p) = report_serial evs (u_nLastToolSerial p)"
  by (induction evs arbitrary: p) (simp_all add: report_serial_def)

lemma accept_all_events:
  "u_nEventCnt p + length evs \<le> length (u_events p) \<Longrightarrow>
   take (u_nEventCnt p + length evs) (u_events (fold accept evs p)) = take (u_nEventCnt p) (u_events p) @ evs"
proof (induction evs arbitrary: p)
  case (Cons ev evs)
  then show ?case using Cons.IH [of "accept ev p"] accept_events [of p ev] by simp
qed simp

lemma usb_feed_inside:
  "list_all (\<lambda>ev. \<not> ends_report ev) evs \<Longrightarrow> u_nEventCnt p + length evs \<le> MAX_USB_EVENTS \<Longrightarrow>
   usb_feed pad p (map event_bytes evs @ bs) st = usb_feed pad (fold accept evs p) bs st"
  by (induction evs arbitrary: p) (auto simp: ParseData_inside accept_def)

lemma wf_usb_accept:
  "wf_usb p \<Longrightarrow> u_nEventCnt p + length evs \<le> MAX_USB_EVENTS \<Longrightarrow> wf_usb (fold accept evs p)"
  by (simp add: wf_usb_def)

section \<open>A report\<close>

definition syn :: "s32 \<Rightarrow> input_event" where "syn v = event EV_SYN SYN_REPORT v"

lemma syn_simps [simp]: "ends_report (syn v)" "known_event (syn v)" "\<not> names_serial (syn v)"
  by (simp_all add: syn_def ends_report_def known_event_def names_serial_def)

text \<open>The channel \<open>USBParseData\<close> selects for a report of the serial number \<open>s\<close>.\<close>

definition channel_for :: "USBTABLET \<Rightarrow> s32 \<Rightarrow> nat option" where
  "channel_for p s = report_channel (p\<lparr>u_nLastToolSerial := s\<rparr>)"

lemma report_channel_cong:
  "u_state p = u_state q \<Longrightarrow> u_nToolProx p = u_nToolProx q \<Longrightarrow> u_pDevice p = u_pDevice q \<Longrightarrow>
   u_nChannel p = u_nChannel q \<Longrightarrow> u_nLastToolSerial p = u_nLastToolSerial q \<Longrightarrow> report_channel p = report_channel q"
  by (simp add: report_channel_def find_channel_def split: option.split)

lemma channel_for_owner:
  assumes "channel_for p s = Some c" and "u_pDevice p = Some d" and "1 < ud_uChannelCnt d"
  shows "get_nValue WACOMFIELD_SERIAL (u_state p ! c) = s \<or> u_nToolProx p ! c = 0"
  using assms by (auto simp: channel_for_def report_channel_def find_channel_def split: option.splits dest!: find_SomeD)

lemma chan_at_channel [simp]: "chan_at (p\<lparr>u_nChannel := c\<rparr>) c' = chan_at p c'"
  by (simp add: chan_at_def)

lemma keeps_others:
  "keeps p q \<Longrightarrow> c \<noteq> u_nChannel p \<Longrightarrow> c < length (u_state p) \<Longrightarrow> chan_at q c = chan_at p c"
  by (simp add: keeps_def other_channels_def chan_at_def)

text \<open>A complete report, on any well-formed tablet with an empty buffer.\<close>

lemma report_applied:
  assumes wf: "wf_usb p" and tools: "tools_ok p" and empty: "u_nEventCnt p = 0"
    and evs: "list_all (\<lambda>ev. known_event ev \<and> \<not> ends_report ev) evs" and len: "length evs < MAX_USB_EVENTS"
    and chan: "channel_for p (report_serial evs (u_nLastToolSerial p)) = Some c" and st: "pred_option wf_state st"
  shows "\<exists>p'. usb_feed pad p (map event_bytes (evs @ [syn v])) st = Some (rc_ok, p', map_option (\<lambda>_. ch_state (chan_at p' c)) st) \<and>
    chan_at p' c = fold (spec_event pad) (evs @ [syn v]) (put_field WACOMFIELD_RELWHEEL 0 (chan_at p c)) \<and>
    (\<forall>c' < MAX_CHANNELS. c' \<noteq> c \<longrightarrow> chan_at p' c' = chan_at p c') \<and>
    wf_usb p' \<and> tools_ok p' \<and> u_nEventCnt p' = 0 \<and> u_nLastToolSerial p' = 0 \<and> u_pDevice p' = u_pDevice p"
proof -
  let ?q = "fold accept evs p"
  have q: "wf_usb ?q" using wf_usb_accept [OF wf] len empty by simp
  have rc: "report_channel ?q = Some c"
    using chan unfolding channel_for_def by (subst report_channel_cong [of ?q "p\<lparr>u_nLastToolSerial := report_serial evs (u_nLastToolSerial p)\<rparr>"]) simp_all
  define q1 where "q1 = (buffered ?q (syn v))\<lparr>u_nChannel := c\<rparr>"
  define q2 where "q2 = chan_set WACOMFIELD_RELWHEEL 0 q1"
  have c: "c < MAX_CHANNELS" using report_channel_bound [OF q rc] .
  have q1: "wf_usb q1" "u_nChannel q1 = c" "u_state q1 = u_state p" "u_nToolProx q1 = u_nToolProx p" "u_pDevice q1 = u_pDevice p"
    using q c len empty by (simp_all add: q1_def)
  then have q2: "wf_usb q2" "tools_ok q2" "u_nChannel q2 = c"
    using tools by (simp_all add: q2_def tools_ok_def)
  have at: "chan_at q1 c' = chan_at p c'" for c' using q1 by (simp add: chan_at_def)
  have events: "take (u_nEventCnt q2) (u_events q2) = evs @ [syn v]"
  proof -
    have "take (u_nEventCnt ?q) (u_events ?q) = evs"
      using accept_all_events [of p evs] wf empty len by (simp add: wf_usb_def)
    moreover have "u_nEventCnt ?q < length (u_events ?q)"
      using wf empty len by (simp add: wf_usb_def)
    ultimately show ?thesis
      using accept_events [of ?q "syn v"] by (simp add: q2_def q1_def accept_def)
  qed
  have "list_all known_event (evs @ [syn v])" using evs by (auto simp: list_all_iff)
  from usb_events_spec [OF q2(1,2) this, of pad] q2(3) obtain p2 where
    p2: "usb_events pad q2 (evs @ [syn v]) = Some (Inr p2)" "keeps q2 p2" "tools_ok p2"
    "chan_at p2 c = fold (spec_event pad) (evs @ [syn v]) (chan_at q2 c)" by auto
  have p2c: "u_nChannel p2 = c" "wf_usb p2" "u_pDevice p2 = u_pDevice p"
    using p2(2) q2(3) q1(5) by (simp_all add: keeps_def other_channels_def q2_def)
  have "finish_report pad q1 st = Some (rc_ok, drop_report p2, map_option (\<lambda>_. chan_state p2) st)"
    using p2(1) events wf_usb_chan [OF p2c(2)] st
    by (cases st) (simp_all add: finish_report_def Let_def WacomCopyState_eq flip: q2_def)
  then have "usb_feed pad p (map event_bytes (evs @ [syn v])) st =
      Some (rc_ok, drop_report p2, map_option (\<lambda>_. ch_state (chan_at (drop_report p2) c)) st)"
    using usb_feed_inside [of evs p pad "[event_bytes (syn v)]" st] evs len empty rc p2c(1)
    by (simp add: list_all_iff ParseData_end [OF q] chan_at_sel flip: q1_def)
  moreover have "chan_at (drop_report p2) c' = chan_at p c'" if "c' < MAX_CHANNELS" "c' \<noteq> c" for c'
  proof -
    have "chan_at p2 c' = chan_at q2 c'" using keeps_others [OF p2(2)] q2 that by (simp add: wf_usb_def)
    also have "\<dots> = chan_at q1 c'" using that q1(2) by (simp add: q2_def chan_at_def upd_state_def)
    finally show ?thesis by (simp add: at) (simp add: chan_at_def)
  qed
  moreover have "chan_at (drop_report p2) c = fold (spec_event pad) (evs @ [syn v]) (put_field WACOMFIELD_RELWHEEL 0 (chan_at p c))"
    using p2(4) chan_at_set [OF q1(1)] q1(2) at by (simp add: q2_def chan_at_def)
  ultimately show ?thesis
    using p2c p2(3) by (intro exI [of _ "drop_report p2"]) (simp add: tools_ok_def)
qed

text \<open>C11: A USB report acts as a whole, on one channel. On any well-formed tablet with an empty
  buffer, a report of fewer than 32 events of known types and its end, received event by event, is
  what the events mean for the channel of the report's serial number (the wheel being relative to
  the report); the client holds that channel's state, every other channel is untouched, a channel
  of a two-channel tablet is only taken over when no tool is in it, and the buffer is empty again.\<close>

theorem usb_report_refines:
  assumes "wf_usb p" and "tools_ok p" and "u_nEventCnt p = 0"
    and "list_all (\<lambda>ev. known_event ev \<and> \<not> ends_report ev) evs" and "length evs < MAX_USB_EVENTS"
    and "channel_for p (report_serial evs (u_nLastToolSerial p)) = Some c" and "wf_state st"
  shows "\<exists>p'. usb_feed pad p (map event_bytes (evs @ [syn v])) (Some st) = Some (rc_ok, p', Some (ch_state (chan_at p' c))) \<and>
    chan_at p' c = fold (spec_event pad) (evs @ [syn v]) (put_field WACOMFIELD_RELWHEEL 0 (chan_at p c)) \<and>
    (\<forall>c' < MAX_CHANNELS. c' \<noteq> c \<longrightarrow> chan_at p' c' = chan_at p c') \<and>
    (\<forall>d. u_pDevice p = Some d \<and> 1 < ud_uChannelCnt d \<longrightarrow>
       get_nValue WACOMFIELD_SERIAL (ch_state (chan_at p c)) = report_serial evs (u_nLastToolSerial p) \<or>
       ch_tools (chan_at p c) = {}) \<and>
    wf_usb p' \<and> tools_ok p' \<and> u_nEventCnt p' = 0 \<and> u_nLastToolSerial p' = 0"
proof -
  have "pred_option wf_state (Some st)" using assms(7) by simp
  from report_applied [OF assms(1-6) this, of pad v] show ?thesis
    using channel_for_owner [OF assms(6)] by (auto simp: chan_at_sel)
qed

lemma intuos2_usb_ok: "wf_usb intuos2_usb" "tools_ok intuos2_usb" "u_nEventCnt intuos2_usb = 0" "u_nLastToolSerial intuos2_usb = 0"
  by (simp_all add: intuos2_usb_def wf_usb_def tools_ok_def new_usb_tablet_def usb_device_tables WACOMSTATE_INIT_def
      wf_state_def nth_Cons' list_all_iff)

theorem usb_report_refines_witness:
  "\<exists>p'. usb_feed [] intuos2_usb (map event_bytes ([event EV_KEY BTN_TOOL_PEN 1, event EV_MSC MSC_SERIAL 77] @ [syn 0])) (Some WACOMSTATE_INIT) =
      Some (rc_ok, p', Some (ch_state (chan_at p' 0))) \<and>
    chan_at p' 0 = fold (spec_event []) ([event EV_KEY BTN_TOOL_PEN 1, event EV_MSC MSC_SERIAL 77] @ [syn 0])
      (put_field WACOMFIELD_RELWHEEL 0 (chan_at intuos2_usb 0))"
proof -
  have "channel_for intuos2_usb (report_serial [event EV_KEY BTN_TOOL_PEN 1, event EV_MSC MSC_SERIAL 77] (u_nLastToolSerial intuos2_usb)) = Some 0"
    by (simp add: channel_for_def report_channel_def find_channel_def report_serial_def names_serial_def intuos2_usb_def
        new_usb_tablet_def usb_device_tables WACOMSTATE_INIT_def zero_value_def nth_Cons' upt_rec)
  from usb_report_refines [OF intuos2_usb_ok(1-3) _ _ this, of WACOMSTATE_INIT "[]" 0] show ?thesis
    by (auto simp: known_event_def ends_report_def WACOMSTATE_INIT_def wf_state_def)
qed

section \<open>Reports that fail\<close>

lemma ends_cases:
  obtains "\<not> ends_report ev" | "ends_report ev" "known_event ev"
  by (cases "ends_report ev") (auto simp: ends_report_def known_event_def)

lemma usb_events_known: "usb_events pad p evs = Some (Inr p') \<Longrightarrow> list_all known_event evs"
  by (induction evs arbitrary: p)
     (auto simp: usb_event_def known_event_def split: bind_splits if_splits sum.splits)

text \<open>A buffer that holds an event of a type the driver does not know.\<close>

definition jammed :: "USBTABLET \<Rightarrow> bool" where
  "jammed p \<longleftrightarrow> \<not> list_all known_event (take (u_nEventCnt p) (u_events p))"

lemma jammed_finish:
  assumes "wf_usb p" and "jammed p" and "pred_option wf_state st"
  shows "\<exists>t p'. finish_report pad p st = Some ((int (unat (t :: u16)), Some EINVAL), p', st) \<and> t \<noteq> 0 \<and>
    wf_usb p' \<and> u_nEventCnt p' = u_nEventCnt p \<and> u_events p' = u_events p"
  using assms(1,3)
proof (cases rule: finish_report_cases [of p st pad])
  case (unknown p' t)
  then show ?thesis by (intro exI [of _ t] exI [of _ p']) (simp add: other_channels_def)
next
  case (applied p')
  then show ?thesis
    using assms(2,3) usb_events_known
    by (auto simp: finish_report_def Let_def jammed_def split: bind_splits sum.splits option.splits)
qed

lemma jammed_buffered:
  assumes "jammed p" and "wf_usb p" and "u_nEventCnt p < MAX_USB_EVENTS"
  shows "jammed (buffered p ev)" "jammed (accept ev p)"
  using assms accept_events [of p ev] by (simp_all add: jammed_def wf_usb_def accept_def buffered_def split: if_splits)

lemma jammed_cong: "jammed p \<Longrightarrow> u_nEventCnt p' = u_nEventCnt p \<Longrightarrow> u_events p' = u_events p \<Longrightarrow> jammed p'"
  by (simp add: jammed_def)

text \<open>C40: One event of an unknown type jams the driver. From then on every further event is one
  more in the buffer, every end of a report fails with \<open>EINVAL\<close> and a positive result, and the client's
  state is never set again, until the buffer of 32 events is dropped with \<open>ENOBUFS\<close> (or a report
  finds no channel, which drops it too).\<close>

theorem usb_unknown_event_jams:
  assumes "wf_usb p" and "jammed p" and "pred_option wf_state st" and "sizeof_input_event \<le> length b"
  shows "\<exists>r p'. USBParseData pad p b sizeof_input_event st = Some (r, p', st) \<and> wf_usb p' \<and>
    (r = (-1, Some ENOBUFS) \<and> u_nEventCnt p' = 0 \<or>
     jammed p' \<and> u_nEventCnt p' = u_nEventCnt p + 1 \<and>
     (if ends_report (event_at b) then 0 < fst r \<and> snd r = Some EINVAL else r = rc_ok))"
proof -
  consider "MAX_USB_EVENTS \<le> u_nEventCnt p"
    | "u_nEventCnt p < MAX_USB_EVENTS" "\<not> ends_report (event_at b)"
    | "u_nEventCnt p < MAX_USB_EVENTS" "ends_report (event_at b)" by linarith
  then show ?thesis
  proof cases
    case 1
    then show ?thesis using assms by (simp add: ParseData_full)
  next
    case 2
    then have "wf_usb (accept (event_at b) p)" using wf_usb_accept [OF assms(1), of "[event_at b]"] by simp
    then show ?thesis using 2 assms jammed_buffered(2) [OF assms(2,1) 2(1), of "event_at b"]
      by (simp add: ParseData_inside accept_def)
  next
    case 3
    show ?thesis
    proof (cases "report_channel p")
      case None
      then show ?thesis using 3 assms by (simp add: ParseData_end)
    next
      case (Some c)
      let ?q = "(buffered p (event_at b))\<lparr>u_nChannel := c\<rparr>"
      have q: "wf_usb ?q" using 3 assms(1) report_channel_bound [OF assms(1) Some] by simp
      have "jammed ?q" using jammed_buffered(1) [OF assms(2,1) 3(1)] by (rule jammed_cong) simp_all
      from jammed_finish [OF q this assms(3), of pad] obtain t p' where
        f: "finish_report pad ?q st = Some ((int (unat (t :: u16)), Some EINVAL), p', st)" "t \<noteq> 0"
          "wf_usb p'" "u_nEventCnt p' = u_nEventCnt ?q" "u_events p' = u_events ?q" by blast
      moreover have "0 < int (unat t)" using f(2) unat_gt_0 [of t] by linarith
      moreover have "jammed p'" using jammed_cong [OF \<open>jammed ?q\<close> f(4,5)] .
      ultimately show ?thesis using 3 assms Some by (simp add: ParseData_end)
    qed
  qed
qed

theorem usb_unknown_event_jams_witness:
  "\<exists>r p'. USBParseData [] (accept (event 0x15 0 1) intuos2_usb) (event_bytes (syn 0)) sizeof_input_event (Some WACOMSTATE_INIT) =
      Some (r, p', Some WACOMSTATE_INIT) \<and> wf_usb p' \<and>
    (r = (-1, Some ENOBUFS) \<and> u_nEventCnt p' = 0 \<or>
     jammed p' \<and> u_nEventCnt p' = 2 \<and> 0 < fst r \<and> snd r = Some EINVAL)"
proof -
  let ?p = "accept (event 0x15 0 1) intuos2_usb"
  have n: "u_nEventCnt intuos2_usb = 0" "u_nEventCnt ?p = 1" using intuos2_usb_ok by simp_all
  have "wf_usb ?p" using wf_usb_accept [OF intuos2_usb_ok(1), of "[event 0x15 0 1]"] n by simp
  moreover have "u_nEventCnt intuos2_usb < length (u_events intuos2_usb)"
    using intuos2_usb_ok(1) n by (simp add: wf_usb_def)
  from accept_events [OF this, of "event 0x15 0 1"] have "jammed ?p"
    using n by (simp add: jammed_def known_event_def)
  moreover have "pred_option wf_state (Some WACOMSTATE_INIT)" by (simp add: wf_state_def WACOMSTATE_INIT_def)
  ultimately show ?thesis
    using usb_unknown_event_jams [of ?p "Some WACOMSTATE_INIT" "event_bytes (syn 0)" "[]"] n by auto
qed

text \<open>A report of more than 32 events is lost. After 32 events without an end, whatever they are,
  the 33rd is refused with \<open>ENOBUFS\<close>: it and the 32 are dropped, nothing of them reaches
  a channel, and the driver is ready for a new report.\<close>

theorem usb_overflow:
  assumes "wf_usb p" and "u_nEventCnt p = 0" and "length evs = MAX_USB_EVENTS"
    and "list_all (\<lambda>ev. \<not> ends_report ev) evs"
  shows "\<exists>p'. usb_feed pad p (map event_bytes (evs @ [ev])) st = Some ((-1, Some ENOBUFS), p', st) \<and>
    wf_usb p' \<and> u_state p' = u_state p \<and> u_nToolProx p' = u_nToolProx p \<and> u_nEventCnt p' = 0 \<and> u_nLastToolSerial p' = 0"
proof -
  have "wf_usb (fold accept evs p)" using wf_usb_accept [OF assms(1)] assms(2,3) by simp
  then show ?thesis
    using assms(2,3) usb_feed_inside [OF assms(4), of p pad "[event_bytes ev]" st] by (simp add: ParseData_full)
qed

theorem usb_overflow_witness:
  "\<exists>p'. usb_feed [] intuos2_usb (map event_bytes (replicate 32 (event EV_ABS ABS_X 7) @ [syn 0])) None = Some ((-1, Some ENOBUFS), p', None) \<and>
    wf_usb p' \<and> u_state p' = u_state intuos2_usb \<and> u_nToolProx p' = u_nToolProx intuos2_usb \<and> u_nEventCnt p' = 0 \<and> u_nLastToolSerial p' = 0"
  by (rule usb_overflow [OF intuos2_usb_ok(1,3)]) (simp_all add: ends_report_def list_all_iff)

text \<open>When one of two tools leaves, the channel claims that none is near. On a channel with
  serial numbers whose remaining tool is \<open>u\<close>, the event that takes \<open>t\<close> away sets the tool type
  to the highest remaining tool, but the proximity to 0.\<close>

theorem usb_tool_out_proximity:
  assumes "wf_usb p" and "tools_ok p" and "bit (uValid (chan_state p)) WACOMFIELD_SERIAL"
    and "bit (chan_prox p) u" and "u \<noteq> t"
    and "ev_type ev = EV_KEY" and "key_meaning pad (ev_code ev) = Key_tool t" and "ev_value ev = 0"
  shows "\<exists>p'. usb_event pad p ev = Some (Inr p') \<and>
    chan_get WACOMFIELD_PROXIMITY p' = 0 \<and>
    chan_get WACOMFIELD_TOOLTYPE p' = of_nat (Max (ch_tools (chan_at p (u_nChannel p)) - {t})) \<and>
    bit (chan_prox p') u"
proof -
  let ?c = "u_nChannel p" let ?ts = "ch_tools (chan_at p ?c) - {t}"
  have "known_event ev" using assms(6) by (simp add: known_event_def)
  from usb_event_spec [OF assms(1,2) this, of pad] obtain p' where
    p': "usb_event pad p ev = Some (Inr p')" "keeps p p'" "chan_at p' ?c = spec_event pad ev (chan_at p ?c)" by blast
  have ne: "u \<in> ?ts" using assms(4,5) by (simp add: chan_at_sel)
  have len: "length (values_arr (chan_state p)) = WACOMFIELD_MAX"
    using wf_usb_chan [OF assms(1)] by (simp add: wf_state_def)
  have "chan_at p' ?c = (put_field WACOMFIELD_TOOLTYPE (of_nat (Max ?ts)) (put_field WACOMFIELD_PROXIMITY 0 (chan_at p ?c)))\<lparr>ch_tools := ?ts\<rparr>"
    using p'(3) assms(3,6-8) ne by (auto simp: spec_event_def spec_tool_out_def Let_def chan_at_sel)
  from arg_cong [OF this, of ch_state] arg_cong [OF this, of ch_tools] show ?thesis
    using p'(1,2) len ne by (auto simp: chan_at_sel keeps_def other_channels_def)
qed

theorem usb_tool_out_proximity_witness:
  "\<exists>p'. usb_event [] (intuos2_usb\<lparr>u_nToolProx := [BIT 1 OR BIT 4, 0]\<rparr>) (event EV_KEY BTN_TOOL_PEN 0) = Some (Inr p') \<and>
    chan_get WACOMFIELD_PROXIMITY p' = 0 \<and>
    chan_get WACOMFIELD_TOOLTYPE p' = of_nat (Max (ch_tools (chan_at (intuos2_usb\<lparr>u_nToolProx := [BIT 1 OR BIT 4, 0]\<rparr>)
      (u_nChannel (intuos2_usb\<lparr>u_nToolProx := [BIT 1 OR BIT 4, 0]\<rparr>))) - {1})) \<and>
    bit (chan_prox p') 4"
proof (rule usb_tool_out_proximity)
  show "tools_ok (intuos2_usb\<lparr>u_nToolProx := [BIT 1 OR BIT 4, 0]\<rparr>)"
    by (auto simp: tools_ok_def bit_simps less_2_cases_iff)
  show "wf_usb (intuos2_usb\<lparr>u_nToolProx := [BIT 1 OR BIT 4, 0]\<rparr>)" using intuos2_usb_ok(1) by (simp add: wf_usb_def)
qed (simp_all add: intuos2_usb_def new_usb_tablet_def key_meaning_def bit_simps)

end
