(* ===== verification/Usb_Open.thy ===== *)
theory Usb_Open
  imports Usb_Session
begin

text \<open>
  Opening a USB tablet, for every behaviour of the kernel, and reading its events.
\<close>

section \<open>What identification keeps\<close>

definition ident_ok :: "USBTABLET \<Rightarrow> USBTABLET \<Rightarrow> bool" where
  "ident_ok p p' \<longleftrightarrow> (\<exists>sts. p' = p\<lparr>u_state := sts\<rparr> \<and> length sts = length (u_state p) \<and> wf_state (sts ! 0))"

lemma ident_ok_refl: "wf_state (u_state p ! 0) \<Longrightarrow> ident_ok p p"
  by (auto simp: ident_ok_def intro: exI [of _ "u_state p"])

lemma ident_ok_trans: "ident_ok p q \<Longrightarrow> ident_ok q r \<Longrightarrow> ident_ok p r"
  by (auto simp: ident_ok_def)

lemma ident_ok_set:
  "wf_state st \<Longrightarrow> u_state p \<noteq> [] \<Longrightarrow> ident_ok p (p\<lparr>u_state := (u_state p)[0 := st]\<rparr>)"
  by (auto simp: ident_ok_def intro!: exI [of _ "(u_state p)[0 := st]"])

lemma ident_ok_wf: "ident_ok p p' \<Longrightarrow> wf_state (u_state p' ! 0)" "ident_ok p p' \<Longrightarrow> u_state p \<noteq> [] \<Longrightarrow> u_state p' \<noteq> []"
  by (auto simp: ident_ok_def)

lemma wf_state_valid [simp]: "wf_state (s\<lparr>uValid := v\<rparr>) = wf_state s"
  by (simp add: wf_state_def)

lemma add_valid_ok:
  assumes "wf_state (u_state p ! 0)" and "u_state p \<noteq> []"
  shows "ident_ok p (add_valid m p)"
  using assms by (simp add: add_valid_def ident_ok_set)

lemma USBGetRange_ok:
  assumes "wf_state (u_state p ! 0)" and "u_state p \<noteq> []" and "USBGetRange p bits a f w = (r, p', w')"
  shows "ident_ok p p'"
  using assms by (auto simp: USBGetRange_def Let_def split: if_splits prod.splits intro!: ident_ok_refl ident_ok_set)

lemma get_ranges_ok:
  "wf_state (u_state p ! 0) \<Longrightarrow> u_state p \<noteq> [] \<Longrightarrow> get_ranges p bits fs w = (r, p', w') \<Longrightarrow> ident_ok p p'"
proof (induction p bits fs w rule: get_ranges.induct)
  case (2 p bits a f fs w)
  obtain r1 p1 w1 where g: "USBGetRange p bits a f w = (r1, p1, w1)" by (cases "USBGetRange p bits a f w")
  note ok = USBGetRange_ok [OF 2(2,3) g]
  show ?case
  proof (cases "r1 = 0")
    case True
    then have "get_ranges p1 bits fs w1 = (r, p', w')" using 2(4) g by simp
    from 2(1) [OF g [symmetric] refl refl _ ident_ok_wf(1) [OF ok] ident_ok_wf(2) [OF ok 2(3)] this]
    show ?thesis using True ident_ok_trans [OF ok] by simp
  next
    case False
    then show ?thesis using 2(4) g ok by simp
  qed
qed (simp add: ident_ok_refl)

lemma ident_abs_ok:
  assumes "wf_state (u_state p ! 0)" and "u_state p \<noteq> []" and "ident_abs p ev w = (r, p', w')"
  shows "ident_ok p p'"
  using assms by (auto simp: ident_abs_def Let_def split: if_splits prod.splits intro: ident_ok_refl get_ranges_ok)

lemma ident_rel_ok:
  assumes "wf_state (u_state p ! 0)" and "u_state p \<noteq> []" and "ident_rel p ev w = Some (r, p', w')"
  shows "ident_ok p p'"
proof -
  let ?q = "add_valid (BIT WACOMFIELD_RELWHEEL) p"
  let ?r = "?q\<lparr>u_state := (u_state ?q)[0 := put_nMax WACOMFIELD_RELWHEEL 1
      (put_nMin WACOMFIELD_RELWHEEL (- 1) (u_state ?q ! 0))]\<rparr>"
  have q: "ident_ok p ?q" by (rule add_valid_ok [OF assms(1,2)])
  have "ident_ok ?q ?r" using ident_ok_wf(1) [OF q] ident_ok_wf(2) [OF q assms(2)] by (intro ident_ok_set) simp_all
  with q have r: "ident_ok p ?r" by (rule ident_ok_trans)
  from assms(3) have "p' = p \<or> p' = ?r" by (auto simp: ident_rel_def Let_def split: if_splits prod.splits)
  then show ?thesis using r ident_ok_refl [OF assms(1)] by auto
qed

text \<open>The search for pad keys always leaves its array.\<close>

lemma detect_padkeys_outside: "i \<in> set is \<Longrightarrow> length padkey_codes \<le> i \<Longrightarrow> detect_padkeys bits is = None"
  by (induction "is") auto

lemma detect_padkeys_None: "detect_padkeys bits [0..<WACOMBUTTON_MAX] = None"
  by (rule detect_padkeys_outside [of "31"]) (simp_all add: padkey_codes_def)

lemma ident_key_ok: "ident_key p ev w = Some (0, p', keys, w') \<Longrightarrow> p' = p \<and> keys = [] \<and> \<not> is_bit_set ev EV_KEY"
  by (auto simp: ident_key_def Let_def detect_padkeys_None split: if_splits prod.splits)

section \<open>An opened tablet\<close>

lemma find_product_in: "find_product n ds = Some (d, s) \<Longrightarrow> d \<in> set ds \<and> s \<in> set (ud_pSubTypes d)"
  by (induction ds) (auto split: option.splits dest: find_SomeD)

lemma channel_counts: "list_all (\<lambda>v. list_all (\<lambda>d. ud_uChannelCnt d \<le> MAX_CHANNELS) (uv_pDevices v)) uxVendors"
  by (simp add: uxVendors_def usb_device_tables)

lemma USBFindModel_cases:
  obtains v d s where "USBFindModel p vn pr = p\<lparr>u_pVendor := Some v, u_pDevice := Some d, u_pSubType := Some s\<rparr>"
    and "ud_uChannelCnt d \<le> MAX_CHANNELS" and "d \<in> set (uv_pDevices v)" and "s \<in> set (ud_pSubTypes d)"
proof (cases "\<exists>v d s. find (\<lambda>v. uv_uVendor v = vn) uxVendors = Some v \<and> find_product pr (uv_pDevices v) = Some (d, s)")
  case True
  then obtain v d s where f: "find (\<lambda>v. uv_uVendor v = vn) uxVendors = Some v" "find_product pr (uv_pDevices v) = Some (d, s)" by blast
  show ?thesis
    using find_product_in [OF f(2)] channel_counts find_SomeD [OF f(1)] f
    by (intro that [of s d v]) (auto simp: USBFindModel_def list_all_iff)
next
  case False
  show ?thesis
    by (rule that [of "xUnkSub ! 0" "xUnkDev ! 0" xUnkVendor])
       (use False in \<open>auto simp: USBFindModel_def xUnkDev_def xUnkSub_def xUnkVendor_def usb_device_def usb_subtype_def split: option.splits\<close>)
qed

text \<open>Identification succeeds only without key events, and then gives a tablet ready for use.\<close>

lemma USBIdentifyModel_ok:
  assumes "USBIdentifyModel (new_usb_tablet fd) w = Some (0, p, keys, w')"
  shows "wf_usb p \<and> tools_ok p \<and> u_nEventCnt p = 0 \<and> u_nLastToolSerial p = 0 \<and> keys = [] \<and>
    (\<exists>v d s. u_pVendor p = Some v \<and> u_pDevice p = Some d \<and> u_pSubType p = Some s \<and>
       d \<in> set (uv_pDevices v) \<and> s \<in> set (ud_pSubTypes d))"
proof -
  let ?p1 = "(new_usb_tablet fd)\<lparr>u_state := (u_state (new_usb_tablet fd))[0 := (u_state (new_usb_tablet fd) ! 0)\<lparr>uValueCnt := of_nat WACOMFIELD_MAX\<rparr>]\<rparr>"
  have wf1: "wf_state (u_state ?p1 ! 0)" "u_state ?p1 \<noteq> []"
    by (simp_all add: new_usb_tablet_def zero_state_def wf_state_def)
  obtain r ids w1 where io: "sys_ioctl (u_fd (new_usb_tablet fd)) EVIOCGID w = (r, ids, w1)" by (rule prod_cases3)
  obtain n ev w2 where bits: "sys_ioctl (u_fd (new_usb_tablet fd)) (EVIOCGBIT 0 (sizeof_bits 0x1f)) w1 = (n, ev, w2)" by (rule prod_cases3)
  have r: "\<not> r < 0" using assms io by (auto simp: USBIdentifyModel_def Let_def)
  have n: "n = int (sizeof_bits 0x1f)" using assms io bits r by (auto simp: USBIdentifyModel_def Let_def split: if_splits)
  obtain ra p2 w3 where abs: "ident_abs ?p1 ev w2 = (ra, p2, w3)" by (rule prod_cases3)
  note ok2 = ident_abs_ok [OF wf1 abs]
  have ra: "ra = 0" using assms io bits r n abs by (auto simp: USBIdentifyModel_def Let_def split: if_splits)
  obtain p3 w4 where rel: "ident_rel p2 ev w3 = Some (0, p3, w4)"
    using assms io bits r n abs ra by (auto simp: USBIdentifyModel_def Let_def split: if_splits bind_splits)
  note ok3 = ident_rel_ok [OF ident_ok_wf(1) [OF ok2] ident_ok_wf(2) [OF ok2 wf1(2)] rel]
  obtain w5 where key: "ident_key p3 ev w4 = Some (0, p3, [], w5)"
    using assms io bits r n abs ra rel ident_key_ok [of p3 ev w4]
    by (auto simp: USBIdentifyModel_def Let_def split: if_splits bind_splits)
  define p5 where "p5 = p3\<lparr>u_nBus := scast (get16 (padded ids) 0), u_nVersion := scast (get16 (padded ids) 6)\<rparr>"
  obtain v d s where m: "USBFindModel p5 (scast (get16 (padded ids) 2)) (scast (get16 (padded ids) 4)) =
      p5\<lparr>u_pVendor := Some v, u_pDevice := Some d, u_pSubType := Some s\<rparr>"
    "ud_uChannelCnt d \<le> MAX_CHANNELS" "d \<in> set (uv_pDevices v)" "s \<in> set (ud_pSubTypes d)"
    by (rule USBFindModel_cases)
  define p6 where "p6 = p5\<lparr>u_pVendor := Some v, u_pDevice := Some d, u_pSubType := Some s\<rparr>"
  define p7 where "p7 = (if ud_uDevice d \<in> {WACOMDEVICE_MO, WACOMDEVICE_GRAPHIRE4, WACOMDEVICE_INTUOS, WACOMDEVICE_INTUOS2,
    WACOMDEVICE_INTUOS3, WACOMDEVICE_CINTIQV5} then add_valid (BIT WACOMFIELD_SERIAL) p6 else p6)"
  have p7: "p7 = p6 \<or> p7 = add_valid (BIT WACOMFIELD_SERIAL) p6" by (simp add: p7_def)
  have p: "p = p7\<lparr>u_state := map (\<lambda>_. u_state p7 ! 0) (u_state p7)\<rparr>" "keys = []"
    using assms io bits r n abs ra rel key m(1)
    unfolding USBIdentifyModel_def Let_def p5_def p6_def p7_def by (auto split: if_splits)
  have "ident_ok ?p1 p3" using ok2 ok3 by (rule ident_ok_trans)
  then obtain sts where sts: "p3 = ?p1\<lparr>u_state := sts\<rparr>" "length sts = 2" "wf_state (sts ! 0)"
    by (auto simp: ident_ok_def new_usb_tablet_def)
  have "\<exists>st. wf_state st \<and> p = p6\<lparr>u_state := replicate 2 st\<rparr>"
    using p7
  proof
    assume "p7 = p6"
    then show ?thesis using sts p(1)
      by (intro exI [of _ "sts ! 0"]) (simp add: p6_def p5_def map_replicate_const)
  next
    assume "p7 = add_valid (BIT WACOMFIELD_SERIAL) p6"
    then show ?thesis using sts p(1)
      by (intro exI [of _ "(sts ! 0)\<lparr>uValid := uValid (sts ! 0) OR BIT WACOMFIELD_SERIAL\<rparr>"])
         (simp add: p6_def p5_def add_valid_def map_replicate_const)
  qed
  then show ?thesis
    using sts m p(2)
    by (auto simp: p6_def p5_def wf_usb_def tools_ok_def new_usb_tablet_def list_all_iff nth_Cons')
qed


text \<open>A device of product 0x41 that reports no events but synchronisation.\<close>

definition quiet_world :: world where
  "quiet_world = \<lparr>answers = [Gives 0 [3, 0, 0x6A, 0x05, 0x41, 0, 0x15, 0x01], Gives 8 (replicate 8 0)], calls = [], w_errno = EPERM,
     tios = \<lparr>c_iflag = 0, c_oflag = 0, c_cflag = 0, c_lflag = 0, c_cc = (\<lambda>_. 0), c_ispeed = 0, c_ospeed = 0\<rparr>\<rparr>"


section \<open>Reading events\<close>

definition event_script :: "u8 list list \<Rightarrow> answer list" where
  "event_script cs = map (\<lambda>c. Gives (length c) c) cs"

lemma read_event_stream:
  "answers w = event_script cs @ later \<Longrightarrow> concat cs = rest \<Longrightarrow> list_all (\<lambda>c. c \<noteq> []) cs \<Longrightarrow>
   uCnt + length rest = sizeof_input_event \<Longrightarrow> sizeof_input_event \<le> length buf \<Longrightarrow>
   \<exists>w'. read_event p uCnt buf w = (int sizeof_input_event, take uCnt buf @ rest @ drop sizeof_input_event buf, w') \<and> answers w' = later"
proof (induction cs arbitrary: w uCnt buf rest)
  case Nil
  then have "uCnt = sizeof_input_event" "rest = []" by simp_all
  then show ?case using Nil by (simp add: read_event.simps [of p sizeof_input_event] event_script_def)
next
  case (Cons c cs)
  define w1 where "w1 = log_call (Sys_read (u_fd p) (sizeof_input_event - uCnt) c) (w\<lparr>answers := event_script cs @ later\<rparr>)"
  define rest' where "rest' = concat cs"
  have rest: "rest = c @ rest'" "c \<noteq> []" "list_all (\<lambda>c. c \<noteq> []) cs" using Cons.prems by (simp_all add: rest'_def)
  have len: "uCnt + length c + length rest' = sizeof_input_event" using Cons.prems(4) rest by simp
  have "sys_read (u_fd p) (sizeof_input_event - uCnt) w = (int (length c), c, w1)"
    using Cons.prems(1) len by (simp add: sys_read_serve event_script_def w1_def)
  then have step: "read_event p uCnt buf w = read_event p (uCnt + length c) (take uCnt buf @ c @ drop (uCnt + length c) buf) w1"
  proof -
    have "uCnt < sizeof_input_event" using len rest(2) by (cases c) auto
    with \<open>sys_read (u_fd p) _ w = _\<close> rest(2) show ?thesis by (subst read_event.simps) (simp add: Let_def)
  qed
  have "answers w1 = event_script cs @ later" by (simp add: w1_def)
  from Cons.IH [OF this rest'_def [symmetric] rest(3) len, of "take uCnt buf @ c @ drop (uCnt + length c) buf"]
  show ?case using len Cons.prems(5) rest(1) step by auto
qed

text \<open>C22: \<open>USBReadRaw\<close> puts an event together. However the kernel cuts the bytes of an event into
  reads, the call returns 24 with exactly the event at the front of the buffer and the rest of the
  buffer as it was, and \<open>USBParseData\<close> buffers this very event.\<close>

theorem usb_read_event:
  assumes "answers w = event_script cs @ later" and "concat cs = event_bytes ev" and "list_all (\<lambda>c. c \<noteq> []) cs"
    and "sizeof_input_event \<le> length buf"
  shows "\<exists>w' buf'. USBReadRaw p buf w = (int sizeof_input_event, buf', w') \<and> answers w' = later \<and>
    buf' = event_bytes ev @ drop sizeof_input_event buf \<and> event_at buf' = ev"
  using read_event_stream [OF assms(1-3), of 0 buf p] assms(4) by (auto simp: USBReadRaw_def)

theorem usb_read_event_witness:
  "\<exists>w' buf'. USBReadRaw intuos2_usb (replicate 32 7) (quiet_world\<lparr>answers :=
        event_script [take 5 (event_bytes (syn 3)), drop 5 (event_bytes (syn 3))] @ [Gives 1 []]\<rparr>) = (int sizeof_input_event, buf', w') \<and>
    answers w' = [Gives 1 []] \<and> buf' = event_bytes (syn 3) @ drop sizeof_input_event (replicate 32 7) \<and> event_at buf' = syn 3"
proof (rule usb_read_event)
  show "concat [take 5 (event_bytes (syn 3)), drop 5 (event_bytes (syn 3))] = event_bytes (syn 3)"
    by simp
  have "length (event_bytes (syn 3)) = sizeof_input_event" by simp
  then show "list_all (\<lambda>c. c \<noteq> []) [take 5 (event_bytes (syn 3)), drop 5 (event_bytes (syn 3))]"
    by (cases "event_bytes (syn 3)") auto
qed simp_all

end
