(* ===== verification/Wactablet.thy ===== *)
theory Wactablet
  imports Usb_Open Serial_Catalog Serial_Identity
begin

text \<open>
  \<^verbatim>\<open>wacom/wactablet.c\<close>: the engine with its log, the lists over all classes, opening a device
  of either class, and the functions that go through a tablet's table of functions. The table of a
  tablet is filled in once, by \<open>WacomOpenSerialTablet\<close> or \<open>WacomOpenUSBTablet\<close>, so a handle is
  one tablet or the other. \<open>usb\<close> says whether the library is built with
  \<open>WCM_ENABLE_LINUXINPUT\<close>; in this repository's build it is not.
\<close>

section \<open>The engine\<close>

text \<open>\<open>WACOMLOGLEVEL\<close> has no negative values, so it is unsigned. A log function is a number here.\<close>

abbreviation (input) WACOMLOGLEVEL_CRITICAL :: nat where "WACOMLOGLEVEL_CRITICAL \<equiv> 1"
abbreviation (input) WACOMLOGLEVEL_WARN :: nat where "WACOMLOGLEVEL_WARN \<equiv> 3"
abbreviation (input) WACOMLOGLEVEL_TRACE :: nat where "WACOMLOGLEVEL_TRACE \<equiv> 6"

record ENGINE_PRIV =
  e_pfnLog :: "nat option"
  e_level :: nat
  e_chLogBuf :: string

definition WacomInitEngine :: ENGINE_PRIV where
  "WacomInitEngine = \<lparr>e_pfnLog = None, e_level = WACOMLOGLEVEL_WARN, e_chLogBuf = []\<rparr>"

definition WacomSetLogFunc :: "ENGINE_PRIV option \<Rightarrow> nat option \<Rightarrow> ENGINE_PRIV option" where
  "WacomSetLogFunc hEngine pfnLog = map_option (\<lambda>e. e\<lparr>e_pfnLog := pfnLog\<rparr>) hEngine"

definition WacomSetLogLevel :: "ENGINE_PRIV option \<Rightarrow> nat \<Rightarrow> ENGINE_PRIV option" where
  "WacomSetLogLevel hEngine level =
     map_option (\<lambda>e.
       (let l1 = (if level < WACOMLOGLEVEL_CRITICAL then WACOMLOGLEVEL_CRITICAL else level);
            l2 = (if WACOMLOGLEVEL_TRACE < l1 then WACOMLOGLEVEL_TRACE else l1)
        in e\<lparr>e_level := l2\<rparr>)) hEngine"

text \<open>
  \<open>text\<close> is the formatted text, of which the buffer takes 1023 characters; the second component is the
  call of the log function: the function, the level and the text.
\<close>

definition WacomLogV :: "ENGINE_PRIV option \<Rightarrow> nat \<Rightarrow> string \<Rightarrow> ENGINE_PRIV option \<times> (nat \<times> nat \<times> string) option" where
  "WacomLogV hEngine level txt =
     (case hEngine of
        None \<Rightarrow> (None, None)
      | Some e \<Rightarrow>
          (case e_pfnLog e of
             None \<Rightarrow> (Some e, None)
           | Some f \<Rightarrow> if e_level e < level then (Some e, None)
                      else (let e1 = e\<lparr>e_chLogBuf := take 1023 txt\<rparr> in (Some e1, Some (f, level, e_chLogBuf e1)))))"

section \<open>Classes and devices\<close>

definition WacomGetSupportedClassList :: "bool \<Rightarrow> bool \<Rightarrow> bool \<Rightarrow> rc \<times> (WACOMCLASSREC list \<times> nat) option" where
  "WacomGetSupportedClassList usb ppList pnSize =
     (if \<not> ppList \<or> \<not> pnSize then (fail EINVAL, None)
      else (let recs = [\<lparr>cr_pszName = ''serial'', cr_pszDesc = ''Serial TTY interface'', cr_uDeviceClass = WACOMCLASS_SERIAL\<rparr>]
                  @ (if usb then [\<lparr>cr_pszName = ''usb'', cr_pszDesc = ''Linux USB event interface'', cr_uDeviceClass = WACOMCLASS_USB\<rparr>]
                     else [])
            in (rc_ok, Some (recs, length recs))))"

definition usb_device_list :: "bool \<Rightarrow> bool \<Rightarrow> bool \<Rightarrow> (rc \<times> (WACOMDEVICEREC list \<times> nat) option) option" where
  "usb_device_list usb ppList pnSize =
     (if usb then WacomGetSupportedUSBDeviceList ppList pnSize else no_usb_WacomGetSupportedUSBDeviceList ppList pnSize)"

definition usb_device_from_name :: "bool \<Rightarrow> string option \<Rightarrow> u32 \<times> errno option" where
  "usb_device_from_name usb n = (if usb then WacomGetUSBDeviceFromName n else no_usb_WacomGetUSBDeviceFromName n)"

text \<open>A list that was not asked for is null, and contributes no records.\<close>

definition WacomGetSupportedDeviceList ::
  "bool \<Rightarrow> u32 \<Rightarrow> bool \<Rightarrow> bool \<Rightarrow> (rc \<times> (WACOMDEVICEREC list \<times> nat) option) option" where
  "WacomGetSupportedDeviceList usb uDeviceClass ppList pnSize =
     (if \<not> ppList \<or> \<not> pnSize then Some (fail EINVAL, None)
      else do {
        (r, ser) \<leftarrow> (if uDeviceClass = 0 \<or> uDeviceClass = WACOMCLASS_SERIAL
                    then WacomGetSupportedSerialDeviceList True True else Some (rc_ok, Some ([], 0)));
        if fst r \<noteq> 0 then Some ((1, snd r), None)
        else do {
          (r', us) \<leftarrow> (if uDeviceClass = 0 \<or> uDeviceClass = WACOMCLASS_USB
                      then usb_device_list usb True True else Some (rc_ok, Some ([], 0)));
          if fst r' \<noteq> 0 then Some ((1, snd r'), None)
          else do {
            (ls, ns) \<leftarrow> ser;
            (lu, nu) \<leftarrow> us;
            Some (rc_ok, Some (ls @ lu, ns + nu))
          }
        }
      })"

definition WacomGetClassFromName :: "string \<Rightarrow> u32" where
  "WacomGetClassFromName pszName =
     (if strcasecmp_eq pszName ''serial'' then WACOMCLASS_SERIAL
      else if strcasecmp_eq pszName ''usb'' then WACOMCLASS_USB else 0)"

text \<open>The error number a lookup leaves is overwritten unless the device is found.\<close>

definition WacomGetDeviceFromName :: "bool \<Rightarrow> string option \<Rightarrow> u32 \<Rightarrow> u32 \<times> errno option" where
  "WacomGetDeviceFromName usb pszName uDeviceClass =
     (let s = (if uDeviceClass = 0 \<or> uDeviceClass = WACOMCLASS_SERIAL then fst (WacomGetSerialDeviceFromName pszName) else 0)
      in if s \<noteq> 0 then (s, None)
         else (let u = (if uDeviceClass = 0 \<or> uDeviceClass = WACOMCLASS_USB then fst (usb_device_from_name usb pszName) else 0)
               in if u \<noteq> 0 then (u, None) else (0, Some ENOENT)))"

section \<open>Handles\<close>

datatype tablet = T_serial SERIALTABLET | T_usb USBTABLET "u16 list"

text \<open>\<open>EVIOCGID\<close> must not fail; without USB support nothing is asked.\<close>

definition WacomIsSerial :: "int \<Rightarrow> world \<Rightarrow> bool \<times> world" where
  "WacomIsSerial fd w = sys_isatty fd w"

definition WacomIsUSB :: "bool \<Rightarrow> int \<Rightarrow> world \<Rightarrow> bool \<times> world" where
  "WacomIsUSB usb fd w =
     (if usb then (let (r, d, w1) = sys_ioctl fd EVIOCGID w in (\<not> r < 0, w1)) else (False, w))"

text \<open>\<open>close\<close> keeps the error number of what failed.\<close>

definition close_keeping_errno :: "int \<Rightarrow> world \<Rightarrow> world" where
  "close_keeping_errno fd w = set_errno (w_errno w) (sys_close fd w)"

definition WacomOpenTablet ::
  "bool \<Rightarrow> string \<Rightarrow> WACOMMODEL option \<Rightarrow> world \<Rightarrow> (tablet option \<times> world) option" where
  "WacomOpenTablet usb pszDevice pModel w =
     (let uCls = (case pModel of None \<Rightarrow> 0 | Some m \<Rightarrow> uClass m);
          (fd, w1) = sys_open pszDevice w
      in if fd < 0 then Some (None, w1)
         else
           (let (ser, w2) = (if uCls = 0 \<or> uCls = WACOMCLASS_SERIAL then WacomIsSerial fd w1 else (False, w1))
            in if ser then do {
                 (t, w3) \<leftarrow> WacomOpenSerialTablet fd pModel w2;
                 (case t of None \<Rightarrow> Some (None, close_keeping_errno fd w3) | Some ps \<Rightarrow> Some (Some (T_serial ps), w3))
               }
               else
                 (let (us, w3) = (if uCls = 0 \<or> uCls = WACOMCLASS_USB then WacomIsUSB usb fd w2 else (False, w2))
                  in if us then do {
                       (t, w4) \<leftarrow> (if usb then WacomOpenUSBTablet fd w3
                                  else Some (let (r, wr) = no_usb_WacomOpenUSBTablet fd w3 in (map_option (\<lambda>p. (p, [])) r, wr)));
                       (case t of None \<Rightarrow> Some (None, close_keeping_errno fd w4) | Some (p, pad) \<Rightarrow> Some (Some (T_usb p pad), w4))
                     }
                     else Some (None, set_errno EINVAL (sys_close fd w3)))))"

definition WacomCloseTablet :: "tablet option \<Rightarrow> world \<Rightarrow> world" where
  "WacomCloseTablet hTablet w =
     (case hTablet of None \<Rightarrow> w | Some (T_serial s) \<Rightarrow> SerialClose s w | Some (T_usb p pad) \<Rightarrow> USBClose p w)"

text \<open>\<open>None\<close> in the result of an accessor is a null pointer dereferenced; a null handle is \<open>EBADF\<close>.\<close>

definition WacomGetModel :: "tablet option \<Rightarrow> (WACOMMODEL \<times> errno option) option" where
  "WacomGetModel hTablet =
     (case hTablet of None \<Rightarrow> Some (zero_model, Some EBADF)
      | Some (T_serial s) \<Rightarrow> map_option (\<lambda>m. (m, None)) (SerialGetModel s)
      | Some (T_usb p pad) \<Rightarrow> map_option (\<lambda>m. (m, None)) (USBGetModel p))"

text \<open>The names share one shape: \<open>NULL\<close> and \<open>EBADF\<close> without a handle.\<close>

definition via_handle :: "(SERIALTABLET \<Rightarrow> 'a option) \<Rightarrow> (USBTABLET \<Rightarrow> 'a option) \<Rightarrow> tablet option \<Rightarrow> ('a option \<times> errno option) option" where
  "via_handle fs fu hTablet =
     (case hTablet of None \<Rightarrow> Some (None, Some EBADF)
      | Some (T_serial s) \<Rightarrow> map_option (\<lambda>x. (Some x, None)) (fs s)
      | Some (T_usb p pad) \<Rightarrow> map_option (\<lambda>x. (Some x, None)) (fu p))"

definition WacomGetVendorName :: "tablet option \<Rightarrow> (string option \<times> errno option) option" where
  "WacomGetVendorName = via_handle SerialGetVendorName USBGetVendorName"

definition WacomGetClassName :: "tablet option \<Rightarrow> (string option \<times> errno option) option" where
  "WacomGetClassName = via_handle SerialGetClassName USBGetClassName"

definition WacomGetDeviceName :: "tablet option \<Rightarrow> (string option \<times> errno option) option" where
  "WacomGetDeviceName = via_handle SerialGetDeviceName USBGetDeviceName"

definition WacomGetSubTypeName :: "tablet option \<Rightarrow> (string option \<times> errno option) option" where
  "WacomGetSubTypeName = via_handle SerialGetSubTypeName USBGetSubTypeName"

definition WacomGetModelName :: "tablet option \<Rightarrow> (string option \<times> errno option) option" where
  "WacomGetModelName = via_handle SerialGetModelName USBGetModelName"

text \<open>Without a handle the next three return 0, which is also their success.\<close>

definition WacomGetROMVersion ::
  "tablet option \<Rightarrow> bool \<Rightarrow> bool \<Rightarrow> bool \<Rightarrow> (rc \<times> s32 option \<times> s32 option \<times> s32 option) option" where
  "WacomGetROMVersion hTablet major minor release =
     (case hTablet of None \<Rightarrow> Some ((0, Some EBADF), None, None, None)
      | Some (T_serial s) \<Rightarrow> Some (SerialGetROMVer s major minor release)
      | Some (T_usb p pad) \<Rightarrow> USBGetROMVer p major minor release)"

definition WacomGetCapabilities :: "tablet option \<Rightarrow> (u32 \<times> errno option) option" where
  "WacomGetCapabilities hTablet =
     (case hTablet of None \<Rightarrow> Some (0, Some EBADF)
      | Some (T_serial s) \<Rightarrow> map_option (\<lambda>c. (c, None)) (SerialGetCaps s)
      | Some (T_usb p pad) \<Rightarrow> Some (USBGetCaps p, None))"

definition WacomGetState :: "tablet option \<Rightarrow> WACOMSTATE option \<Rightarrow> (rc \<times> WACOMSTATE option) option" where
  "WacomGetState hTablet pState =
     (case hTablet of None \<Rightarrow> Some ((0, Some EBADF), pState)
      | Some (T_serial s) \<Rightarrow> SerialGetState s pState
      | Some (T_usb p pad) \<Rightarrow> USBGetState p pState)"

definition WacomGetFileDescriptor :: "tablet option \<Rightarrow> int \<times> errno option" where
  "WacomGetFileDescriptor hTablet =
     (case hTablet of None \<Rightarrow> (-1, Some EBADF)
      | Some (T_serial s) \<Rightarrow> (SerialGetFD s, None) | Some (T_usb p pad) \<Rightarrow> (USBGetFD p, None))"

definition WacomReadRaw :: "tablet option \<Rightarrow> u8 list \<Rightarrow> world \<Rightarrow> (int \<times> u8 list \<times> tablet option \<times> world) option" where
  "WacomReadRaw hTablet buf w =
     (case hTablet of None \<Rightarrow> Some (0, buf, None, set_errno EBADF w)
      | Some (T_serial s) \<Rightarrow> map_option (\<lambda>(r, b, s', w'). (r, b, Some (T_serial s'), w')) (SerialReadRaw s buf w)
      | Some (T_usb p pad) \<Rightarrow> (let (r, b, w') = USBReadRaw p buf w in Some (r, b, Some (T_usb p pad), w')))"

definition WacomParseData ::
  "tablet option \<Rightarrow> u8 list \<Rightarrow> nat \<Rightarrow> WACOMSTATE option \<Rightarrow> (rc \<times> tablet option \<times> WACOMSTATE option) option" where
  "WacomParseData hTablet buf uLength pState =
     (case hTablet of None \<Rightarrow> Some ((0, Some EBADF), None, pState)
      | Some (T_serial s) \<Rightarrow> map_option (\<lambda>(r, s', st). (r, Some (T_serial s'), st)) (SerialParseData s buf uLength pState)
      | Some (T_usb p pad) \<Rightarrow> map_option (\<lambda>(r, p', st). (r, Some (T_usb p' pad), st)) (USBParseData pad p buf uLength pState))"

end
