(* ===== verification/Tablet_Device.thy ===== *)
theory Tablet_Device
  imports Wactablet
begin

text \<open>
  What a client of \<^verbatim>\<open>wacom/wactablet.h\<close> relies on in a tablet it reads: an interface of two
  operations, reading raw data and parsing it, and the laws they promise for a well-formed tablet. The
  serial driver, the USB driver and the handles of \<^verbatim>\<open>wactablet.c\<close> each provide it.
\<close>

text \<open>The client's step: read, then parse what was read unless reading failed.\<close>

definition read_parse ::
  "('t \<Rightarrow> u8 list \<Rightarrow> world \<Rightarrow> (int \<times> u8 list \<times> 't \<times> world) option) \<Rightarrow>
   ('t \<Rightarrow> u8 list \<Rightarrow> nat \<Rightarrow> WACOMSTATE option \<Rightarrow> (rc \<times> 't \<times> WACOMSTATE option) option) \<Rightarrow>
   't \<Rightarrow> u8 list \<Rightarrow> WACOMSTATE \<Rightarrow> world \<Rightarrow> (bool \<times> 't \<times> u8 list \<times> WACOMSTATE \<times> world) option" where
  "read_parse rd pr t buf st w = do {
     (nLength, buf1, t1, w1) \<leftarrow> rd t buf w;
     if nLength < 0 then Some (False, t1, buf1, st, w1)
     else do {
       (r, t2, st2) \<leftarrow> pr t1 buf1 (nat nLength) (Some st);
       st3 \<leftarrow> st2;
       Some (fst r = 0, t2, buf1, st3, w1)
     }
   }"

locale tablet_device =
  fixes ok :: "'t \<Rightarrow> bool"
    and rd :: "'t \<Rightarrow> u8 list \<Rightarrow> world \<Rightarrow> (int \<times> u8 list \<times> 't \<times> world) option"
    and pr :: "'t \<Rightarrow> u8 list \<Rightarrow> nat \<Rightarrow> WACOMSTATE option \<Rightarrow> (rc \<times> 't \<times> WACOMSTATE option) option"
  assumes rd_ok: "ok t \<Longrightarrow> rd t buf w = Some (r, buf', t', w') \<Longrightarrow> ok t' \<and> length buf' = length buf \<and> r \<le> int (length buf)"
    and pr_ok: "ok t \<Longrightarrow> wf_state st \<Longrightarrow> n \<le> length buf \<Longrightarrow> buf \<noteq> [] \<Longrightarrow>
      \<exists>r t' st'. pr t buf n (Some st) = Some (r, t', Some st') \<and> ok t' \<and> wf_state st' \<and> (fst r \<noteq> 0 \<longrightarrow> st' = st)"
begin

text \<open>Parsing what was read never goes wrong, and nothing reaches the client from a failed step.\<close>

lemma read_parse_defined:
  assumes "ok t" and "wf_state st" and "buf \<noteq> []" and "rd t buf w \<noteq> None"
  shows "\<exists>b t' buf' st' w'. read_parse rd pr t buf st w = Some (b, t', buf', st', w') \<and> ok t' \<and> wf_state st' \<and>
    length buf' = length buf \<and> (\<not> b \<longrightarrow> st' = st)"
proof -
  obtain n buf1 t1 w1 where r: "rd t buf w = Some (n, buf1, t1, w1)" using assms(4) by (cases "rd t buf w") auto
  note rd = rd_ok [OF assms(1) r]
  show ?thesis
  proof (cases "n < 0")
    case True
    then show ?thesis using r rd assms(2) by (auto simp: read_parse_def)
  next
    case False
    then have "nat n \<le> length buf1" "buf1 \<noteq> []" using rd assms(3) by auto
    from pr_ok [OF conjunct1 [OF rd] assms(2) this] obtain q t' st' where
      "pr t1 buf1 (nat n) (Some st) = Some (q, t', Some st')" "ok t'" "wf_state st'" "fst q \<noteq> 0 \<longrightarrow> st' = st" by blast
    then show ?thesis using False r rd by (simp add: read_parse_def)
  qed
qed

lemma read_parse_ok:
  assumes "ok t" and "wf_state st" and "buf \<noteq> []" and "read_parse rd pr t buf st w = Some (b, t', buf', st', w')"
  shows "ok t' \<and> wf_state st' \<and> length buf' = length buf \<and> (\<not> b \<longrightarrow> st' = st)"
proof -
  have "rd t buf w \<noteq> None" using assms(4) by (auto simp: read_parse_def split: bind_splits)
  from read_parse_defined [OF assms(1-3) this] obtain b1 t1 buf1 st1 w1 where
    d: "read_parse rd pr t buf st w = Some (b1, t1, buf1, st1, w1)"
    "ok t1 \<and> wf_state st1 \<and> length buf1 = length buf \<and> (\<not> b1 \<longrightarrow> st1 = st)" by blast
  with assms(4) show ?thesis by simp
qed

end

section \<open>The serial driver\<close>

abbreviation serial_ok :: "SERIALTABLET \<Rightarrow> bool" where "serial_ok s \<equiv> wf_state (s_state s)"

lemma assign_dims_wf [simp]: "serial_ok (assign_dims vs ps) = serial_ok ps"
  by (induction vs ps rule: assign_dims.induct) simp_all

lemma ident_wf:
  assumes "run_ident f ps w = Some (r, ps', w')" and "serial_ok ps"
  shows "serial_ok ps'"
proof (cases f)
  case SerialIdentTabletPC_fn
  then show ?thesis using assms
    by (auto simp: SerialIdentTabletPC_def split: option.splits list.splits if_splits)
next
  case SerialIdentDefault_fn
  then show ?thesis using assms
    by (auto simp: SerialIdentDefault_def SerialIdentWacom_def Let_def dest!: scan_version_keeps
        split: sum.splits option.splits if_splits prod.splits)
next
  case SerialIdentWacom_fn
  then show ?thesis using assms
    by (auto simp: SerialIdentWacom_def Let_def dest!: scan_version_keeps
        split: sum.splits option.splits if_splits prod.splits)
qed

lemma init_4_wf: "init_protocol_4 ps w = (r, ps', w') \<Longrightarrow> serial_ok ps \<Longrightarrow> serial_ok ps'"
  by (auto simp: init_protocol_4_def set_tilt_range_def Let_def split: if_splits prod.splits)

lemma init_wf:
  assumes "run_init f ps w = Some (r, ps', w')" and "serial_ok ps"
  shows "serial_ok ps'"
proof (cases f)
  case SerialInitTabletPC_fn
  then show ?thesis using assms by (auto simp: SerialInitTabletPC_def)
next
  case SerialInitWacom_fn
  then show ?thesis using assms
    by (auto simp: SerialInitWacom_def init_protocol_5_def set_tilt_range_def Let_def dest!: init_4_wf
        split: sum.splits bind_splits if_splits)
qed

lemma reset_wf:
  assumes "SerialReset ps m w = Some (r, ps', w')" and "serial_ok ps"
  shows "serial_ok ps'"
proof -
  have dev: "SerialSetDevice ps f v = (a, ps1, v') \<Longrightarrow> serial_ok ps1" for f v a ps1 v'
    using assms(2) by (auto simp: SerialSetDevice_def Let_def split: prod.splits option.splits if_splits)
  show ?thesis
    using assms unfolding SerialReset_def Let_def
    by (auto split: prod.splits option.splits if_splits bind_splits
        dest!: init_wf ident_wf dest: dev)
qed

lemma read_post_ok:
  assumes "read_post L q buf (r, buf', s', w')" and "L \<le> length buf"
  shows "s_state s' = s_state q \<and> length buf' = length buf \<and> r \<le> int (length buf)"
proof -
  from assms(1) obtain e where "s' = q\<lparr>s_nBitErrors := e\<rparr>" unfolding read_post_def by blast
  then show ?thesis using assms by (auto simp: read_post_def)
qed

lemma SerialReadRaw_ok:
  assumes "serial_ok s" and "SerialReadRaw s buf w = Some (r, buf', s', w')"
  shows "serial_ok s' \<and> length buf' = length buf \<and> r \<le> int (length buf)"
proof -
  let ?L = "unat (s_uPacketLength s)"
  have post: "?thesis" if "read_packet q ?L 0 buf v = (r, buf', s', w')" "?L \<le> length buf" "serial_ok q" for q v
    using read_post_ok [of ?L q buf r buf' s' w'] read_packet_post [of 0 ?L buf q v] that by simp
  consider "length buf < ?L" | "?L \<le> length buf" "3 < sint (s_nBitErrors s)" | "?L \<le> length buf" "\<not> 3 < sint (s_nBitErrors s)"
    by linarith
  then show ?thesis
  proof cases
    case 1
    then show ?thesis using assms by (simp add: SerialReadRaw_def)
  next
    case 2
    let ?s1 = "s\<lparr>s_nBitErrors := 0\<rparr>"
    obtain r1 s2 w2 where "SerialReset ?s1 (Some (s_modelRequested ?s1)) w = Some (r1, s2, w2)"
        "read_packet s2 ?L 0 buf w2 = (r, buf', s', w')"
      using assms(2) 2 by (auto simp: SerialReadRaw_def Let_def split: bind_splits prod.splits)
    then show ?thesis using post 2(1) reset_wf assms(1) by fastforce
  next
    case 3
    then show ?thesis using assms post by (simp add: SerialReadRaw_def)
  qed
qed

lemma SerialParseData_ok:
  assumes "serial_ok s" and "wf_state st" and "n \<le> length buf" and "buf \<noteq> []"
  shows "\<exists>r s' st'. SerialParseData s buf n (Some st) = Some (r, s', Some st') \<and> serial_ok s' \<and> wf_state st' \<and>
    (fst r \<noteq> 0 \<longrightarrow> st' = st)"
proof -
  have "max 1 n \<le> length buf" using assms(3,4) by (cases buf) auto
  with SerialParseData_keeps [of s "Some st" n buf] assms(1,2) show ?thesis by fastforce
qed

interpretation serial_device: tablet_device serial_ok SerialReadRaw SerialParseData
  by unfold_locales (use SerialReadRaw_ok SerialParseData_ok in blast)+

section \<open>The USB driver\<close>

definition usb_read :: "USBTABLET \<Rightarrow> u8 list \<Rightarrow> world \<Rightarrow> (int \<times> u8 list \<times> USBTABLET \<times> world) option" where
  "usb_read p buf w = (let (r, b, w') = USBReadRaw p buf w in Some (r, b, p, w'))"

lemma read_event_ok:
  "uCnt \<le> sizeof_input_event \<Longrightarrow> sizeof_input_event \<le> length buf \<Longrightarrow> read_event p uCnt buf w = (r, buf', w') \<Longrightarrow>
   length buf' = length buf \<and> r \<le> int sizeof_input_event"
proof (induction p uCnt buf w rule: read_event.induct)
  case (1 p uCnt buf w)
  obtain n d w1 where r: "sys_read (u_fd p) (sizeof_input_event - uCnt) w = (n, d, w1)" by (rule prod_cases3)
  note d = sys_read_data [OF r]
  show ?case
  proof (cases "uCnt < sizeof_input_event \<and> 0 < n")
    case True
    with d have n: "n = int (length d)" "length d \<le> sizeof_input_event - uCnt" by auto
    have "read_event p (uCnt + nat n) (take uCnt buf @ d @ drop (uCnt + length d) buf) w1 = (r, buf', w')"
      using 1(4) True r by (subst (asm) read_event.simps) (simp add: Let_def)
    with 1(1) [OF _ r [symmetric] refl refl] True n 1(2,3) show ?thesis by (auto simp: min_def)
  next
    case False
    then show ?thesis using 1(2,4) r by (subst (asm) read_event.simps) (auto simp: Let_def split: if_splits)
  qed
qed

lemma usb_read_ok: "usb_read p buf w = Some (r, buf', p', w') \<Longrightarrow> p' = p \<and> length buf' = length buf \<and> r \<le> int (length buf)"
  using read_event_ok [of 0 buf p w] by (fastforce simp: usb_read_def USBReadRaw_def split: prod.splits if_splits)

lemma USBParseData_ok:
  assumes "wf_usb p" and "wf_state st" and "n \<le> length buf"
  shows "\<exists>r p' st'. USBParseData pad p buf n (Some st) = Some (r, p', Some st') \<and> wf_usb p' \<and> wf_state st' \<and>
    (fst r \<noteq> 0 \<longrightarrow> st' = st)"
proof (cases "n = sizeof_input_event")
  case True
  then have "sizeof_input_event \<le> length buf" using assms(3) by simp
  moreover have "pred_option wf_state (Some st)" using assms(2) by simp
  ultimately show ?thesis
    using USBParseData_defined [OF assms(1), of "Some st" buf pad] True by fastforce
next
  case False
  then show ?thesis using assms by (simp add: USBParseData_def)
qed

interpretation usb_device: tablet_device wf_usb usb_read "USBParseData pad" for pad
proof
  show "wf_usb p' \<and> length buf' = length buf \<and> r \<le> int (length buf)"
    if "wf_usb p" "usb_read p buf w = Some (r, buf', p', w')" for p buf w r buf' p' w'
    using that usb_read_ok by blast
qed (rule USBParseData_ok)

section \<open>Handles\<close>

fun handle_ok :: "tablet option \<Rightarrow> bool" where
  "handle_ok None = True"
| "handle_ok (Some (T_serial s)) = serial_ok s"
| "handle_ok (Some (T_usb p pad)) = wf_usb p"

interpretation handle: tablet_device handle_ok WacomReadRaw WacomParseData
proof
  show "handle_ok t' \<and> length buf' = length buf \<and> r \<le> int (length buf)"
    if "handle_ok t" "WacomReadRaw t buf w = Some (r, buf', t', w')" for t buf w r buf' t' w'
  proof (cases t)
    case None
    then show ?thesis using that by (simp add: WacomReadRaw_def)
  next
    case (Some h)
    then show ?thesis
    proof (cases h)
      case (T_serial s)
      then show ?thesis using that Some serial_device.rd_ok by (fastforce simp: WacomReadRaw_def)
    next
      case (T_usb p pad)
      then show ?thesis using that Some usb_device.rd_ok [of p buf w r buf' p w']
        by (auto simp: WacomReadRaw_def usb_read_def split: prod.splits)
    qed
  qed
next
  show "\<exists>r t' st'. WacomParseData t buf n (Some st) = Some (r, t', Some st') \<and> handle_ok t' \<and> wf_state st' \<and>
      (fst r \<noteq> 0 \<longrightarrow> st' = st)"
    if "handle_ok t" "wf_state st" "n \<le> length buf" "buf \<noteq> []" for t st n buf
  proof (cases t)
    case None
    then show ?thesis using that by (simp add: WacomParseData_def)
  next
    case (Some h)
    then show ?thesis
    proof (cases h)
      case (T_serial s)
      then show ?thesis using that Some serial_device.pr_ok [of s st n buf] by (auto simp: WacomParseData_def)
    next
      case (T_usb p pad)
      then show ?thesis using that Some usb_device.pr_ok [of p st n buf pad] by (auto simp: WacomParseData_def)
    qed
  qed
qed

end
