(* ===== verification/Tablet_Client.thy ===== *)
theory Tablet_Client
  imports Tablet_Device
begin

text \<open>
  What a client gets from \<^verbatim>\<open>wacom/wactablet.c\<close>: the devices of the two catalogues under one list and
  one lookup, and a handle of the class it asked for.
\<close>

section \<open>The two catalogues together\<close>

lemma names_agree:
  "list_all (\<lambda>r. fst (WacomGetSerialDeviceFromName (Some (dr_pszName r))) \<in> {0, uDevice (dr_model r)}) usb_recs"
  by code_simp

lemma serial_zero: "fst (WacomGetSerialDeviceFromName n) = 0 \<longleftrightarrow> snd (WacomGetSerialDeviceFromName n) \<noteq> None"
  using serial_catalog.lookup_zero_errno [of n "snd (WacomGetSerialDeviceFromName n)"] serial_catalog.lookup_nonzero [of n]
  by (metis prod.collapse)

text \<open>The list for a class (0 is every class), with and without USB.\<close>

definition listed :: "bool \<Rightarrow> u32 \<Rightarrow> WACOMDEVICEREC list" where
  "listed usb cls =
     (if cls = 0 \<or> cls = WACOMCLASS_SERIAL then serial_recs else []) @
     (if usb \<and> (cls = 0 \<or> cls = WACOMCLASS_USB) then usb_recs else [])"

lemma device_list_is: "WacomGetSupportedDeviceList usb cls True True = Some (rc_ok, Some (listed usb cls, length (listed usb cls)))"
  using list_succeeds usb_list_succeeds
  by (simp add: WacomGetSupportedDeviceList_def usb_device_list_def no_usb_WacomGetSupportedUSBDeviceList_def listed_def)

lemma usb_from_name_known:
  "fst (usb_device_from_name usb (Some n)) \<noteq> 0 \<longleftrightarrow> usb \<and> (\<exists>r\<in>set usb_recs. strcasecmp_eq n (dr_pszName r))"
  using usb_catalog.lookup_known [of n] by (simp add: usb_device_from_name_def no_usb_WacomGetUSBDeviceFromName_def)

lemma listed_lookup:
  assumes "r \<in> set (listed usb cls)"
  shows "WacomGetDeviceFromName usb (Some (dr_pszName r)) cls = (uDevice (dr_model r), None)"
proof (cases "r \<in> set serial_recs \<and> (cls = 0 \<or> cls = WACOMCLASS_SERIAL)")
  case True
  then show ?thesis
    using serial_catalog.lookup_listed serial_catalog.listed_class by (auto simp: WacomGetDeviceFromName_def)
next
  case False
  then have u: "usb" "cls = 0 \<or> cls = WACOMCLASS_USB" "r \<in> set usb_recs"
    using assms by (auto simp: listed_def split: if_splits)
  then have s: "fst (WacomGetSerialDeviceFromName (Some (dr_pszName r))) \<in> {0, uDevice (dr_model r)}"
    using names_agree by (auto simp: list_all_iff)
  show ?thesis
    using u s usb_catalog.lookup_listed [OF u(3)] usb_catalog.listed_class [OF u(3)]
    by (auto simp: WacomGetDeviceFromName_def usb_device_from_name_def Let_def)
qed

text \<open>C24: The list of devices and the names agree over both classes. For every class (0 being all)
  and with or without USB support, \<open>WacomGetSupportedDeviceList\<close> succeeds; every record has the class
  asked for and its name gives \<open>WacomGetDeviceFromName\<close> exactly its device number, although a serial
  and a USB device may share a name; and a name gives 0 exactly when no record of the list has it, in
  any case of letters, which is then \<open>ENOENT\<close>.\<close>

theorem devices_listed_and_named:
  "\<exists>recs. WacomGetSupportedDeviceList usb cls True True = Some (rc_ok, Some (recs, length recs)) \<and>
     list_all (\<lambda>r. cls \<in> {0, uClass (dr_model r)} \<and>
       WacomGetDeviceFromName usb (Some (dr_pszName r)) cls = (uDevice (dr_model r), None)) recs \<and>
     (WacomGetDeviceFromName usb (Some n) cls = (0, Some ENOENT) \<longleftrightarrow> \<not> list_ex (\<lambda>r. strcasecmp_eq n (dr_pszName r)) recs)"
proof (intro exI conjI)
  show "WacomGetSupportedDeviceList usb cls True True = Some (rc_ok, Some (listed usb cls, length (listed usb cls)))"
    by (rule device_list_is)
  have "cls \<in> {0, uClass (dr_model r)}" if "r \<in> set (listed usb cls)" for r
    using that serial_catalog.listed_class usb_catalog.listed_class by (auto simp: listed_def split: if_splits)
  then show "list_all (\<lambda>r. cls \<in> {0, uClass (dr_model r)} \<and>
       WacomGetDeviceFromName usb (Some (dr_pszName r)) cls = (uDevice (dr_model r), None)) (listed usb cls)"
    using listed_lookup by (auto simp: list_all_iff)
  show "WacomGetDeviceFromName usb (Some n) cls = (0, Some ENOENT) \<longleftrightarrow> \<not> list_ex (\<lambda>r. strcasecmp_eq n (dr_pszName r)) (listed usb cls)"
    using serial_catalog.lookup_known [of n] usb_from_name_known [of usb n]
    by (auto simp: WacomGetDeviceFromName_def Let_def listed_def list_ex_iff)
qed

section \<open>Opening\<close>

text \<open>C23: \<open>WacomOpenTablet\<close> gives what was asked for, or closes the device. A serial handle is only
  given when the model leaves the class open or asks for the serial class, a USB handle when the
  library has USB support and the model leaves the class open or asks for USB; a handle is well formed;
  and when the result is \<open>NULL\<close>, either the device could not be opened or the last system call
  closes it.\<close>

theorem open_tablet_class:
  assumes "WacomOpenTablet usb dev pModel w = Some (res, w')"
  shows "(\<forall>s. res = Some (T_serial s) \<longrightarrow> pred_option (\<lambda>m. uClass m \<in> {0, WACOMCLASS_SERIAL}) pModel \<and> handle_ok res) \<and>
    (\<forall>p pad. res = Some (T_usb p pad) \<longrightarrow> usb \<and> pred_option (\<lambda>m. uClass m \<in> {0, WACOMCLASS_USB}) pModel \<and> handle_ok res) \<and>
    (res = None \<longrightarrow> fst (sys_open dev w) < 0 \<or> last (calls w') = Sys_close (fst (sys_open dev w)))"
proof -
  define cls where "cls = (case pModel of None \<Rightarrow> 0 | Some m \<Rightarrow> uClass m)"
  obtain fd w1 where o: "sys_open dev w = (fd, w1)" by (cases "sys_open dev w")
  obtain ser w2 where s: "(if cls = 0 \<or> cls = WACOMCLASS_SERIAL then WacomIsSerial fd w1 else (False, w1)) = (ser, w2)"
    by (cases "if cls = 0 \<or> cls = WACOMCLASS_SERIAL then WacomIsSerial fd w1 else (False, w1)")
  obtain us w3 where u: "(if cls = 0 \<or> cls = WACOMCLASS_USB then WacomIsUSB usb fd w2 else (False, w2)) = (us, w3)"
    by (cases "if cls = 0 \<or> cls = WACOMCLASS_USB then WacomIsUSB usb fd w2 else (False, w2)")
  have cls: "pred_option (\<lambda>m. uClass m \<in> {0, c}) pModel" if "cls = 0 \<or> cls = c" for c
    using that by (cases pModel) (auto simp: cls_def)
  have ser: "ser \<Longrightarrow> cls = 0 \<or> cls = WACOMCLASS_SERIAL" using s by (auto split: if_splits)
  have us: "us \<Longrightarrow> usb \<and> (cls = 0 \<or> cls = WACOMCLASS_USB)" using u by (auto simp: WacomIsUSB_def split: if_splits)
  note r = assms [unfolded WacomOpenTablet_def Let_def, folded cls_def, unfolded o prod.case s u]
  consider "fd < 0" | "\<not> fd < 0" ser | "\<not> fd < 0" "\<not> ser" us | "\<not> fd < 0" "\<not> ser" "\<not> us" by blast
  then show ?thesis
  proof cases
    case 1
    then show ?thesis using r o by simp
  next
    case 2
    then obtain t v where t: "WacomOpenSerialTablet fd pModel w2 = Some (t, v)" using r by (auto split: bind_splits)
    have "serial_ok ps" if "t = Some ps" for ps
      using t that reset_wf [of "new_serial_tablet fd pModel" pModel w2] new_serial_tablet_wf
      by (auto simp: WacomOpenSerialTablet_def split: bind_splits if_splits)
    then show ?thesis
      using 2 r t o cls [of WACOMCLASS_SERIAL] ser
      by (cases t) (auto simp: close_keeping_errno_def sys_close_def)
  next
    case 3
    then have "usb" using us by simp
    with 3 r obtain t v where t: "WacomOpenUSBTablet fd w3 = Some (t, v)" by (auto split: bind_splits)
    have "wf_usb p" if "t = Some (p, pad)" for p pad
      using t that USBIdentifyModel_ok [of fd w3 p pad v]
      by (auto simp: WacomOpenUSBTablet_def split: bind_splits if_splits)
    then show ?thesis
      using 3 r t o cls [of WACOMCLASS_USB] us \<open>usb\<close>
      by (cases t) (auto simp: close_keeping_errno_def sys_close_def)
  next
    case 4
    then show ?thesis using r o by (auto simp: sys_close_def)
  qed
qed

theorem open_tablet_class_witness:
  "case WacomOpenTablet False ''/dev/ttyS0'' None (world0\<lparr>answers := [Gives 7 [], Gives 0 []]\<rparr>) of
     Some (None, w') \<Rightarrow> last (calls w') = Sys_close 7 | _ \<Rightarrow> False"
proof -
  let ?w = "world0\<lparr>answers := [Gives 7 [], Gives 0 []]\<rparr>"
  obtain w' where "WacomOpenTablet False ''/dev/ttyS0'' None ?w = Some (None, w')"
    by (auto simp: WacomOpenTablet_def WacomIsSerial_def WacomIsUSB_def sys_defs world0_def Let_def)
  from this open_tablet_class [OF this] show ?thesis
    by (simp add: sys_defs world0_def)
qed

end
