(* ===== verification/List_Memory.thy ===== *)
theory List_Memory
  imports Tablet_Client
begin

text \<open>
  Who owns the memory of the lists and of the engine in \<^verbatim>\<open>wacom/wactablet.c\<close>,
  \<^verbatim>\<open>wacom/wacserial.c\<close> and \<^verbatim>\<open>wacom/wacusb.c\<close>. A list is one block from \<open>malloc\<close>: a header,
  then the records; the caller holds the address of the first record, and \<open>WacomFreeList\<close> finds the
  function that releases the block in the word before it. The list over all classes also owns the
  lists it was copied from.

  The heap maps byte addresses to the objects that start there; the sizes are those of x86_64. An
  access outside a live block, and \<open>free\<close> of an address that is no block, is undefined: \<open>None\<close>.
\<close>

section \<open>The heap\<close>

datatype FREEFUNC = Fn_FreeClassList | Fn_FreeDeviceList | Fn_SerialFreeDeviceList | Fn_USBFreeDeviceList

datatype cell = Fn FREEFUNC | Ptr nat | Class_rec WACOMCLASSREC | Device_rec WACOMDEVICEREC | Engine ENGINE_PRIV

text \<open>\<open>brk\<close> is the first address never given out, \<open>avail\<close> how many calls of \<open>malloc\<close> still succeed.\<close>

record heap =
  blocks :: "(nat \<times> nat) list"
  cells :: "nat \<rightharpoonup> cell"
  brk :: nat
  avail :: nat

definition c_malloc :: "nat \<Rightarrow> heap \<Rightarrow> nat \<times> heap" where
  "c_malloc n h =
     (if avail h = 0 then (0, h)
      else (brk h, h\<lparr>blocks := (brk h, n) # blocks h, brk := brk h + n, avail := avail h - 1\<rparr>))"

definition c_free :: "nat \<Rightarrow> heap \<Rightarrow> heap option" where
  "c_free p h =
     (if p = 0 then Some h
      else (case map_of (blocks h) p of
              None \<Rightarrow> None
            | Some n \<Rightarrow> Some (h\<lparr>blocks := filter (\<lambda>b. fst b \<noteq> p) (blocks h),
                                cells := (\<lambda>q. if p \<le> q \<and> q < p + n then None else cells h q)\<rparr>)))"

definition store :: "nat \<Rightarrow> nat \<Rightarrow> cell \<Rightarrow> heap \<Rightarrow> heap option" where
  "store n p c h =
     (if list_ex (\<lambda>(a, m). a \<le> p \<and> p + n \<le> a + m) (blocks h) then Some (h\<lparr>cells := (cells h)(p \<mapsto> c)\<rparr>) else None)"

definition load_fn :: "nat \<Rightarrow> heap \<Rightarrow> FREEFUNC option" where
  "load_fn p h = (case cells h p of Some (Fn f) \<Rightarrow> Some f | _ \<Rightarrow> None)"

definition load_ptr :: "nat \<Rightarrow> heap \<Rightarrow> nat option" where
  "load_ptr p h = (case cells h p of Some (Ptr a) \<Rightarrow> Some a | _ \<Rightarrow> None)"

text \<open>An array of records of \<open>n\<close> bytes each.\<close>

fun store_all :: "nat \<Rightarrow> nat \<Rightarrow> cell list \<Rightarrow> heap \<Rightarrow> heap option" where
  "store_all n p [] h = Some h"
| "store_all n p (c # cs) h = do { h1 \<leftarrow> store n p c h; store_all n (p + n) cs h1 }"

fun load_all :: "nat \<Rightarrow> nat \<Rightarrow> nat \<Rightarrow> heap \<Rightarrow> cell list option" where
  "load_all n p 0 h = Some []"
| "load_all n p (Suc k) h = do { c \<leftarrow> cells h p; cs \<leftarrow> load_all n (p + n) k h; Some (c # cs) }"

definition memcpy_records :: "nat \<Rightarrow> nat \<Rightarrow> nat \<Rightarrow> nat \<Rightarrow> heap \<Rightarrow> heap option" where
  "memcpy_records n dst src k h = do { cs \<leftarrow> load_all n src k h; store_all n dst cs h }"

abbreviation (input) "sizeof_pointer \<equiv> 8 :: nat"
abbreviation (input) "sizeof_WACOMCLASSREC \<equiv> 24 :: nat"
abbreviation (input) "sizeof_WACOMDEVICEREC \<equiv> 56 :: nat"
abbreviation (input) "sizeof_CLSLIST_INTERNAL \<equiv> 8 :: nat"
abbreviation (input) "sizeof_DEVLIST_INTERNAL \<equiv> 8 :: nat"
abbreviation (input) "sizeof_DEVICELIST_INTERNAL \<equiv> 24 :: nat"
abbreviation (input) "sizeof_ENGINE_PRIV \<equiv> 1040 :: nat"

section \<open>The lists of one class\<close>

type_synonym list_result = "((rc \<times> (nat \<times> nat) option) \<times> heap) option"

text \<open>The release functions step back over the header they were built with.\<close>

definition FreeClassList :: "nat \<Rightarrow> heap \<Rightarrow> heap option" where
  "FreeClassList pv h = c_free (pv - sizeof_CLSLIST_INTERNAL) h"

definition SerialFreeDeviceList :: "nat \<Rightarrow> heap \<Rightarrow> heap option" where
  "SerialFreeDeviceList pv h = c_free (pv - sizeof_DEVLIST_INTERNAL) h"

definition USBFreeDeviceList :: "nat \<Rightarrow> heap \<Rightarrow> heap option" where
  "USBFreeDeviceList pv h = c_free (pv - sizeof_DEVLIST_INTERNAL) h"

definition mem_GetSupportedClassList :: "bool \<Rightarrow> bool \<Rightarrow> bool \<Rightarrow> heap \<Rightarrow> list_result" where
  "mem_GetSupportedClassList usb ppList pnSize h =
     (if \<not> ppList \<or> \<not> pnSize then Some ((fail EINVAL, None), h)
      else (let nCnt = (if usb then 2 else 1);
                (pInt, h1) = c_malloc (sizeof_CLSLIST_INTERNAL + sizeof_WACOMCLASSREC * nCnt) h;
                pRec = pInt + sizeof_CLSLIST_INTERNAL;
                recs = [\<lparr>cr_pszName = ''serial'', cr_pszDesc = ''Serial TTY interface'', cr_uDeviceClass = WACOMCLASS_SERIAL\<rparr>]
                  @ (if usb then [\<lparr>cr_pszName = ''usb'', cr_pszDesc = ''Linux USB event interface'', cr_uDeviceClass = WACOMCLASS_USB\<rparr>]
                     else [])
            in do {
              h2 \<leftarrow> store sizeof_pointer pInt (Fn Fn_FreeClassList) h1;
              h3 \<leftarrow> store_all sizeof_WACOMCLASSREC pRec (map Class_rec recs) h2;
              if length recs = nCnt then Some ((rc_ok, Some (pRec, nCnt)), h3) else None
            }))"

definition mem_GetSupportedSerialDeviceList :: "bool \<Rightarrow> bool \<Rightarrow> heap \<Rightarrow> list_result" where
  "mem_GetSupportedSerialDeviceList ppList pnSize h =
     (if \<not> ppList \<or> \<not> pnSize then Some ((fail EINVAL, None), h)
      else (let nCnt = serial_count xVendors;
                (pInt, h1) = c_malloc (sizeof_DEVLIST_INTERNAL + sizeof_WACOMDEVICEREC * nCnt) h;
                pRec = pInt + sizeof_DEVLIST_INTERNAL;
                recs = serial_fill xVendors
            in do {
              h2 \<leftarrow> store sizeof_pointer pInt (Fn Fn_SerialFreeDeviceList) h1;
              h3 \<leftarrow> store_all sizeof_WACOMDEVICEREC pRec (map Device_rec recs) h2;
              if length recs = nCnt then Some ((rc_ok, Some (pRec, nCnt)), h3) else None
            }))"

definition mem_GetSupportedUSBDeviceList :: "bool \<Rightarrow> bool \<Rightarrow> heap \<Rightarrow> list_result" where
  "mem_GetSupportedUSBDeviceList ppList pnSize h =
     (if \<not> ppList \<or> \<not> pnSize then Some ((fail EINVAL, None), h)
      else (let nCnt = usb_count uxVendors;
                (pInt, h1) = c_malloc (sizeof_DEVLIST_INTERNAL + sizeof_WACOMDEVICEREC * nCnt) h;
                pRec = pInt + sizeof_DEVLIST_INTERNAL;
                recs = usb_fill uxVendors
            in do {
              h2 \<leftarrow> store sizeof_pointer pInt (Fn Fn_USBFreeDeviceList) h1;
              h3 \<leftarrow> store_all sizeof_WACOMDEVICEREC pRec (map Device_rec recs) h2;
              if length recs = nCnt then Some ((rc_ok, Some (pRec, nCnt)), h3) else None
            }))"

text \<open>Without USB support the list is a null pointer.\<close>

definition mem_no_usb_GetSupportedUSBDeviceList :: "bool \<Rightarrow> bool \<Rightarrow> heap \<Rightarrow> list_result" where
  "mem_no_usb_GetSupportedUSBDeviceList ppList pnSize h =
     (if \<not> ppList \<or> \<not> pnSize then Some ((fail EINVAL, None), h) else Some ((rc_ok, Some (0, 0)), h))"

section \<open>Releasing\<close>

text \<open>\<open>WacomFreeList\<close> and the function for the list over all classes call each other.\<close>

partial_function (option) WacomFreeList :: "nat \<Rightarrow> heap \<Rightarrow> heap option" where
  "WacomFreeList pvList h =
     (if pvList = 0 then Some h
      else Option.bind (load_fn (pvList - sizeof_pointer) h) (\<lambda>pfnFree.
             case pfnFree of
               Fn_FreeClassList \<Rightarrow> FreeClassList pvList h
             | Fn_SerialFreeDeviceList \<Rightarrow> SerialFreeDeviceList pvList h
             | Fn_USBFreeDeviceList \<Rightarrow> USBFreeDeviceList pvList h
             | Fn_FreeDeviceList \<Rightarrow>
                 Option.bind (load_ptr (pvList - sizeof_DEVICELIST_INTERNAL) h) (\<lambda>pSerialList.
                 Option.bind (WacomFreeList pSerialList h) (\<lambda>h1.
                 Option.bind (load_ptr (pvList - sizeof_DEVICELIST_INTERNAL + sizeof_pointer) h1) (\<lambda>pUSBList.
                 Option.bind (WacomFreeList pUSBList h1) (\<lambda>h2.
                 c_free (pvList - sizeof_DEVICELIST_INTERNAL) h2))))))"

definition FreeDeviceList :: "nat \<Rightarrow> heap \<Rightarrow> heap option" where
  "FreeDeviceList pv h = (let pInt = pv - sizeof_DEVICELIST_INTERNAL in do {
     pSerialList \<leftarrow> load_ptr pInt h;
     h1 \<leftarrow> WacomFreeList pSerialList h;
     pUSBList \<leftarrow> load_ptr (pInt + sizeof_pointer) h1;
     h2 \<leftarrow> WacomFreeList pUSBList h1;
     c_free pInt h2
   })"

lemma WacomFreeList_calls:
  "WacomFreeList pvList h =
     (if pvList = 0 then Some h
      else do {
        pfnFree \<leftarrow> load_fn (pvList - sizeof_pointer) h;
        (case pfnFree of
           Fn_FreeClassList \<Rightarrow> FreeClassList pvList h
         | Fn_FreeDeviceList \<Rightarrow> FreeDeviceList pvList h
         | Fn_SerialFreeDeviceList \<Rightarrow> SerialFreeDeviceList pvList h
         | Fn_USBFreeDeviceList \<Rightarrow> USBFreeDeviceList pvList h)
      })"
  unfolding FreeDeviceList_def Let_def by (rule WacomFreeList.simps)

section \<open>The list over all classes\<close>

definition mem_usb_device_list :: "bool \<Rightarrow> bool \<Rightarrow> bool \<Rightarrow> heap \<Rightarrow> list_result" where
  "mem_usb_device_list usb ppList pnSize h =
     (if usb then mem_GetSupportedUSBDeviceList ppList pnSize h else mem_no_usb_GetSupportedUSBDeviceList ppList pnSize h)"

text \<open>The new block takes over the two lists and a copy of their records.\<close>

definition copy_device_lists :: "nat \<Rightarrow> nat \<Rightarrow> nat \<Rightarrow> nat \<Rightarrow> heap \<Rightarrow> (nat \<times> heap) option" where
  "copy_device_lists pSerial nSerialCnt pUSB nUSBCnt h =
     (let (pInt, h1) = c_malloc (sizeof_WACOMDEVICEREC * (nSerialCnt + nUSBCnt) + sizeof_DEVICELIST_INTERNAL) h;
          pList = pInt + sizeof_DEVICELIST_INTERNAL
      in do {
        h2 \<leftarrow> store sizeof_pointer pInt (Ptr pSerial) h1;
        h3 \<leftarrow> store sizeof_pointer (pInt + 8) (Ptr pUSB) h2;
        h4 \<leftarrow> store sizeof_pointer (pInt + 16) (Fn Fn_FreeDeviceList) h3;
        h5 \<leftarrow> (if pSerial \<noteq> 0 then memcpy_records sizeof_WACOMDEVICEREC pList pSerial nSerialCnt h4 else Some h4);
        h6 \<leftarrow> (if pUSB \<noteq> 0
               then memcpy_records sizeof_WACOMDEVICEREC (pList + sizeof_WACOMDEVICEREC * nSerialCnt) pUSB nUSBCnt h5
               else Some h5);
        Some (pList, h6)
      })"

text \<open>A list that was not asked for stays a null pointer with no records.\<close>

definition mem_GetSupportedDeviceList :: "bool \<Rightarrow> u32 \<Rightarrow> bool \<Rightarrow> bool \<Rightarrow> heap \<Rightarrow> list_result" where
  "mem_GetSupportedDeviceList usb uDeviceClass ppList pnSize h =
     (if \<not> ppList \<or> \<not> pnSize then Some ((fail EINVAL, None), h)
      else do {
        ((r, ser), h1) \<leftarrow> (if uDeviceClass = 0 \<or> uDeviceClass = WACOMCLASS_SERIAL
                          then mem_GetSupportedSerialDeviceList True True h else Some ((rc_ok, Some (0, 0)), h));
        if fst r \<noteq> 0 then Some (((1, snd r), None), h1)
        else do {
          (pSerial, nSerialCnt) \<leftarrow> ser;
          ((r', us), h2) \<leftarrow> (if uDeviceClass = 0 \<or> uDeviceClass = WACOMCLASS_USB
                            then mem_usb_device_list usb True True h1 else Some ((rc_ok, Some (0, 0)), h1));
          if fst r' \<noteq> 0 then do {
            h3 \<leftarrow> (if pSerial \<noteq> 0 then WacomFreeList pSerial h2 else Some h2);
            Some (((1, snd r'), None), h3)
          }
          else do {
            (pUSB, nUSBCnt) \<leftarrow> us;
            (pList, h3) \<leftarrow> copy_device_lists pSerial nSerialCnt pUSB nUSBCnt h2;
            Some ((rc_ok, Some (pList, nSerialCnt + nUSBCnt)), h3)
          }
        }
      })"

section \<open>The engine\<close>

text \<open>\<open>memset\<close> clears the block before the level is set.\<close>

definition mem_InitEngine :: "heap \<Rightarrow> (nat \<times> heap) option" where
  "mem_InitEngine h = (let (pEngine, h1) = c_malloc sizeof_ENGINE_PRIV h in do {
     h2 \<leftarrow> store sizeof_ENGINE_PRIV pEngine (Engine \<lparr>e_pfnLog = None, e_level = 0, e_chLogBuf = []\<rparr>) h1;
     h3 \<leftarrow> store sizeof_ENGINE_PRIV pEngine (Engine \<lparr>e_pfnLog = None, e_level = WACOMLOGLEVEL_WARN, e_chLogBuf = []\<rparr>) h2;
     Some (pEngine, h3)
   })"

definition WacomTermEngine :: "nat \<Rightarrow> heap \<Rightarrow> heap option" where
  "WacomTermEngine hEngine h = (if hEngine = 0 then Some h else c_free hEngine h)"


section \<open>Blocks and what they hold\<close>

text \<open>Every block and every object lies between address 1 and \<open>brk\<close>.\<close>

definition heap_ok :: "heap \<Rightarrow> bool" where
  "heap_ok h \<longleftrightarrow> 0 < brk h \<and> list_all (\<lambda>(a, n). 0 < a \<and> 0 < n \<and> a + n \<le> brk h) (blocks h) \<and> (\<forall>q\<ge>brk h. cells h q = None)"

definition holds :: "heap \<Rightarrow> nat \<Rightarrow> nat \<Rightarrow> cell list \<Rightarrow> bool" where
  "holds h n p cs \<longleftrightarrow> (\<forall>i<length cs. cells h (p + n * i) = Some (cs ! i))"

lemma load_all_holds: "holds h n p cs \<Longrightarrow> load_all n p (length cs) h = Some cs"
proof (induction cs arbitrary: p)
  case (Cons c cs)
  then have "cells h p = Some c" "holds h n (p + n) cs"
    by (fastforce simp: holds_def algebra_simps)+
  then show ?case using Cons.IH by simp
qed simp

lemma holds_frame:
  assumes "holds h n p cs" and "\<And>q. p \<le> q \<Longrightarrow> q < p + n * length cs \<Longrightarrow> cells h' q = cells h q" and "0 < n"
  shows "holds h' n p cs"
  using assms by (auto simp: holds_def)

lemma store_in:
  assumes "(a, m) \<in> set (blocks h)" "a \<le> p" "p + n \<le> a + m"
  shows "store n p c h = Some (h\<lparr>cells := (cells h)(p \<mapsto> c)\<rparr>)"
  using assms by (auto simp: store_def list_ex_iff)

lemma store_none: "heap_ok h \<Longrightarrow> store n 0 c h = None"
  by (auto simp: store_def list_ex_iff list_all_iff heap_ok_def)

text \<open>Filling an array inside a block changes the array only.\<close>

lemma store_all_in:
  assumes "(a, m) \<in> set (blocks h)" "a \<le> p" "p + n * length cs \<le> a + m" "0 < n"
  shows "\<exists>h'. store_all n p cs h = Some h' \<and> blocks h' = blocks h \<and> brk h' = brk h \<and> avail h' = avail h \<and>
    holds h' n p cs \<and> (\<forall>q. q < p \<or> p + n * length cs \<le> q \<longrightarrow> cells h' q = cells h q)"
  using assms
proof (induction cs arbitrary: p h)
  case (Cons c cs)
  let ?h = "h\<lparr>cells := (cells h)(p \<mapsto> c)\<rparr>"
  have s: "store n p c h = Some ?h"
    using Cons.prems by (intro store_in) auto
  obtain h' where h': "store_all n (p + n) cs ?h = Some h'" "blocks h' = blocks h" "brk h' = brk h" "avail h' = avail h"
    "holds h' n (p + n) cs" "\<And>q. q < p + n \<or> p + n + n * length cs \<le> q \<Longrightarrow> cells h' q = cells ?h q"
    using Cons.IH [of ?h "p + n"] Cons.prems by (simp add: algebra_simps del: fun_upd_apply) blast
  have "holds h' n p (c # cs)"
  proof (unfold holds_def, intro allI impI)
    fix i assume i: "i < length (c # cs)"
    show "cells h' (p + n * i) = Some ((c # cs) ! i)"
      using h'(5) h'(6) [of p] i \<open>0 < n\<close> by (cases i) (auto simp: holds_def algebra_simps)
  qed
  moreover have "cells h' q = cells h q" if "q < p \<or> p + n * length (c # cs) \<le> q" for q
    using h'(6) [of q] that \<open>0 < n\<close> by auto
  ultimately show ?case using s h' by auto
qed (auto simp: holds_def)

lemma map_of_fresh: "heap_ok h \<Longrightarrow> brk h \<le> a \<Longrightarrow> map_of (blocks h) a = None"
  by (auto simp: heap_ok_def list_all_iff map_of_eq_None_iff)

lemma filter_fresh: "heap_ok h \<Longrightarrow> brk h \<le> a \<Longrightarrow> filter (\<lambda>b. fst b \<noteq> a) (blocks h) = blocks h"
  by (fastforce simp: heap_ok_def list_all_iff filter_id_conv)

text \<open>
  \<open>h'\<close> is \<open>h\<close> with one more list: a block at the end of \<open>h\<close>, whose header is the release function, and
  behind it the records.
\<close>

definition list_added :: "heap \<Rightarrow> FREEFUNC \<Rightarrow> nat \<Rightarrow> cell list \<Rightarrow> heap \<Rightarrow> bool" where
  "list_added h f n cs h' \<longleftrightarrow> blocks h' = (brk h, 8 + n * length cs) # blocks h \<and> brk h' = brk h + 8 + n * length cs \<and>
     avail h' = avail h - 1 \<and> cells h' (brk h) = Some (Fn f) \<and> holds h' n (brk h + 8) cs \<and>
     (\<forall>q. q < brk h \<or> brk h' \<le> q \<longrightarrow> cells h' q = cells h q)"

lemma list_added_ok: "heap_ok h \<Longrightarrow> list_added h f n cs h' \<Longrightarrow> heap_ok h'"
  by (auto simp: heap_ok_def list_added_def list_all_iff)

lemma new_list:
  assumes ok: "heap_ok h" and av: "0 < avail h" and n: "0 < n" and m: "c_malloc (8 + n * length cs) h = (a, h1)"
  shows "a = brk h \<and> (\<exists>h2 h3. store 8 a (Fn f) h1 = Some h2 \<and> store_all n (a + 8) cs h2 = Some h3 \<and> list_added h f n cs h3)"
proof -
  have h1: "a = brk h" "h1 = h\<lparr>blocks := (brk h, 8 + n * length cs) # blocks h, brk := brk h + (8 + n * length cs), avail := avail h - 1\<rparr>"
    using m av by (auto simp: c_malloc_def)
  let ?h2 = "h1\<lparr>cells := (cells h1)(a \<mapsto> Fn f)\<rparr>"
  have s: "store 8 a (Fn f) h1 = Some ?h2"
    using h1 by (intro store_in [of a "8 + n * length cs"]) auto
  obtain h3 where h3: "store_all n (a + 8) cs ?h2 = Some h3" "blocks h3 = blocks ?h2" "brk h3 = brk ?h2" "avail h3 = avail ?h2"
    "holds h3 n (a + 8) cs" "\<And>q. q < a + 8 \<or> a + 8 + n * length cs \<le> q \<Longrightarrow> cells h3 q = cells ?h2 q"
    using store_all_in [of a "8 + n * length cs" ?h2 "a + 8" n cs] h1 n by (simp add: algebra_simps del: fun_upd_apply) blast
  have "list_added h f n cs h3"
    using h3 h1 by (auto simp: list_added_def)
  then show ?thesis using s h3(1) h1(1) by auto
qed

text \<open>Without memory the header is written to the null pointer.\<close>

lemma new_list_fails: "heap_ok h \<Longrightarrow> avail h = 0 \<Longrightarrow> c_malloc n h = (a, h1) \<Longrightarrow> store 8 a c h1 = None"
  by (auto simp: c_malloc_def store_none)


text \<open>What \<open>free\<close> does to a live block.\<close>

definition dealloc :: "nat \<Rightarrow> nat \<Rightarrow> heap \<Rightarrow> heap" where
  "dealloc p m h = h\<lparr>blocks := filter (\<lambda>b. fst b \<noteq> p) (blocks h),
     cells := (\<lambda>q. if p \<le> q \<and> q < p + m then None else cells h q)\<rparr>"

lemma dealloc_simps [simp]:
  "blocks (dealloc p m h) = filter (\<lambda>b. fst b \<noteq> p) (blocks h)"
  "cells (dealloc p m h) q = (if p \<le> q \<and> q < p + m then None else cells h q)"
  by (simp_all add: dealloc_def)

lemma c_free_block: "map_of (blocks h) p = Some m \<Longrightarrow> 0 < p \<Longrightarrow> c_free p h = Some (dealloc p m h)"
  by (simp add: c_free_def dealloc_def)

lemma release_block:
  assumes "cells h p = Some (Fn f)" "map_of (blocks h) p = Some m" "0 < p" "f \<noteq> Fn_FreeDeviceList"
  shows "WacomFreeList (p + 8) h = Some (dealloc p m h)"
  using assms c_free_block [of h p m]
  by (cases f) (simp_all add: WacomFreeList_calls load_fn_def FreeClassList_def SerialFreeDeviceList_def USBFreeDeviceList_def)

section \<open>The lists of one class are owned by their caller\<close>

text \<open>The records can be read at the pointer, releasing it restores the heap, and it can be released once.\<close>

definition owned_by_caller :: "list_result \<Rightarrow> nat \<Rightarrow> cell list \<Rightarrow> heap \<Rightarrow> bool" where
  "owned_by_caller r n cs h \<longleftrightarrow> (\<exists>p h1 h2. r = Some ((rc_ok, Some (p, length cs)), h1) \<and> load_all n p (length cs) h1 = Some cs \<and>
     WacomFreeList p h1 = Some h2 \<and> blocks h2 = blocks h \<and> cells h2 = cells h \<and> WacomFreeList p h2 = None)"

text \<open>What the three functions promise: a list of these records behind this header, or undefined behaviour
  when there is no memory.\<close>

locale one_block_list =
  fixes get :: "heap \<Rightarrow> list_result" and f :: FREEFUNC and n :: nat and cs :: "cell list"
  assumes gets: "heap_ok h \<Longrightarrow> 0 < avail h \<Longrightarrow>
      \<exists>h'. get h = Some ((rc_ok, Some (brk h + 8, length cs)), h') \<and> list_added h f n cs h'"
    and no_memory: "heap_ok h \<Longrightarrow> avail h = 0 \<Longrightarrow> get h = None"
    and one_block: "f \<noteq> Fn_FreeDeviceList" "0 < n"
begin

lemma got_and_released:
  assumes ok: "heap_ok h" and av: "0 < avail h"
  shows "owned_by_caller (get h) n cs h"
proof -
  obtain h' where h': "get h = Some ((rc_ok, Some (brk h + 8, length cs)), h')" "list_added h f n cs h'"
    using gets [OF ok av] by blast
  let ?h = "dealloc (brk h) (8 + n * length cs) h'"
  have r: "WacomFreeList (brk h + 8) h' = Some ?h"
    using h'(2) ok one_block by (intro release_block) (auto simp: list_added_def heap_ok_def)
  have b: "blocks ?h = blocks h"
    using h'(2) filter_fresh [OF ok, of "brk h"] by (simp add: list_added_def)
  have c: "cells ?h = cells h"
    using h'(2) ok by (auto simp: list_added_def heap_ok_def fun_eq_iff not_less)
  have "cells ?h (brk h) = None"
    using c ok by (simp add: heap_ok_def)
  then have "WacomFreeList (brk h + 8) ?h = None"
    by (simp add: WacomFreeList_calls load_fn_def)
  moreover have "load_all n (brk h + 8) (length cs) h' = Some cs"
    using h'(2) by (intro load_all_holds) (simp add: list_added_def)
  ultimately show ?thesis using h'(1) r b c unfolding owned_by_caller_def by blast
qed

end

text \<open>The three functions have one shape.\<close>

lemma one_block_shape:
  assumes get: "\<And>h. get h = (let (a, h1) = c_malloc (8 + n * length cs) h in do {
      h2 \<leftarrow> store 8 a (Fn f) h1; h3 \<leftarrow> store_all n (a + 8) cs h2; Some ((rc_ok, Some (a + 8, length cs)), h3) })"
    and f: "f \<noteq> Fn_FreeDeviceList" "0 < n"
  shows "one_block_list get f n cs"
proof
  fix h assume ok: "heap_ok h"
  obtain a h1 where m: "c_malloc (8 + n * length cs) h = (a, h1)" by (cases "c_malloc (8 + n * length cs) h")
  show "\<exists>h'. get h = Some ((rc_ok, Some (brk h + 8, length cs)), h') \<and> list_added h f n cs h'" if "0 < avail h"
    using new_list [OF ok that f(2) m, of f] m by (auto simp: get)
  show "get h = None" if "avail h = 0"
    using new_list_fails [OF ok that m] m by (simp add: get)
qed (use f in auto)

definition class_recs :: "bool \<Rightarrow> WACOMCLASSREC list" where
  "class_recs usb = fst (the (snd (WacomGetSupportedClassList usb True True)))"

interpretation class_list: one_block_list "mem_GetSupportedClassList usb True True" Fn_FreeClassList 24 "map Class_rec (class_recs usb)"
  for usb
  by (rule one_block_shape) (simp_all add: mem_GetSupportedClassList_def class_recs_def WacomGetSupportedClassList_def Let_def flip: numeral_2_eq_2)

interpretation serial_list: one_block_list "mem_GetSupportedSerialDeviceList True True" Fn_SerialFreeDeviceList 56 "map Device_rec serial_recs"
  by (rule one_block_shape)
    (simp_all add: mem_GetSupportedSerialDeviceList_def serial_recs_def serial_count_fill Let_def)

interpretation usb_list: one_block_list "mem_GetSupportedUSBDeviceList True True" Fn_USBFreeDeviceList 56 "map Device_rec usb_recs"
  by (rule one_block_shape)
    (simp_all add: mem_GetSupportedUSBDeviceList_def usb_recs_def usb_count_fill Let_def)


section \<open>The list over all classes\<close>

text \<open>\<open>p\<close> is null, or a list of these device records in \<open>h\<close> that the function \<open>f\<close> releases.\<close>

definition sublist_at :: "heap \<Rightarrow> nat \<Rightarrow> FREEFUNC \<Rightarrow> WACOMDEVICEREC list \<Rightarrow> bool" where
  "sublist_at h p f ls \<longleftrightarrow>
     (if p = 0 then ls = [] else 8 < p \<and> p + 56 * length ls \<le> brk h \<and> cells h (p - 8) = Some (Fn f) \<and>
        map_of (blocks h) (p - 8) = Some (8 + 56 * length ls) \<and> holds h 56 p (map Device_rec ls))"

lemma copy_sublist:
  assumes "sublist_at h0 p f ls" "\<And>q. q < brk h0 \<Longrightarrow> cells h q = cells h0 q"
    and "(a, m) \<in> set (blocks h)" "a \<le> d" "d + 56 * length ls \<le> a + m"
  shows "\<exists>h'. (if p \<noteq> 0 then memcpy_records 56 d p (length ls) h else Some h) = Some h' \<and>
    blocks h' = blocks h \<and> brk h' = brk h \<and> avail h' = avail h \<and> holds h' 56 d (map Device_rec ls) \<and>
    (\<forall>q. q < d \<or> d + 56 * length ls \<le> q \<longrightarrow> cells h' q = cells h q)"
proof (cases "p = 0")
  case True
  then show ?thesis using assms(1) by (simp add: sublist_at_def holds_def)
next
  case False
  then have "holds h0 56 p (map Device_rec ls)" "p + 56 * length ls \<le> brk h0"
    using assms(1) by (auto simp: sublist_at_def)
  then have "holds h 56 p (map Device_rec ls)"
    by (rule_tac holds_frame) (use assms(2) in auto)
  then have "load_all 56 p (length ls) h = Some (map Device_rec ls)"
    using load_all_holds [of h 56 p "map Device_rec ls"] by simp
  then show ?thesis
    using False store_all_in [OF assms(3,4), of 56 "map Device_rec ls"] assms(5)
    by (simp add: memcpy_records_def del: split_paired_All)
qed

lemma holds_append: "holds h n p cs \<Longrightarrow> holds h n (p + n * length cs) ds \<Longrightarrow> holds h n p (cs @ ds)"
  unfolding holds_def
proof (intro allI impI)
  fix i assume h: "\<forall>i<length cs. cells h (p + n * i) = Some (cs ! i)"
    "\<forall>i<length ds. cells h (p + n * length cs + n * i) = Some (ds ! i)" and i: "i < length (cs @ ds)"
  show "cells h (p + n * i) = Some ((cs @ ds) ! i)"
  proof (cases "i < length cs")
    case False
    then have "p + n * i = p + n * length cs + n * (i - length cs)"
      by (simp flip: distrib_left)
    then show ?thesis using h(2) [rule_format, of "i - length cs"] False i by (simp add: nth_append add.assoc)
  qed (use h in \<open>simp add: nth_append\<close>)
qed

text \<open>The outer block at the end of the heap, its header, and the copies.\<close>

lemma copied:
  assumes ok: "heap_ok h" and av: "0 < avail h" and s: "sublist_at h p f ls" and u: "sublist_at h q g lu"
  shows "\<exists>h'. copy_device_lists p (length ls) q (length lu) h = Some (brk h + 24, h') \<and>
    blocks h' = (brk h, 56 * (length ls + length lu) + 24) # blocks h \<and> brk h' = brk h + 24 + 56 * (length ls + length lu) \<and>
    cells h' (brk h) = Some (Ptr p) \<and> cells h' (brk h + 8) = Some (Ptr q) \<and> cells h' (brk h + 16) = Some (Fn Fn_FreeDeviceList) \<and>
    holds h' 56 (brk h + 24) (map Device_rec (ls @ lu)) \<and> (\<forall>x. x < brk h \<or> brk h' \<le> x \<longrightarrow> cells h' x = cells h x)"
proof -
  define a m where "a = brk h" and "m = 56 * (length ls + length lu) + 24"
  define h1 where "h1 = h\<lparr>blocks := (a, m) # blocks h, brk := a + m, avail := avail h - 1\<rparr>"
  define h2 where "h2 = h1\<lparr>cells := (cells h1)(a \<mapsto> Ptr p)\<rparr>"
  define h3 where "h3 = h2\<lparr>cells := (cells h2)(a + 8 \<mapsto> Ptr q)\<rparr>"
  define h4 where "h4 = h3\<lparr>cells := (cells h3)(a + 16 \<mapsto> Fn Fn_FreeDeviceList)\<rparr>"
  have c: "c_malloc m h = (a, h1)"
    using av by (simp add: c_malloc_def h1_def a_def)
  have b: "blocks h1 = (a, m) # blocks h" "blocks h2 = blocks h1" "blocks h3 = blocks h1" "blocks h4 = blocks h1" "brk h4 = a + m"
    by (simp_all add: h1_def h2_def h3_def h4_def)
  have st: "store 8 a (Ptr p) h1 = Some h2" "store 8 (a + 8) (Ptr q) h2 = Some h3"
    "store 8 (a + 16) (Fn Fn_FreeDeviceList) h3 = Some h4"
    unfolding h2_def [unfolded] h3_def h4_def
    by (rule store_in [of a m]; simp add: b m_def h1_def h2_def h3_def)+
  have c4: "cells h4 x = cells h x" if "x < a \<or> a + 24 \<le> x" for x
    using that by (auto simp: h1_def h2_def h3_def h4_def)
  have c4': "cells h4 x = cells h x" if "x < brk h" for x
    using that c4 by (simp add: a_def)
  have hd4: "cells h4 a = Some (Ptr p)" "cells h4 (a + 8) = Some (Ptr q)" "cells h4 (a + 16) = Some (Fn Fn_FreeDeviceList)"
    by (simp_all add: h1_def h2_def h3_def h4_def)
  obtain h5 where h5: "(if p \<noteq> 0 then memcpy_records 56 (a + 24) p (length ls) h4 else Some h4) = Some h5"
    "blocks h5 = blocks h4" "brk h5 = brk h4" "holds h5 56 (a + 24) (map Device_rec ls)"
    "\<And>x. x < a + 24 \<or> a + 24 + 56 * length ls \<le> x \<Longrightarrow> cells h5 x = cells h4 x"
    using copy_sublist [OF s c4', of a m "a + 24"] b(1,4) by (simp add: m_def) blast
  have c5: "cells h5 x = cells h x" if "x < brk h" for x
    using that h5(5) [of x] c4 [of x] by (simp add: a_def)
  have blk: "(a, m) \<in> set (blocks h5)"
    using h5(2) b by simp
  obtain h6 where h6: "(if q \<noteq> 0 then memcpy_records 56 (a + 24 + 56 * length ls) q (length lu) h5 else Some h5) = Some h6"
    "blocks h6 = blocks h5" "brk h6 = brk h5" "holds h6 56 (a + 24 + 56 * length ls) (map Device_rec lu)"
    "\<And>x. x < a + 24 + 56 * length ls \<or> a + 24 + 56 * length ls + 56 * length lu \<le> x \<Longrightarrow> cells h6 x = cells h5 x"
    using copy_sublist [OF u c5 blk, of "a + 24 + 56 * length ls"] by (simp add: m_def) blast
  have "holds h6 56 (a + 24) (map Device_rec ls)"
    using h5(4) by (rule holds_frame) (use h6(5) in auto)
  then have "holds h6 56 (a + 24) (map Device_rec (ls @ lu))"
    using holds_append [of h6 56 "a + 24" "map Device_rec ls" "map Device_rec lu"] h6(4) by simp
  moreover have "copy_device_lists p (length ls) q (length lu) h = Some (a + 24, h6)"
    using c [unfolded m_def] st h5(1) h6(1) by (simp add: copy_device_lists_def Let_def)
  ultimately show ?thesis
    using h5(2,3,5) h6(2,3,5) b hd4 c4 by (intro exI [of _ h6]) (simp add: a_def m_def algebra_simps)
qed


text \<open>The lists the outer block owns, one after the other; a null pointer adds nothing.\<close>

definition sublist_added :: "heap \<Rightarrow> nat \<Rightarrow> FREEFUNC \<Rightarrow> WACOMDEVICEREC list \<Rightarrow> heap \<Rightarrow> bool" where
  "sublist_added h p f ls h' \<longleftrightarrow>
     (if p = 0 then h' = h \<and> ls = [] else p = brk h + 8 \<and> list_added h f 56 (map Device_rec ls) h')"

lemma sublist_added_ok: "heap_ok h \<Longrightarrow> sublist_added h p f ls h' \<Longrightarrow> heap_ok h'"
  using list_added_ok by (auto simp: sublist_added_def split: if_splits)

lemma sublist_added_at:
  assumes "heap_ok h" "sublist_added h p f ls h'"
  shows "sublist_at h' p f ls"
  using assms by (auto simp: sublist_added_def sublist_at_def list_added_def heap_ok_def)

lemma sublist_at_later:
  assumes ok: "heap_ok h" and s: "sublist_at h p f ls" and a: "sublist_added h q g lu h'"
  shows "sublist_at h' p f ls"
proof (cases "q = 0 \<or> p = 0")
  case False
  then have p: "8 < p" "p + 56 * length ls \<le> brk h" "cells h (p - 8) = Some (Fn f)"
      "map_of (blocks h) (p - 8) = Some (8 + 56 * length ls)" "holds h 56 p (map Device_rec ls)"
    and q: "list_added h g 56 (map Device_rec lu) h'"
    using s a by (auto simp: sublist_at_def sublist_added_def)
  have "holds h' 56 p (map Device_rec ls)"
    using p(5) by (rule holds_frame) (use p q in \<open>auto simp: list_added_def\<close>)
  then show ?thesis using p q by (auto simp: sublist_at_def list_added_def)
qed (use s a in \<open>auto simp: sublist_at_def sublist_added_def\<close>)

lemma map_of_other: "p \<noteq> q \<Longrightarrow> map_of (filter (\<lambda>b. fst b \<noteq> q) xs) p = map_of xs p"
  by (induction xs) auto

text \<open>Releasing what \<open>sublist_at\<close> describes.\<close>

lemma release_sublist:
  assumes "p \<noteq> 0 \<Longrightarrow> 8 < p \<and> cells h (p - 8) = Some (Fn f) \<and> map_of (blocks h) (p - 8) = Some m" "f \<noteq> Fn_FreeDeviceList"
  shows "WacomFreeList p h = Some (if p = 0 then h else dealloc (p - 8) m h)"
  using release_block [of h "p - 8" f m] assms by (cases "p = 0") (simp_all add: WacomFreeList_calls [of 0])


lemma release_all:
  assumes ok: "heap_ok h" and s: "sublist_added h p f ls h1" and u: "sublist_added h1 q g lu h2"
    and fg: "f \<noteq> Fn_FreeDeviceList" "g \<noteq> Fn_FreeDeviceList"
    and b: "blocks h3 = (brk h2, 56 * (length ls + length lu) + 24) # blocks h2" "brk h3 = brk h2 + 24 + 56 * (length ls + length lu)"
    and c: "cells h3 (brk h2) = Some (Ptr p)" "cells h3 (brk h2 + 8) = Some (Ptr q)" "cells h3 (brk h2 + 16) = Some (Fn Fn_FreeDeviceList)"
      "\<And>x. x < brk h2 \<or> brk h3 \<le> x \<Longrightarrow> cells h3 x = cells h2 x"
  shows "\<exists>h4. WacomFreeList (brk h2 + 24) h3 = Some h4 \<and> blocks h4 = blocks h \<and> cells h4 = cells h"
proof -
  have ok1: "heap_ok h1" and ok2: "heap_ok h2"
    using sublist_added_ok ok s u by blast+
  have at: "sublist_at h2 p f ls" "sublist_at h2 q g lu"
    using sublist_at_later [OF ok1 sublist_added_at [OF ok s] u] sublist_added_at [OF ok1 u] by auto
  define H1 where "H1 = (if p = 0 then h3 else dealloc (p - 8) (8 + 56 * length ls) h3)"
  define H2 where "H2 = (if q = 0 then H1 else dealloc (q - 8) (8 + 56 * length lu) H1)"
  define H3 where "H3 = dealloc (brk h2) (56 * (length ls + length lu) + 24) H2"
  have le: "brk h \<le> brk h1" "brk h1 \<le> brk h2" "p \<noteq> 0 \<Longrightarrow> p + 56 * length ls = brk h1" "q \<noteq> 0 \<Longrightarrow> q = brk h1 + 8"
    "q \<noteq> 0 \<Longrightarrow> q + 56 * length lu = brk h2" "p \<noteq> 0 \<Longrightarrow> p = brk h + 8"
    using s u by (auto simp: sublist_added_def list_added_def split: if_splits)
  have pos: "0 < brk h" "0 < brk h2"
    using ok ok2 by (auto simp: heap_ok_def)
  have r1: "WacomFreeList p h3 = Some H1"
    unfolding H1_def using at(1) fg b(1) c(4) le by (intro release_sublist) (auto simp: sublist_at_def)
  have r2: "WacomFreeList q H1 = Some H2"
    unfolding H2_def using at(2) fg b(1) c(4) le
    by (intro release_sublist [where f = g]) (cases "p = 0"; auto simp: sublist_at_def H1_def map_of_other split: if_splits)+
  have r3: "c_free (brk h2) H2 = Some H3"
    unfolding H3_def using pos by (intro c_free_block) (use b le pos in \<open>auto simp: H1_def H2_def\<close>)
  have hd: "load_ptr (brk h2) h3 = Some p" "load_ptr (brk h2 + 8) H1 = Some q" "load_fn (brk h2 + 16) h3 = Some Fn_FreeDeviceList"
    using c(1,2,3) le by (cases "p = 0"; auto simp: load_ptr_def load_fn_def H1_def)+
  have "WacomFreeList (brk h2 + 24) h3 = Some H3"
    using hd r1 r2 r3 by (simp add: WacomFreeList_calls [of "brk h2 + 24"] FreeDeviceList_def add.commute)
  moreover have "blocks H3 = blocks h"
    using b s u le pos filter_fresh [OF ok] filter_fresh [OF ok1] filter_fresh [OF ok2]
    by (auto simp: H1_def H2_def H3_def sublist_added_def list_added_def simp del: filter_filter split: if_splits)
  moreover have "cells H3 x = cells h x" for x
  proof (cases "x < brk h")
    case True
    then show ?thesis
      using c(4) [of x] s u le by (auto simp: H1_def H2_def H3_def sublist_added_def list_added_def split: if_splits)
  next
    case False
    then have "cells H3 x = None"
      using c(4) [of x] s u le ok ok2 b(2)
      by (auto simp: H1_def H2_def H3_def sublist_added_def list_added_def heap_ok_def split: if_splits)
    then show ?thesis using False ok by (simp add: heap_ok_def)
  qed
  ultimately show ?thesis by blast
qed

lemma sublist_new:
  assumes "heap_ok h" "list_added h f 56 (map Device_rec ls) h'"
  shows "sublist_added h (brk h + 8) f ls h' \<and> avail h - 1 \<le> avail h'"
  using assms by (auto simp: sublist_added_def list_added_def)

lemma sublist_null: "sublist_added h 0 f [] h"
  by (simp add: sublist_added_def)

lemma serial_added:
  assumes "heap_ok h" "0 < avail h"
  shows "\<exists>p h1. (if P then mem_GetSupportedSerialDeviceList True True h else Some ((rc_ok, Some (0, 0)), h)) =
      Some ((rc_ok, Some (p, length (if P then serial_recs else []))), h1) \<and>
    sublist_added h p Fn_SerialFreeDeviceList (if P then serial_recs else []) h1 \<and> avail h - 1 \<le> avail h1"
proof (cases P)
  case True
  obtain h' where h': "mem_GetSupportedSerialDeviceList True True h = Some ((rc_ok, Some (brk h + 8, length serial_recs)), h')"
    "list_added h Fn_SerialFreeDeviceList 56 (map Device_rec serial_recs) h'"
    using serial_list.gets [OF assms] by auto
  show ?thesis
    using True h'(1) sublist_new [OF assms(1) h'(2)] by (intro exI [of _ "brk h + 8"] exI [of _ h']) simp
next
  case False
  then show ?thesis using sublist_null by (intro exI [of _ 0] exI [of _ h]) simp
qed

lemma usb_added:
  assumes "heap_ok h" "0 < avail h"
  shows "\<exists>p h1. (if P then mem_usb_device_list usb True True h else Some ((rc_ok, Some (0, 0)), h)) =
      Some ((rc_ok, Some (p, length (if usb \<and> P then usb_recs else []))), h1) \<and>
    sublist_added h p Fn_USBFreeDeviceList (if usb \<and> P then usb_recs else []) h1 \<and> avail h - 1 \<le> avail h1"
proof (cases "usb \<and> P")
  case True
  obtain h' where h': "mem_GetSupportedUSBDeviceList True True h = Some ((rc_ok, Some (brk h + 8, length usb_recs)), h')"
    "list_added h Fn_USBFreeDeviceList 56 (map Device_rec usb_recs) h'"
    using usb_list.gets [OF assms] by auto
  show ?thesis
    using True h'(1) sublist_new [OF assms(1) h'(2)]
    by (intro exI [of _ "brk h + 8"] exI [of _ h']) (simp add: mem_usb_device_list_def)
next
  case False
  then show ?thesis
    using sublist_null
    by (intro exI [of _ 0] exI [of _ h]) (auto simp: mem_usb_device_list_def mem_no_usb_GetSupportedUSBDeviceList_def)
qed

lemma device_list_released:
  assumes ok: "heap_ok h" and av: "2 < avail h"
  shows "owned_by_caller (mem_GetSupportedDeviceList usb cls True True h) 56 (map Device_rec (listed usb cls)) h"
proof -
  define ls where "ls = (if cls = 0 \<or> cls = WACOMCLASS_SERIAL then serial_recs else [])"
  define lu where "lu = (if usb \<and> (cls = 0 \<or> cls = WACOMCLASS_USB) then usb_recs else [])"
  obtain p h1 where s: "(if cls = 0 \<or> cls = WACOMCLASS_SERIAL then mem_GetSupportedSerialDeviceList True True h
      else Some ((rc_ok, Some (0, 0)), h)) = Some ((rc_ok, Some (p, length ls)), h1)"
    "sublist_added h p Fn_SerialFreeDeviceList ls h1" "avail h - 1 \<le> avail h1"
    using serial_added [OF ok, of "cls = 0 \<or> cls = WACOMCLASS_SERIAL", folded ls_def] av by (meson order.strict_trans zero_less_numeral)
  have ok1: "heap_ok h1" by (rule sublist_added_ok [OF ok s(2)])
  have av1: "0 < avail h1" using av s(3) by simp
  obtain q h2 where u: "(if cls = 0 \<or> cls = WACOMCLASS_USB then mem_usb_device_list usb True True h1
      else Some ((rc_ok, Some (0, 0)), h1)) = Some ((rc_ok, Some (q, length lu)), h2)"
    "sublist_added h1 q Fn_USBFreeDeviceList lu h2" "avail h1 - 1 \<le> avail h2"
    using usb_added [OF ok1 av1, of "cls = 0 \<or> cls = WACOMCLASS_USB" usb, folded lu_def] by blast
  have ok2: "heap_ok h2" by (rule sublist_added_ok [OF ok1 u(2)])
  have av2: "0 < avail h2" using av s(3) u(3) by simp
  obtain h3 where h3: "copy_device_lists p (length ls) q (length lu) h2 = Some (brk h2 + 24, h3)"
    "blocks h3 = (brk h2, 56 * (length ls + length lu) + 24) # blocks h2" "brk h3 = brk h2 + 24 + 56 * (length ls + length lu)"
    "cells h3 (brk h2) = Some (Ptr p)" "cells h3 (brk h2 + 8) = Some (Ptr q)" "cells h3 (brk h2 + 16) = Some (Fn Fn_FreeDeviceList)"
    "holds h3 56 (brk h2 + 24) (map Device_rec (ls @ lu))" "\<And>x. x < brk h2 \<or> brk h3 \<le> x \<Longrightarrow> cells h3 x = cells h2 x"
    using copied [OF ok2 av2 sublist_at_later [OF ok1 sublist_added_at [OF ok s(2)] u(2)] sublist_added_at [OF ok1 u(2)]]
    by blast
  obtain h4 where h4: "WacomFreeList (brk h2 + 24) h3 = Some h4" "blocks h4 = blocks h" "cells h4 = cells h"
    using release_all [OF ok s(2) u(2) _ _ h3(2,3,4,5,6,8)] by auto
  have "brk h \<le> brk h2"
    using s(2) u(2) by (auto simp: sublist_added_def list_added_def split: if_splits)
  then have "WacomFreeList (brk h2 + 24) h4 = None"
    using h4(3) ok by (simp add: WacomFreeList_calls load_fn_def heap_ok_def)
  moreover have l: "listed usb cls = ls @ lu"
    by (simp add: listed_def ls_def lu_def)
  moreover have "mem_GetSupportedDeviceList usb cls True True h = Some ((rc_ok, Some (brk h2 + 24, length (ls @ lu))), h3)"
    using s(1) u(1) h3(1) by (simp add: mem_GetSupportedDeviceList_def)
  moreover have "load_all 56 (brk h2 + 24) (length (ls @ lu)) h3 = Some (map Device_rec (ls @ lu))"
    using load_all_holds [OF h3(7)] by simp
  ultimately show ?thesis using h4 by (auto simp: owned_by_caller_def)
qed

lemma device_list_no_memory:
  assumes "heap_ok h" "avail h = 0"
  shows "mem_GetSupportedDeviceList usb cls True True h = None"
  using serial_list.no_memory [OF assms] usb_list.no_memory [OF assms] assms
  by (auto simp: mem_GetSupportedDeviceList_def mem_usb_device_list_def mem_no_usb_GetSupportedUSBDeviceList_def
      copy_device_lists_def c_malloc_def store_none)

lemma engine_released:
  assumes ok: "heap_ok h" and av: "0 < avail h"
  shows "\<exists>p h1 h2. mem_InitEngine h = Some (p, h1) \<and> cells h1 p = Some (Engine WacomInitEngine) \<and>
    WacomTermEngine p h1 = Some h2 \<and> blocks h2 = blocks h \<and> cells h2 = cells h \<and> WacomTermEngine p h2 = None"
proof -
  define h1 where "h1 = h\<lparr>blocks := (brk h, 1040) # blocks h, cells := (cells h)(brk h \<mapsto> Engine WacomInitEngine),
    brk := brk h + 1040, avail := avail h - 1\<rparr>"
  have b: "0 < brk h" using ok by (simp add: heap_ok_def)
  have "mem_InitEngine h = Some (brk h, h1)"
    using av by (simp add: mem_InitEngine_def c_malloc_def store_def h1_def WacomInitEngine_def)
  moreover have "WacomTermEngine (brk h) h1 = Some (dealloc (brk h) 1040 h1)"
    using b by (simp add: WacomTermEngine_def c_free_block h1_def)
  moreover have d: "blocks (dealloc (brk h) 1040 h1) = blocks h" "cells (dealloc (brk h) 1040 h1) = cells h"
    using ok filter_fresh [OF ok, of "brk h"] by (auto simp: h1_def heap_ok_def fun_eq_iff)
  moreover have "WacomTermEngine (brk h) (dealloc (brk h) 1040 h1) = None"
    using b map_of_fresh [OF ok, of "brk h"] d(1) by (simp add: WacomTermEngine_def c_free_def)
  ultimately show ?thesis by (auto simp: h1_def)
qed

text \<open>C25: The lists and the engine can be used and are given back. With memory for three blocks,
  \<open>WacomGetSupportedDeviceList\<close> puts exactly the records of the list behind the pointer it returns, and
  \<open>WacomFreeList\<close> on that pointer gives back every block the call took, the lists it copied from
  included, and changes no other memory; the same holds for the list of classes and for the engine
  with \<open>WacomTermEngine\<close>. Releasing twice is a \<open>free\<close> of memory that is not allocated. Without memory
  the functions write through a null pointer, since the result of \<open>malloc\<close> is not checked.\<close>

theorem lists_released:
  assumes ok: "heap_ok h" and av: "2 < avail h"
  shows "(\<exists>recs. WacomGetSupportedDeviceList usb cls True True = Some (rc_ok, Some (recs, length recs)) \<and>
      owned_by_caller (mem_GetSupportedDeviceList usb cls True True h) 56 (map Device_rec recs) h) \<and>
    (\<exists>recs. WacomGetSupportedClassList usb True True = (rc_ok, Some (recs, length recs)) \<and>
      owned_by_caller (mem_GetSupportedClassList usb True True h) 24 (map Class_rec recs) h) \<and>
    (\<exists>p h1 h2. mem_InitEngine h = Some (p, h1) \<and> cells h1 p = Some (Engine WacomInitEngine) \<and>
      WacomTermEngine p h1 = Some h2 \<and> blocks h2 = blocks h \<and> cells h2 = cells h \<and> WacomTermEngine p h2 = None) \<and>
    mem_GetSupportedDeviceList usb cls True True (h\<lparr>avail := 0\<rparr>) = None \<and>
    mem_GetSupportedClassList usb True True (h\<lparr>avail := 0\<rparr>) = None"
proof (intro conjI)
  have ok0: "heap_ok (h\<lparr>avail := 0\<rparr>)" and av1: "0 < avail h"
    using ok av by (simp_all add: heap_ok_def)
  show "\<exists>recs. WacomGetSupportedDeviceList usb cls True True = Some (rc_ok, Some (recs, length recs)) \<and>
      owned_by_caller (mem_GetSupportedDeviceList usb cls True True h) 56 (map Device_rec recs) h"
    using device_list_is device_list_released [OF ok av] by blast
  show "\<exists>recs. WacomGetSupportedClassList usb True True = (rc_ok, Some (recs, length recs)) \<and>
      owned_by_caller (mem_GetSupportedClassList usb True True h) 24 (map Class_rec recs) h"
    using class_list.got_and_released [OF ok av1, of usb]
    by (intro exI [of _ "class_recs usb"]) (simp add: class_recs_def WacomGetSupportedClassList_def Let_def)
  show "mem_GetSupportedDeviceList usb cls True True (h\<lparr>avail := 0\<rparr>) = None"
    by (rule device_list_no_memory [OF ok0]) simp
  show "mem_GetSupportedClassList usb True True (h\<lparr>avail := 0\<rparr>) = None"
    by (rule class_list.no_memory [OF ok0]) simp
qed (use engine_released [OF ok] av in auto)

text \<open>From an empty heap, with both classes.\<close>

lemma lists_released_witness:
  "\<exists>recs. owned_by_caller (mem_GetSupportedDeviceList True 0 True True \<lparr>blocks = [], cells = (\<lambda>_. None), brk = 4096, avail = 3\<rparr>)
     56 (map Device_rec recs) \<lparr>blocks = [], cells = (\<lambda>_. None), brk = 4096, avail = 3\<rparr>"
  using lists_released [of "\<lparr>blocks = [], cells = (\<lambda>_. None), brk = 4096, avail = 3\<rparr>" True 0]
  by (auto simp: heap_ok_def)

end
