(* ===== verification/Serial_Log.thy ===== *)
theory Serial_Log
  imports Wactablet
begin

text \<open>
  The messages of \<^verbatim>\<open>wacom/wacserial.c\<close>: \<open>SerialError\<close>, \<open>SerialWarn\<close>, \<open>SerialInfo\<close> and
  \<open>SerialDump\<close>, over \<open>WacomLogV\<close> of \<^verbatim>\<open>wacom/wactablet.c\<close>, and what \<open>SerialParseData\<close> logs. The
  result of a function is the engine and the calls of its log function, in order. A buffer is a list of
  characters; what it holds before it is written is a parameter.
\<close>

section \<open>Log functions\<close>

abbreviation (input) WACOMLOGLEVEL_ERROR :: nat where "WACOMLOGLEVEL_ERROR \<equiv> 2"
abbreviation (input) WACOMLOGLEVEL_INFO :: nat where "WACOMLOGLEVEL_INFO \<equiv> 4"
abbreviation (input) WACOMLOGLEVEL_DEBUG :: nat where "WACOMLOGLEVEL_DEBUG \<equiv> 5"

type_synonym log_calls = "(nat \<times> nat \<times> string) list"
type_synonym logged = "ENGINE_PRIV option \<times> log_calls"

text \<open>The argument is the formatted text.\<close>

definition WacomLog :: "ENGINE_PRIV option \<Rightarrow> nat \<Rightarrow> string \<Rightarrow> logged" where
  "WacomLog hEngine level txt =
     (let (e, c) = WacomLogV hEngine level txt in (e, case c of None \<Rightarrow> [] | Some x \<Rightarrow> [x]))"

definition SerialError :: "ENGINE_PRIV option \<Rightarrow> string \<Rightarrow> logged" where
  "SerialError hEngine txt = WacomLog hEngine WACOMLOGLEVEL_ERROR txt"

definition SerialWarn :: "ENGINE_PRIV option \<Rightarrow> string \<Rightarrow> logged" where
  "SerialWarn hEngine txt = WacomLog hEngine WACOMLOGLEVEL_WARN txt"

definition SerialInfo :: "ENGINE_PRIV option \<Rightarrow> string \<Rightarrow> logged" where
  "SerialInfo hEngine txt = WacomLog hEngine WACOMLOGLEVEL_INFO txt"

section \<open>Formatting\<close>

definition hex_digit :: "nat \<Rightarrow> char" where
  "hex_digit n = ''0123456789ABCDEF'' ! n"

fun hex :: "nat \<Rightarrow> string" where
  "hex n = (if n < 16 then [hex_digit n] else hex (n div 16) @ [hex_digit (n mod 16)])"

declare hex.simps [simp del]

text \<open>\<open>%0wX\<close>\<close>

definition fmt_X :: "nat \<Rightarrow> nat \<Rightarrow> string" where
  "fmt_X w n = replicate (w - length (hex n)) (CHR ''0'') @ hex n"

definition isprint :: "u8 \<Rightarrow> bool" where
  "isprint b \<longleftrightarrow> 0x20 \<le> b \<and> b \<le> 0x7E"

text \<open>
  \<open>snprintf(buf + nPos, sizeof(buf) - nPos, ...)\<close> of the text \<open>s\<close>: at most the room less one characters and
  the NUL are written, and the length of \<open>s\<close> is added to \<open>nPos\<close>. With \<open>nPos\<close> past the end the size wraps
  around: \<open>None\<close>.
\<close>

abbreviation (input) NUL :: char where "NUL \<equiv> CHR 0x00"

definition snprintf_at :: "string \<times> nat \<Rightarrow> string \<Rightarrow> (string \<times> nat) option" where
  "snprintf_at b s =
     (let (buf, nPos) = b in
      if length buf < nPos then None
      else (let room = length buf - nPos;
                out = (if room = 0 then [] else take (room - 1) s @ [NUL])
            in Some (take nPos buf @ out @ drop (nPos + length out) buf, nPos + length s)))"

fun snprintf_all :: "string \<times> nat \<Rightarrow> string list \<Rightarrow> (string \<times> nat) option" where
  "snprintf_all b [] = Some b"
| "snprintf_all b (s # ss) = Option.bind (snprintf_at b s) (\<lambda>b1. snprintf_all b1 ss)"

definition c_string :: "string \<Rightarrow> string" where
  "c_string buf = takeWhile (\<lambda>c. c \<noteq> NUL) buf"

section \<open>SerialDump\<close>

text \<open>The two columns of a line: a byte past the end is blank.\<close>

definition hex_column :: "u8 list \<Rightarrow> int \<Rightarrow> nat \<Rightarrow> string" where
  "hex_column pData nCnt i = (if int i < nCnt then fmt_X 2 (unat (pData ! i)) else ''  '')"

definition char_column :: "u8 list \<Rightarrow> int \<Rightarrow> nat \<Rightarrow> string" where
  "char_column pData nCnt i =
     (if int i < nCnt then [if isprint (pData ! i) then char_of (unat (pData ! i)) else CHR ''.''] else '' '')"

text \<open>Reading past the array is undefined. The buffer lives across the lines.\<close>

function dump_lines :: "ENGINE_PRIV option \<Rightarrow> string \<Rightarrow> u32 \<Rightarrow> u8 list \<Rightarrow> int \<Rightarrow> logged option" where
  "dump_lines hEngine chLine uAddr pData nCnt =
     (if nCnt > 0 then
        (if min 16 nCnt > int (length pData) then None
         else Option.bind (snprintf_all (chLine, 0)
                (map (hex_column pData nCnt) [0..<16] @ ['' - ''] @ map (char_column pData nCnt) [0..<16]))
           (\<lambda>(chLine1, nPos).
              (let (e, c) = WacomLog hEngine WACOMLOGLEVEL_DEBUG (fmt_X 4 (unat uAddr) @ '': '' @ c_string chLine1)
               in map_option (\<lambda>(e', cs). (e', c @ cs)) (dump_lines e chLine1 (uAddr + 16) (drop 16 pData) (nCnt - 16)))))
      else Some (hEngine, []))"
  by pat_completeness auto
termination by (relation "measure (\<lambda>(_, _, _, _, nCnt). nat nCnt)") auto

declare dump_lines.simps [simp del]

definition SerialDump :: "ENGINE_PRIV option \<Rightarrow> string \<Rightarrow> u8 list \<Rightarrow> int \<Rightarrow> logged option" where
  "SerialDump hEngine chLine pvData nCnt = dump_lines hEngine chLine 0 pvData nCnt"

section \<open>What SerialParseData logs\<close>

text \<open>The tests are those of \<open>SerialParseData\<close>, with its undefined accesses.\<close>

definition log_parse_data :: "ENGINE_PRIV option \<Rightarrow> string \<Rightarrow> u8 list \<Rightarrow> nat \<Rightarrow> logged option" where
  "log_parse_data hEngine chLine buf uLength = do {
     b0 \<leftarrow> byte_at buf 0;
     if \<not> tst (b0 AND 0x80) then Some (SerialError hEngine ''HIBIT FAIL'')
     else do {
       ok \<leftarrow> low_bits buf [1..<uLength];
       if \<not> ok then
         (let (e, c) = SerialError hEngine ''LOBIT FAIL''
          in map_option (\<lambda>(e', cs). (e', c @ cs)) (SerialDump e chLine buf (int uLength)))
       else Some (hEngine, [])
     }
   }"

lemma u8_less: "unat (b :: u8) < 256"
  using unsigned_less [of b, where 'a = nat] by simp

section \<open>Writing to the buffer\<close>

lemma snprintf_at_fits:
  assumes "nPos + length s < length buf"
  shows "\<exists>buf'. snprintf_at (buf, nPos) s = Some (buf', nPos + length s) \<and> length buf' = length buf \<and>
    take (nPos + length s) buf' = take nPos buf @ s \<and> buf' ! (nPos + length s) = NUL"
  using assms by (auto simp: snprintf_at_def Let_def min_def nth_append)

lemma snprintf_all_fits:
  assumes "nPos + length (concat ss) < length buf" "ss \<noteq> []"
  shows "\<exists>buf'. snprintf_all (buf, nPos) ss = Some (buf', nPos + length (concat ss)) \<and> length buf' = length buf \<and>
    take (nPos + length (concat ss)) buf' = take nPos buf @ concat ss \<and> buf' ! (nPos + length (concat ss)) = NUL"
  using assms
proof (induction ss arbitrary: buf nPos)
  case (Cons s ss)
  obtain b where b: "snprintf_at (buf, nPos) s = Some (b, nPos + length s)" "length b = length buf"
    "take (nPos + length s) b = take nPos buf @ s" "b ! (nPos + length s) = NUL"
    using snprintf_at_fits [of nPos s buf] Cons.prems(1) by auto
  show ?case
  proof (cases "ss = []")
    case True
    then show ?thesis using b by simp
  next
    case False
    then obtain b' where b': "snprintf_all (b, nPos + length s) ss = Some (b', nPos + length s + length (concat ss))"
      "length b' = length b" "take (nPos + length s + length (concat ss)) b' = take (nPos + length s) b @ concat ss"
      "b' ! (nPos + length s + length (concat ss)) = NUL"
      using Cons.IH [of "nPos + length s" b] Cons.prems(1) b(2) by auto
    then show ?thesis using b by (simp add: add.assoc)
  qed
qed simp

lemma snprintf_all_line:
  assumes "length (concat ss) < length buf" "ss \<noteq> []" "NUL \<notin> set (concat ss)"
  shows "\<exists>buf'. snprintf_all (buf, 0) ss = Some (buf', length (concat ss)) \<and> length buf' = length buf \<and> c_string buf' = concat ss"
proof -
  obtain b where b: "snprintf_all (buf, 0) ss = Some (b, length (concat ss))" "length b = length buf"
    "take (length (concat ss)) b = concat ss" "b ! length (concat ss) = NUL"
    using snprintf_all_fits [of 0 ss buf] assms by auto
  have "b = concat ss @ NUL # drop (Suc (length (concat ss))) b"
    using b assms(1) by (metis Cons_nth_drop_Suc append_take_drop_id)
  then have "c_string b = c_string (concat ss @ NUL # drop (Suc (length (concat ss))) b)"
    by simp
  also have "\<dots> = concat ss"
    unfolding c_string_def using assms(3) by (subst takeWhile_append2) auto
  finally show ?thesis using b by blast
qed

section \<open>Reading a dump\<close>

text \<open>A reader of the log: the hexadecimal number before the colon, and the pairs of digits after it.\<close>

definition digit_value :: "char \<Rightarrow> nat" where
  "digit_value c = (let n = of_char c in if n < 65 then n - 48 else n - 55)"

definition hex_value :: "string \<Rightarrow> nat" where
  "hex_value s = foldl (\<lambda>v c. v * 16 + digit_value c) 0 s"

fun read_pairs :: "string \<Rightarrow> u8 list" where
  "read_pairs (a # b # s) = (if a = CHR '' '' then [] else of_nat (hex_value [a, b]) # read_pairs s)"
| "read_pairs _ = []"

definition line_address :: "string \<Rightarrow> nat" where
  "line_address l = hex_value (takeWhile (\<lambda>c. c \<noteq> CHR '':'') l)"

definition line_bytes :: "string \<Rightarrow> u8 list" where
  "line_bytes l = read_pairs (take 32 (drop 2 (dropWhile (\<lambda>c. c \<noteq> CHR '':'') l)))"

lemma hex_digit_all: "list_all (\<lambda>n. digit_value (hex_digit n) = n \<and> hex_digit n \<noteq> CHR '':'' \<and> hex_digit n \<noteq> NUL \<and> hex_digit n \<noteq> CHR '' '') [0..<16]"
  by code_simp

lemma hex_digit: "n < 16 \<Longrightarrow> digit_value (hex_digit n) = n \<and> hex_digit n \<noteq> CHR '':'' \<and> hex_digit n \<noteq> NUL \<and> hex_digit n \<noteq> CHR '' ''"
  using hex_digit_all by (auto simp: list_all_iff)

lemma hex_chars: "c \<in> set (hex n) \<Longrightarrow> c \<noteq> CHR '':'' \<and> c \<noteq> NUL \<and> c \<noteq> CHR '' ''"
proof (induction n rule: hex.induct)
  case (1 n)
  then show ?case
    using hex_digit [of n] hex_digit [of "n mod 16"] by (cases "n < 16") (auto simp: hex.simps [of n])
qed

lemma hex_value_hex: "hex_value (hex n) = n"
proof (induction n rule: hex.induct)
  case (1 n)
  then show ?case
    using hex_digit [of n] hex_digit [of "n mod 16"]
    by (cases "n < 16") (auto simp: hex.simps [of n] hex_value_def)
qed

lemma fmt_X_chars: "c \<in> set (fmt_X w n) \<Longrightarrow> c \<noteq> CHR '':'' \<and> c \<noteq> NUL \<and> c \<noteq> CHR '' ''"
  using hex_chars [of c n] by (auto simp: fmt_X_def)

lemma hex_value_zeros: "hex_value (replicate k (CHR ''0'') @ s) = hex_value s"
  by (induction k) (simp_all add: hex_value_def digit_value_def)

lemma hex_value_fmt_X: "hex_value (fmt_X w n) = n"
  by (simp add: fmt_X_def hex_value_zeros hex_value_hex)

lemma fmt_X_2: "n < 256 \<Longrightarrow> fmt_X 2 n = [hex_digit (n div 16), hex_digit (n mod 16)]"
  by (cases "n < 16") (simp_all add: fmt_X_def hex.simps [of n] hex.simps [of "n div 16"] hex_digit_def)


section \<open>One line\<close>

lemma hex_column_pair:
  "hex_column d n i = (if int i < n then [hex_digit (unat (d ! i) div 16), hex_digit (unat (d ! i) mod 16)] else CHR '' '' # '' '')"
  using u8_less [of "d ! i"] by (simp add: hex_column_def fmt_X_2)

lemma length_columns [simp]: "length (hex_column d n i) = 2" "length (char_column d n i) = 1"
  using hex_column_pair [of d n i] by (simp_all add: char_column_def)

lemma byte_of_pair: "of_nat (hex_value [hex_digit (unat (b :: u8) div 16), hex_digit (unat b mod 16)]) = b"
proof -
  have "unat b div 16 < 16" using u8_less [of b] by simp
  then show ?thesis
    using hex_digit [of "unat b div 16"] hex_digit [of "unat b mod 16"] by (simp add: hex_value_def)
qed

lemma read_hex_columns:
  "k \<le> 16 \<Longrightarrow> read_pairs (concat (map (hex_column d n) [k..<16])) = map ((!) d) [k..<nat (min 16 n)]"
proof (induction "16 - k" arbitrary: k)
  case (Suc m)
  then have k: "k < 16" "[k..<16] = k # [Suc k..<16]"
    by (simp_all add: upt_rec)
  show ?case
  proof (cases "int k < n")
    case True
    have "unat (d ! k) div 16 < 16" using u8_less [of "d ! k"] by simp
    then have "hex_digit (unat (d ! k) div 16) \<noteq> CHR '' ''" by (simp add: hex_digit)
    moreover have "[k..<nat (min 16 n)] = k # [Suc k..<nat (min 16 n)]"
      using True k by (simp add: upt_rec)
    ultimately show ?thesis
      using Suc.hyps(1) [of "Suc k"] Suc.hyps(2) True k byte_of_pair [of "d ! k"] by (simp add: hex_column_pair)
  next
    case False
    then show ?thesis using k by (simp add: hex_column_def)
  qed
qed simp

abbreviation (input) line_pieces :: "u8 list \<Rightarrow> int \<Rightarrow> string list" where
  "line_pieces d n \<equiv> map (hex_column d n) [0..<16] @ ['' - ''] @ map (char_column d n) [0..<16]"

lemma length_concat_map: "\<forall>x\<in>set xs. length (f x) = k \<Longrightarrow> length (concat (map f xs)) = k * length xs"
  by (induction xs) auto

lemma hex_columns_length: "length (concat (map (hex_column d n) [0..<16])) = 32"
  by (subst length_concat_map [where k = 2]) auto

lemma line_length: "length (concat (line_pieces d n)) = 51"
  using hex_columns_length [of d n] length_concat_map [of "[0..<16]" "char_column d n" 1] by simp

lemma column_no_nul: "NUL \<notin> set (hex_column d n i)" "NUL \<notin> set (char_column d n i)"
proof -
  show "NUL \<notin> set (hex_column d n i)"
    using fmt_X_chars by (auto simp: hex_column_def)
  have "char_of (unat (d ! i)) \<noteq> NUL" if "isprint (d ! i)"
  proof
    assume "char_of (unat (d ! i)) = NUL"
    then have "of_char (char_of (unat (d ! i)) :: char) = (0 :: nat)" by simp
    then have "unat (d ! i) = 0" using u8_less [of "d ! i"] by (simp add: take_bit_eq_mod)
    then show False using that by (simp add: isprint_def word_le_nat_alt)
  qed
  then show "NUL \<notin> set (char_column d n i)"
    by (auto simp: char_column_def)
qed

lemma line_no_nul: "NUL \<notin> set (concat (line_pieces d n))"
  using column_no_nul by auto

text \<open>The address and the bytes can be read from a line, for any address and any text after the columns.\<close>

lemma read_line:
  fixes d :: "u8 list" and n :: int and a :: nat
  defines "l \<equiv> fmt_X 4 a @ '': '' @ concat (line_pieces d n)"
  assumes "min 16 n \<le> int (length d)"
  shows "line_address l = a" "line_bytes l = take (nat (min 16 n)) d"
proof -
  have c: "\<forall>x\<in>set (fmt_X 4 a). x \<noteq> CHR '':''" using fmt_X_chars by blast
  have w: "takeWhile (\<lambda>c. c \<noteq> CHR '':'') l = fmt_X 4 a" "dropWhile (\<lambda>c. c \<noteq> CHR '':'') l = '': '' @ concat (line_pieces d n)"
    unfolding l_def using c by (simp_all add: takeWhile_append dropWhile_append)
  show "line_address l = a"
    by (simp add: line_address_def w hex_value_fmt_X)
  have "take 32 (drop 2 ('': '' @ concat (line_pieces d n))) = concat (map (hex_column d n) [0..<16])"
    using hex_columns_length [of d n] by simp
  then have "line_bytes l = map ((!) d) [0..<nat (min 16 n)]"
    using read_hex_columns [of 0 d n] by (simp only: line_bytes_def w)
  also have "\<dots> = take (nat (min 16 n)) d"
    using assms(2) by (intro nth_equalityI) auto
  finally show "line_bytes l = take (nat (min 16 n)) d" .
qed


section \<open>The whole dump\<close>

lemma hex_length: "n < 16 ^ k \<Longrightarrow> 0 < k \<Longrightarrow> length (hex n) \<le> k"
proof (induction k arbitrary: n)
  case (Suc k)
  show ?case
  proof (cases "n < 16")
    case False
    then have "k \<noteq> 0" "n div 16 < 16 ^ k" using Suc.prems(1) by (auto intro!: Nat.gr0I)
    then show ?thesis using False Suc.IH [of "n div 16"] by (simp add: hex.simps [of n])
  qed (simp add: hex.simps [of n])
qed simp

lemma fmt_X_length: "n < 2 ^ 32 \<Longrightarrow> length (fmt_X 4 n) \<le> 8"
  using hex_length [of n 8] by (simp add: fmt_X_def)

lemma WacomLog_enabled:
  assumes "e_pfnLog e = Some f" "lv \<le> e_level e" "length s \<le> 1023"
  shows "WacomLog (Some e) lv s = (Some (e\<lparr>e_chLogBuf := s\<rparr>), [(f, lv, s)])"
  using assms by (simp add: WacomLog_def WacomLogV_def Let_def)

text \<open>The log calls of a dump depend on the log function and the level only.\<close>

lemma dump_same_calls:
  assumes "e_pfnLog e2 = e_pfnLog e1" "e_level e2 = e_level e1"
  shows "map_option snd (dump_lines (Some e2) buf a d n) = map_option snd (dump_lines (Some e1) buf a d n)"
  using assms
proof (induction "nat n" arbitrary: e1 e2 buf a d n rule: less_induct)
  case less
  have log: "\<exists>f1 f2 c. WacomLog (Some e1) lv s = (Some f1, c) \<and> WacomLog (Some e2) lv s = (Some f2, c) \<and>
      e_pfnLog f2 = e_pfnLog f1 \<and> e_level f2 = e_level f1" for lv s
    using less.prems by (auto simp: WacomLog_def WacomLogV_def Let_def split: option.splits)
  show ?case
  proof (cases "0 < n \<and> \<not> int (length d) < min 16 n")
    case True
    show ?thesis
    proof (cases "snprintf_all (buf, 0) (line_pieces d n)")
      case (Some b)
      obtain f1 f2 c where c: "WacomLog (Some e1) 5 (fmt_X 4 (unat a) @ '': '' @ c_string (fst b)) = (Some f1, c)"
        "WacomLog (Some e2) 5 (fmt_X 4 (unat a) @ '': '' @ c_string (fst b)) = (Some f2, c)"
        "e_pfnLog f2 = e_pfnLog f1" "e_level f2 = e_level f1"
        using log by blast
      have "map_option snd (dump_lines (Some f2) (fst b) (a + 16) (drop 16 d) (n - 16)) =
          map_option snd (dump_lines (Some f1) (fst b) (a + 16) (drop 16 d) (n - 16))"
        using less.hyps [of "n - 16" f2 f1] c(3,4) True by auto
      then show ?thesis
        using True Some c(1,2)
        by (cases "dump_lines (Some f1) (fst b) (a + 16) (drop 16 d) (n - 16)";
            cases "dump_lines (Some f2) (fst b) (a + 16) (drop 16 d) (n - 16)")
          (auto simp: dump_lines.simps [of _ buf] split: prod.splits)
    qed (use True in \<open>simp add: dump_lines.simps [of _ buf]\<close>)
  qed (simp add: dump_lines.simps [of _ buf])
qed

lemma dump_lines_read:
  assumes "e_pfnLog e = Some f" "5 \<le> e_level e" "51 < length buf" "a + length d < 2 ^ 32"
  shows "\<exists>e' calls. dump_lines (Some e) buf (of_nat a) d (int (length d)) = Some (Some e', calls) \<and>
    length calls = (length d + 15) div 16 \<and>
    map (line_address \<circ> snd \<circ> snd) calls = map (\<lambda>i. a + 16 * i) [0..<length calls] \<and>
    concat (map (line_bytes \<circ> snd \<circ> snd) calls) = d \<and> list_all (\<lambda>c. fst c = f \<and> fst (snd c) = 5) calls"
  using assms
proof (induction "length d" arbitrary: d a e buf rule: less_induct)
  case less
  show ?case
  proof (cases "d = []")
    case True
    then show ?thesis by (simp add: dump_lines.simps)
  next
    case False
    let ?n = "int (length d)"
    let ?t = "fmt_X 4 a @ '': '' @ concat (line_pieces d ?n)"
    let ?e = "e\<lparr>e_chLogBuf := ?t\<rparr>"
    have a: "unat (of_nat a :: u32) = a"
      using less.prems(4) by (simp add: unat_of_nat take_bit_nat_eq_self)
    obtain b where b: "snprintf_all (buf, 0) (line_pieces d ?n) = Some (b, 51)" "length b = length buf"
      "c_string b = concat (line_pieces d ?n)"
      using snprintf_all_line [of "line_pieces d ?n" buf] line_length [of d ?n] line_no_nul [of d ?n] less.prems(3) by auto
    have "length ?t \<le> 1023"
      using fmt_X_length [of a] line_length [of d ?n] less.prems(4) by simp
    then have w: "WacomLog (Some e) 5 ?t = (Some ?e, [(f, 5, ?t)])"
      by (rule WacomLog_enabled [OF less.prems(1,2)])
    have rec: "dump_lines (Some e) buf (of_nat a) d ?n =
        map_option (\<lambda>(e', cs). (e', (f, 5, ?t) # cs)) (dump_lines (Some ?e) b (of_nat (a + 16)) (drop 16 d) (?n - 16))"
      using False b w a by (subst dump_lines.simps) (simp add: ac_simps)
    have "take (nat (min 16 ?n)) d = take 16 d"
      by (cases "length d \<le> 16") (simp_all add: min_def)
    then have t: "line_address ?t = a" "line_bytes ?t = take 16 d"
      using read_line(1) [of ?n d a] read_line(2) [of ?n d a] by (simp_all only: min.cobounded2)
    show ?thesis
    proof (cases "length d \<le> 16")
      case True
      then have "dump_lines (Some ?e) b (of_nat (a + 16)) (drop 16 d) (?n - 16) = Some (Some ?e, [])"
        by (subst dump_lines.simps) simp
      moreover have "(length d + 15) div 16 = Suc 0"
        using True False by (cases d) (auto simp: div_nat_eqI)
      ultimately show ?thesis using rec t True by simp
    next
      case big: False
      have n: "?n - 16 = int (length (drop 16 d))" using big by simp
      have pre: "length (drop 16 d) < length d" "e_pfnLog ?e = Some f" "5 \<le> e_level ?e" "51 < length b"
        "a + 16 + length (drop 16 d) < 2 ^ 32"
        using less.prems b(2) big by auto
      obtain e' cs where r: "dump_lines (Some ?e) b (of_nat (a + 16)) (drop 16 d) (?n - 16) = Some (Some e', cs)"
        "length cs = (length (drop 16 d) + 15) div 16"
        "map (line_address \<circ> snd \<circ> snd) cs = map (\<lambda>i. a + 16 + 16 * i) [0..<length cs]"
        "concat (map (line_bytes \<circ> snd \<circ> snd) cs) = drop 16 d" "list_all (\<lambda>c. fst c = f \<and> fst (snd c) = 5) cs"
        using less.hyps [OF pre] unfolding n by blast
      have "map (line_address \<circ> snd \<circ> snd) ((f, 5, ?t) # cs) = map (\<lambda>i. a + 16 * i) [0..<Suc (length cs)]"
        using r(3) t(1) by (simp add: upt_conv_Cons map_Suc_upt [symmetric] del: upt_Suc)
      moreover have "Suc (length cs) = (length d + 15) div 16"
        using r(2) big by simp
      ultimately show ?thesis
        using rec r(1,4,5) t(2) by (intro exI [of _ e'] exI [of _ "(f, 5, ?t) # cs"]) simp
    qed
  qed
qed

text \<open>C18: A dump in the log gives back the data. With a log function at level \<open>DEBUG\<close> or above, \<open>SerialDump\<close> of
  data of any length never writes past its 80 byte buffer, ends, and logs one line for every 16 bytes:
  the address of each line is 16 times its number and the hexadecimal columns of the lines, in order, are
  exactly the data. A packet that \<open>SerialParseData\<close> rejects for a high bit past its first byte is
  logged whole in this way behind \<open>LOBIT FAIL\<close>.\<close>

theorem dump_reads_back:
  assumes "e_pfnLog e = Some f" "5 \<le> e_level e" "length chLine = 80" "length d < 2 ^ 31"
  shows "\<exists>e' calls. SerialDump (Some e) chLine d (int (length d)) = Some (Some e', calls) \<and>
    length calls = (length d + 15) div 16 \<and>
    map (line_address \<circ> snd \<circ> snd) calls = map (\<lambda>i. 16 * i) [0..<length calls] \<and>
    concat (map (line_bytes \<circ> snd \<circ> snd) calls) = d \<and> list_all (\<lambda>c. fst c = f \<and> fst (snd c) = 5) calls \<and>
    (d \<noteq> [] \<and> byte d 0 AND 0x80 \<noteq> 0 \<and> list_ex (\<lambda>i. byte d i AND 0x80 \<noteq> 0) [1..<length d] \<longrightarrow>
      SerialParseData ps d (length d) pState = Some (fail EINVAL, ps\<lparr>s_nBitErrors := s_nBitErrors ps + 1\<rparr>, pState) \<and>
      map_option snd (log_parse_data (Some e) chLine d (length d)) = Some ((f, 2, ''LOBIT FAIL'') # calls))"
proof -
  have pre: "51 < length chLine" "0 + length d < 2 ^ 32"
    using assms(3,4) by auto
  have z: "of_nat 0 = (0 :: u32)" by simp
  obtain e' calls where c: "SerialDump (Some e) chLine d (int (length d)) = Some (Some e', calls)"
    "length calls = (length d + 15) div 16" "map (line_address \<circ> snd \<circ> snd) calls = map (\<lambda>i. 16 * i) [0..<length calls]"
    "concat (map (line_bytes \<circ> snd \<circ> snd) calls) = d" "list_all (\<lambda>c. fst c = f \<and> fst (snd c) = 5) calls"
    using dump_lines_read [OF assms(1,2) pre] unfolding SerialDump_def add_0 z by blast
  let ?e = "e\<lparr>e_chLogBuf := ''LOBIT FAIL''\<rparr>"
  have err: "SerialError (Some e) ''LOBIT FAIL'' = (Some ?e, [(f, 2, ''LOBIT FAIL'')])"
    using assms(1,2) by (simp add: SerialError_def WacomLog_enabled)
  have buf: "map_option snd (SerialDump (Some ?e) chLine d (int (length d))) = Some calls"
    using dump_same_calls [of e ?e chLine 0 d "int (length d)"] c(1) by (auto simp: SerialDump_def)
  have "SerialParseData ps d (length d) pState = Some (fail EINVAL, ps\<lparr>s_nBitErrors := s_nBitErrors ps + 1\<rparr>, pState) \<and>
      map_option snd (log_parse_data (Some e) chLine d (length d)) = Some ((f, 2, ''LOBIT FAIL'') # calls)"
    if "d \<noteq> [] \<and> byte d 0 AND 0x80 \<noteq> 0 \<and> list_ex (\<lambda>i. byte d i AND 0x80 \<noteq> 0) [1..<length d]"
  proof -
    have len: "max 1 (length d) \<le> length d" using that by (cases d) auto
    have bad: "\<exists>i\<in>set [1..<length d]. byte d i AND 0x80 \<noteq> 0" using that by (simp add: list_ex_iff)
    have "low_bits d [1..<length d] = Some (\<not> (\<exists>i\<in>set [1..<length d]. byte d i AND 0x80 \<noteq> 0))" by (rule low_bits_in) auto
    then have low: "low_bits d [1..<length d] = Some False" using bad by simp
    have z: "byte_at d 0 = Some (byte d 0)" using that by (intro byte_at_in) simp
    have "SerialParseData ps d (length d) pState = Some (fail EINVAL, ps\<lparr>s_nBitErrors := s_nBitErrors ps + 1\<rparr>, pState)"
      unfolding SerialParseData_in [OF len] using bad by (simp only: if_True simp_thms)
    moreover have "map_option snd (log_parse_data (Some e) chLine d (length d)) = Some ((f, 2, ''LOBIT FAIL'') # calls)"
      using that err buf low z by (auto simp: log_parse_data_def)
    ultimately show ?thesis ..
  qed
  then show ?thesis using c by blast
qed

text \<open>Twenty bytes make two lines.\<close>

lemma dump_reads_back_witness:
  "\<exists>e' calls. SerialDump (Some \<lparr>e_pfnLog = Some 1, e_level = 6, e_chLogBuf = []\<rparr>) (replicate 80 (CHR ''x'')) (map of_nat [240..<260]) 20 =
      Some (Some e', calls) \<and> length calls = 2 \<and> concat (map (line_bytes \<circ> snd \<circ> snd) calls) = map of_nat [240..<260]"
  using dump_reads_back [of "\<lparr>e_pfnLog = Some 1, e_level = 6, e_chLogBuf = []\<rparr>" 1 "replicate 80 (CHR ''x'')" "map of_nat [240..<260]"]
  by fastforce

end
