(* ===== verification/Wacom_Input.thy ===== *)
theory Wacom_Input
  imports Tablet_Client
begin

text \<open>
  \<^verbatim>\<open>wacom/wacom-input.c\<close>: the daemon that turns the packets of a serial tablet into the events of a
  virtual input device. Its arguments, its start, the body of its loop and its signal handler. The
  program is built without \<open>WCM_ENABLE_LINUXINPUT\<close>. Registering the signal handler is taken to
  succeed, and messages on standard error are left out.
\<close>

section \<open>Arguments\<close>

record options =
  o_devName :: string
  o_devNode :: string
  o_minPress :: s32

definition default_options :: options where
  "default_options = \<lparr>o_devName = ''tpc'', o_devNode = ''/dev/ttyS0'', o_minPress = 20\<rparr>"

text \<open>\<open>exit(0)\<close> after the usage, \<open>die\<close>, a number out of range in \<open>atoi\<close>, or the options.\<close>

datatype args_result = Args_usage | Args_die string | Args_undefined | Args options

fun parse_args :: "string list \<Rightarrow> options \<Rightarrow> args_result" where
  "parse_args [] opt = Args opt"
| "parse_args (arg # argv) opt =
     (if arg \<noteq> [] \<and> hd arg = CHR ''-'' then
        (if arg = ''-h'' then Args_usage
         else if arg = ''-t'' then
           (case argv of [] \<Rightarrow> Args_die ''Missing device type''
            | a # argv' \<Rightarrow> if a \<noteq> [] \<and> hd a = CHR ''-'' then Args_die ''Missing device type''
                          else parse_args argv' (opt\<lparr>o_devName := a\<rparr>))
         else if arg = ''-d'' then
           (case argv of [] \<Rightarrow> Args_die ''Missing device node''
            | a # argv' \<Rightarrow> if a \<noteq> [] \<and> hd a = CHR ''-'' then Args_die ''Missing device node''
                          else parse_args argv' (opt\<lparr>o_devNode := a\<rparr>))
         else if arg = ''-p'' then
           (case argv of [] \<Rightarrow> Args_die ''Wrong pressure threshold''
            | a # argv' \<Rightarrow>
                (case atoi (asc a) of None \<Rightarrow> Args_undefined
                 | Some v \<Rightarrow> if v = 0 then Args_die ''Wrong pressure threshold''
                            else parse_args argv' (opt\<lparr>o_minPress := v\<rparr>)))
         else parse_args argv opt)
      else parse_args argv opt)"

section \<open>The virtual device\<close>

text \<open>\<open>struct uinput_user_dev\<close> in memory: the name, four numbers, \<open>ff_effects_max\<close>, and four arrays of 64.\<close>

definition uidev_bytes :: "string \<Rightarrow> u16 \<Rightarrow> u16 \<Rightarrow> u16 \<Rightarrow> u16 \<Rightarrow> (nat \<Rightarrow> s32) \<Rightarrow> (nat \<Rightarrow> s32) \<Rightarrow> u8 list" where
  "uidev_bytes nm bustype vendor product version absmax absmin =
     asc nm @ replicate (80 - length nm) 0 @ le16 bustype @ le16 vendor @ le16 product @ le16 version @ le32 0
     @ concat (map (\<lambda>i. le32 (absmax i)) [0..<64]) @ concat (map (\<lambda>i. le32 (absmin i)) [0..<64])
     @ concat (map (\<lambda>i. le32 0) [0..<64]) @ concat (map (\<lambda>i. le32 0) [0..<64])"

text \<open>The first \<open>ioctl\<close> that fails ends the program.\<close>

fun ioctls :: "int \<Rightarrow> ioctl_req list \<Rightarrow> world \<Rightarrow> bool \<times> world" where
  "ioctls fd [] w = (True, w)"
| "ioctls fd (q # qs) w =
     (let (r, d, w1) = sys_ioctl fd q w in if r < 0 then (False, w1) else ioctls fd qs w1)"

definition setup_requests :: "ioctl_req list" where
  "setup_requests = [UI_SET_EVBIT (unat EV_KEY), UI_SET_KEYBIT (unat BTN_TOUCH), UI_SET_EVBIT (unat EV_ABS),
     UI_SET_ABSBIT (unat ABS_X), UI_SET_ABSBIT (unat ABS_Y), UI_SET_ABSBIT (unat ABS_PRESSURE)]"

definition uidev_for :: "WACOMSTATE \<Rightarrow> u8 list" where
  "uidev_for st =
     uidev_bytes ''wacom-input'' 0x13 0x056A 0xFFFF 1
       ((\<lambda>_. 0)(unat ABS_X := get_nMax WACOMFIELD_POSITION_X st, unat ABS_Y := get_nMax WACOMFIELD_POSITION_Y st,
               unat ABS_PRESSURE := get_nMax WACOMFIELD_PRESSURE st))
       ((\<lambda>_. 0)(unat ABS_X := get_nMin WACOMFIELD_POSITION_X st, unat ABS_Y := get_nMin WACOMFIELD_POSITION_Y st,
               unat ABS_PRESSURE := get_nMin WACOMFIELD_PRESSURE st))"

text \<open>The descriptor of the device, or \<open>None\<close> for \<open>die\<close>.\<close>

definition setup_uinput :: "WACOMSTATE \<Rightarrow> world \<Rightarrow> int option \<times> world" where
  "setup_uinput st w =
     (let (fd0, w0) = sys_open ''/dev/uinput'' w;
          (fd, w1) = (if fd0 < 0 then sys_open ''/dev/input/uinput'' w0 else (fd0, w0))
      in if fd < 0 then (None, w1)
         else (let (set_ok, w2) = ioctls fd setup_requests w1
               in if \<not> set_ok then (None, w2)
                  else (let (n, w3) = sys_write fd (uidev_for st) w2
                        in if n < 0 then (None, w3)
                           else (let (c, d, w4) = sys_ioctl fd UI_DEV_CREATE w3
                                 in if c < 0 then (None, w4) else (Some fd, w4)))))"

section \<open>Reporting\<close>

text \<open>A value of -1 is not reported; a failed write is only logged.\<close>

definition wacom_report_event :: "int \<Rightarrow> u16 \<Rightarrow> u16 \<Rightarrow> s32 \<Rightarrow> world \<Rightarrow> world" where
  "wacom_report_event fd typ code v w =
     (if v = - 1 then w else snd (sys_write fd (event_bytes (event typ code v)) w))"

fun report_events :: "int \<Rightarrow> (u16 \<times> u16 \<times> s32) list \<Rightarrow> world \<Rightarrow> world" where
  "report_events fd [] w = w"
| "report_events fd ((t, c, v) # es) w = report_events fd es (wacom_report_event fd t c v w)"

text \<open>The calls of \<open>wacom_report_event\<close> for a state, in order.\<close>

definition events_for :: "s32 \<Rightarrow> WACOMSTATE \<Rightarrow> (u16 \<times> u16 \<times> s32) list" where
  "events_for minPress st =
     (if get_nValue WACOMFIELD_PROXIMITY st = 0 then
        [(EV_ABS, ABS_PRESSURE, 0), (EV_KEY, BTN_TOUCH, 0), (EV_SYN, SYN_REPORT, 0)]
      else
        [(EV_ABS, ABS_X, get_nValue WACOMFIELD_POSITION_X st), (EV_ABS, ABS_Y, get_nValue WACOMFIELD_POSITION_Y st),
         (EV_ABS, ABS_PRESSURE, get_nValue WACOMFIELD_PRESSURE st),
         (EV_KEY, BTN_TOUCH, if sint minPress < sint (get_nValue WACOMFIELD_PRESSURE st) then 1 else 0),
         (EV_SYN, SYN_REPORT, 0)])"

section \<open>The loop\<close>

text \<open>What the loop works on: the tablet, the buffer and the state; the globals do not change.\<close>

record input_loop =
  l_tablet :: "tablet option"
  l_buf :: "u8 list"
  l_state :: WACOMSTATE

definition input_step :: "int \<Rightarrow> s32 \<Rightarrow> input_loop \<Rightarrow> world \<Rightarrow> (input_loop \<times> world) option" where
  "input_step fd minPress l w = do {
     (got, t, buf, st, w1) \<leftarrow> read_parse WacomReadRaw WacomParseData (l_tablet l) (l_buf l) (l_state l) w;
     let l1 = \<lparr>l_tablet = t, l_buf = buf, l_state = st\<rparr>;
     Some (l1, if got then report_events fd (events_for minPress st) w1 else w1)
   }"

text \<open>The first \<open>n\<close> passes of \<open>while (1)\<close>.\<close>

fun input_run :: "nat \<Rightarrow> int \<Rightarrow> s32 \<Rightarrow> input_loop \<Rightarrow> world \<Rightarrow> (input_loop \<times> world) option" where
  "input_run 0 fd minPress l w = Some (l, w)"
| "input_run (Suc n) fd minPress l w = do {
     (l1, w1) \<leftarrow> input_step fd minPress l w;
     input_run n fd minPress l1 w1
   }"

section \<open>The start of the program\<close>

text \<open>
  Either the program has ended with an exit code, or it is about to enter the loop. The buffer is
  uninitialised; it is taken as zeros. Before \<open>/dev/uinput\<close> is open the global \<open>fd\<close> is 0,
  and a failure to open the tablet closes that descriptor.
\<close>

datatype started = Exited nat | Looping int s32 input_loop

definition wacom_input_start :: "string list \<Rightarrow> world \<Rightarrow> (started \<times> world) option" where
  "wacom_input_start argv w =
     (case parse_args argv default_options of
        Args_usage \<Rightarrow> Some (Exited 0, w)
      | Args_die m \<Rightarrow> Some (Exited 1, w)
      | Args_undefined \<Rightarrow> None
      | Args opt \<Rightarrow>
          (let model = zero_model\<lparr>uClass := WACOMCLASS_SERIAL,
                         uDevice := fst (WacomGetDeviceFromName False (Some (o_devName opt)) WACOMCLASS_SERIAL)\<rparr>
           in do {
             (t, w1) \<leftarrow> WacomOpenTablet False (o_devNode opt) (Some model) w;
             if t = None then Some (Exited 1, sys_close 0 w1)
             else do {
               (r, st) \<leftarrow> WacomGetState t (Some WACOMSTATE_INIT);
               st1 \<leftarrow> st;
               let (fd, w2) = setup_uinput st1 w1;
               Some (case fd of None \<Rightarrow> (Exited 1, w2)
                     | Some ufd \<Rightarrow> (Looping ufd (o_minPress opt) \<lparr>l_tablet = t, l_buf = replicate 64 0, l_state = st1\<rparr>, w2))
             }
           }))"

text \<open>On \<open>SIGINT\<close>: the exit code and the calls made.\<close>

definition signal_handler :: "int \<Rightarrow> tablet option \<Rightarrow> world \<Rightarrow> nat \<times> world" where
  "signal_handler fd hTablet w =
     (let (r, d, w1) = sys_ioctl fd UI_DEV_DESTROY w
      in if r < 0 then (1, w1) else (0, WacomCloseTablet hTablet (sys_close fd w1)))"

end
