(* ===== verification/Input_Session.thy ===== *)
theory Input_Session
  imports Wacom_Input
begin

text \<open>
  The properties of the input daemon: its loop is safe on every tablet, and a tablet PC's packets
  come out of the virtual device as the events they mean, from the start of the program on.
\<close>

section \<open>The loop is safe\<close>

definition loop_ok :: "input_loop \<Rightarrow> bool" where
  "loop_ok l \<longleftrightarrow> handle_ok (l_tablet l) \<and> l_buf l \<noteq> [] \<and> wf_state (l_state l)"

lemma input_step_ok:
  assumes "loop_ok l" and "input_step fd mp l w = Some (l', w')"
  shows "loop_ok l' \<and> length (l_buf l') = length (l_buf l)"
proof -
  obtain b t buf st w1 where r: "read_parse WacomReadRaw WacomParseData (l_tablet l) (l_buf l) (l_state l) w = Some (b, t, buf, st, w1)"
      "l' = \<lparr>l_tablet = t, l_buf = buf, l_state = st\<rparr>"
    using assms(2) by (auto simp: input_step_def split: bind_splits)
  from handle.read_parse_ok [OF _ _ _ r(1)] assms(1) show ?thesis by (auto simp: r(2) loop_ok_def)
qed

lemma input_run_ok:
  "loop_ok l \<Longrightarrow> input_run n fd mp l w = Some (l', w') \<Longrightarrow> loop_ok l' \<and> length (l_buf l') = length (l_buf l)"
proof (induction n arbitrary: l w)
  case (Suc n)
  then obtain l1 w1 where "input_step fd mp l w = Some (l1, w1)" "input_run n fd mp l1 w1 = Some (l', w')"
    by (auto split: bind_splits)
  with Suc.IH [of l1 w1] input_step_ok [OF Suc.prems(1)] show ?case by fastforce
qed simp



section \<open>Strokes of a tablet PC\<close>

text \<open>The events a packet means.\<close>

fun stroke_events :: "s32 \<Rightarrow> tpc_packet \<Rightarrow> input_event list" where
  "stroke_events mp TPC_Out = [event EV_ABS ABS_PRESSURE 0, event EV_KEY BTN_TOUCH 0, event EV_SYN SYN_REPORT 0]"
| "stroke_events mp (TPC_Pen x y press touch sw ers) =
     [event EV_ABS ABS_X (ucast x), event EV_ABS ABS_Y (ucast y), event EV_ABS ABS_PRESSURE (ucast press),
      event EV_KEY BTN_TOUCH (if sint mp < int (unat press) then 1 else 0), event EV_SYN SYN_REPORT 0]"

lemma not_minus_one:
  "(ucast (x :: 16 word) :: s32) \<noteq> - 1" "(ucast (p :: 8 word) :: s32) \<noteq> - 1"
proof -
  have "\<not> bit (ucast x :: s32) 31" "\<not> bit (ucast p :: s32) 31" by (simp_all add: bit_simps bit_out_of_range)
  moreover have "bit (- 1 :: s32) 31" by simp
  ultimately show "(ucast x :: s32) \<noteq> - 1" "(ucast p :: s32) \<noteq> - 1" by metis+
qed

lemma sint_ucast_u8: "sint (ucast (p :: 8 word) :: s32) = int (unat p)"
proof -
  have u: "uint (ucast p :: s32) = uint p"
    using unsigned_less [of p, where ?'a = int] by (simp add: unsigned_ucast_eq take_bit_int_eq_self_iff)
  have "sint (ucast p :: s32) = uint (ucast p :: s32)"
    using unsigned_less [of p, where ?'a = int] u by (intro sint_small [of _ 8]) simp_all
  then show ?thesis using u by simp
qed

text \<open>The reports of a state that a packet has set.\<close>

lemma report_events_sent:
  "answers w = replicate (length es) takes_all @ later \<Longrightarrow> list_all (\<lambda>(t, c, v). v \<noteq> - 1) es \<Longrightarrow>
   answers (report_events fd es w) = later \<and>
   sent fd (report_events fd es w) = sent fd w @ concat (map event_bytes (map (\<lambda>(t, c, v). event t c v) es))"
proof (induction fd es w rule: report_events.induct)
  case (2 fd t c v es w)
  have "answers w = Gives 64 [] # replicate (length es) takes_all @ later" using 2(2) by simp
  from sys_write_serve [OF this, of fd "event_bytes (event t c v)"] have
    "wacom_report_event fd t c v w =
       log_call (Sys_write fd (event_bytes (event t c v)) sizeof_input_event) (w\<lparr>answers := replicate (length es) takes_all @ later\<rparr>)"
    using 2(3) by (simp add: wacom_report_event_def)
  then have e: "answers (wacom_report_event fd t c v w) = replicate (length es) takes_all @ later"
    "sent fd (wacom_report_event fd t c v w) = sent fd w @ event_bytes (event t c v)"
    by (simp_all add: sent_def)
  from 2(1) [OF e(1)] 2(3) e(2) show ?case by simp
qed simp

lemma events_for_packet:
  assumes "serial_ok s"
  shows "map (\<lambda>(t, c, v). event t c v) (events_for mp (s_state (tpc_meaning pkt s))) = stroke_events mp pkt"
    and "list_all (\<lambda>(t, c, v). v \<noteq> - 1) (events_for mp (s_state (tpc_meaning pkt s)))"
proof -
  have "length (values_arr (s_state s)) = WACOMFIELD_MAX" using assms by (simp add: wf_state_def)
  then show "map (\<lambda>(t, c, v). event t c v) (events_for mp (s_state (tpc_meaning pkt s))) = stroke_events mp pkt"
    and "list_all (\<lambda>(t, c, v). v \<noteq> - 1) (events_for mp (s_state (tpc_meaning pkt s)))"
    by (cases pkt; simp add: events_for_def set_pen_fields_def not_minus_one sint_ucast_u8)+
qed

text \<open>Reading does not write.\<close>

lemma sys_read_sent: "sys_read fd n w = (r, d, w1) \<Longrightarrow> sent f w1 = sent f w"
  by (auto simp: sys_read_def next_answer_def sent_def split: list.splits answer.splits)

lemma sys_select_sent: "sys_select fd w = (r, w1) \<Longrightarrow> sent f w1 = sent f w"
  by (auto simp: sys_defs sent_def split: list.splits answer.splits)

lemma read_packet_sent: "read_packet ps L n buf w = (r, buf', ps', w') \<Longrightarrow> sent f w' = sent f w"
proof (induction ps L n buf w rule: read_packet.induct)
  case (1 ps L n buf w)
  obtain k w1 where s: "sys_select (s_fd ps) w = (k, w1)" by (cases "sys_select (s_fd ps) w")
  obtain x d w2 where r: "sys_read (s_fd ps) (L - n) w1 = (x, d, w2)" by (rule prod_cases3)
  obtain buf1 e j where rs: "resync buf n d (s_nBitErrors ps) = (buf1, e, j)" by (rule prod_cases3)
  show ?case
  proof (cases "n < L \<and> 0 < k \<and> 0 < x")
    case True
    then have "read_packet (ps\<lparr>s_nBitErrors := e\<rparr>) L (n + j) buf1 w2 = (r, buf', ps', w')"
      using 1(2) s r rs by (subst (asm) read_packet.simps) simp
    from 1(1) [OF _ s [symmetric] refl _ r [symmetric] refl refl _ rs [symmetric] refl refl this] True
    show ?thesis using sys_select_sent [OF s] sys_read_sent [OF r] by simp
  next
    case False
    then show ?thesis
      using 1(2) s r rs sys_select_sent [OF s] sys_read_sent [OF r]
      by (subst (asm) read_packet.simps) (auto split: if_splits)
  qed
qed

text \<open>
  A stroke on the wire: the chunks of the tablet's bytes for a packet, after bytes that do not begin
  one, and the kernel taking every event that is written.
\<close>

type_synonym wire_stroke = "u8 list list \<times> tpc_packet"

fun on_wire :: "wire_stroke \<Rightarrow> bool" where
  "on_wire (cs, pkt) \<longleftrightarrow>
     list_all (\<lambda>c. 0 < length c \<and> length c \<le> 9) cs \<and>
     (\<exists>junk. concat cs = junk @ tpc_encode pkt \<and> list_all (\<lambda>b. \<not> high_bit b) junk)"

fun stroke_script :: "s32 \<Rightarrow> wire_stroke \<Rightarrow> answer list" where
  "stroke_script mp (cs, pkt) = stream_script cs @ replicate (length (stroke_events mp pkt)) takes_all"

definition tpc_ready :: "int \<Rightarrow> SERIALTABLET \<Rightarrow> bool" where
  "tpc_ready ufd s \<longleftrightarrow> serial_ok s \<and> s_pfnParse s = Some SerialParseTabletPC_fn \<and> unat (s_uPacketLength s) = 9 \<and>
     s_nBitErrors s = 0 \<and> s_fd s \<noteq> ufd"

lemma set_pen_fields_keeps [simp]:
  "s_pfnParse (set_pen_fields a b c d e f s) = s_pfnParse s" "s_uPacketLength (set_pen_fields a b c d e f s) = s_uPacketLength s"
  "s_nBitErrors (set_pen_fields a b c d e f s) = s_nBitErrors s" "s_fd (set_pen_fields a b c d e f s) = s_fd s"
  "serial_ok (set_pen_fields a b c d e f s) = serial_ok s"
  by (simp_all add: set_pen_fields_def)

lemma tpc_ready_meaning: "tpc_ready ufd s \<Longrightarrow> tpc_ready ufd (tpc_meaning pkt s)"
  by (cases pkt) (simp_all add: tpc_ready_def)

lemma stroke_step:
  assumes "tpc_ready ufd s" and "wf_state st" and "9 \<le> length buf" and "on_wire k"
    and "answers w = stroke_script mp k @ later"
  shows "\<exists>buf' w'. input_step ufd mp \<lparr>l_tablet = Some (T_serial s), l_buf = buf, l_state = st\<rparr> w =
      Some (\<lparr>l_tablet = Some (T_serial (tpc_meaning (snd k) s)), l_buf = buf', l_state = s_state (tpc_meaning (snd k) s)\<rparr>, w') \<and>
    length buf' = length buf \<and> answers w' = later \<and>
    sent ufd w' = sent ufd w @ concat (map event_bytes (stroke_events mp (snd k)))"
proof -
  obtain cs pkt where k: "k = (cs, pkt)" by (cases k)
  obtain junk where j: "concat cs = junk @ tpc_encode pkt" "list_all (\<lambda>b. \<not> high_bit b) junk"
      "list_all (\<lambda>c. 0 < length c \<and> length c \<le> 9) cs"
    using assms(4) by (auto simp: k)
  let ?es = "stroke_events mp pkt"
  have s: "serial_ok s" "s_pfnParse s = Some SerialParseTabletPC_fn" "unat (s_uPacketLength s) = 9" "s_nBitErrors s = 0" "s_fd s \<noteq> ufd"
    using assms(1) by (simp_all add: tpc_ready_def)
  have len: "length (tpc_encode pkt) = 9" "tpc_encode pkt \<noteq> []" by (simp, metis length_0_conv tpc_encode_length zero_neq_numeral)
  have "answers w = stream_script cs @ replicate (length ?es) takes_all @ later" using assms(5) by (simp add: k)
  from read_one_packet [OF this j(1) _ _ head_high_bit [OF len(2) tpc_encode_sync(1)] len(1) assms(3) s(3,4)] j(2,3)
  obtain e w1 where 1: "SerialReadRaw s buf w = Some (9, tpc_encode pkt @ drop 9 buf, s\<lparr>s_nBitErrors := e\<rparr>, w1)"
    "answers w1 = replicate (length ?es) takes_all @ later"
    by (auto simp: list_all_iff)
  have sent1: "sent ufd w1 = sent ufd w"
    using 1(1) s(3,4) assms(3) read_packet_sent [of s 9 0 buf w 9 "tpc_encode pkt @ drop 9 buf" "s\<lparr>s_nBitErrors := e\<rparr>" w1 ufd]
    by (simp add: SerialReadRaw_def Let_def)
  have z: "s\<lparr>s_nBitErrors := 0\<rparr> = s" using s(4) by (cases s) simp
  have 2: "SerialParseData (s\<lparr>s_nBitErrors := e\<rparr>) (tpc_encode pkt @ drop 9 buf) 9 (Some st) =
      Some (rc_ok, tpc_meaning pkt s, Some (s_state (tpc_meaning pkt s)))"
    using TPC_packet_parsed [of "s\<lparr>s_nBitErrors := e\<rparr>" "Some st" "tpc_encode pkt @ drop 9 buf" pkt] s len assms(2) z by (simp add: Let_def)
  have step: "input_step ufd mp \<lparr>l_tablet = Some (T_serial s), l_buf = buf, l_state = st\<rparr> w =
      Some (\<lparr>l_tablet = Some (T_serial (tpc_meaning pkt s)), l_buf = tpc_encode pkt @ drop 9 buf, l_state = s_state (tpc_meaning pkt s)\<rparr>,
        report_events ufd (events_for mp (s_state (tpc_meaning pkt s))) w1)"
    using 1(1) 2 by (simp add: input_step_def read_parse_def WacomReadRaw_def WacomParseData_def)
  note ev = events_for_packet [OF s(1), of mp pkt]
  have "length (events_for mp (s_state (tpc_meaning pkt s))) = length ?es" using ev(1) by (metis length_map)
  then have "answers w1 = replicate (length (events_for mp (s_state (tpc_meaning pkt s)))) takes_all @ later" using 1(2) by simp
  from report_events_sent [OF this ev(2), of ufd]
  have r: "answers (report_events ufd (events_for mp (s_state (tpc_meaning pkt s))) w1) = later"
    "sent ufd (report_events ufd (events_for mp (s_state (tpc_meaning pkt s))) w1) = sent ufd w @ concat (map event_bytes ?es)"
    using ev(1) sent1 by simp_all
  then show ?thesis using step len(1) assms(3) by (auto simp: k)
qed

lemma stroke_run:
  "tpc_ready ufd s \<Longrightarrow> wf_state st \<Longrightarrow> 9 \<le> length buf \<Longrightarrow> list_all on_wire ks \<Longrightarrow>
   answers w = concat (map (stroke_script mp) ks) @ later \<Longrightarrow>
   \<exists>l w'. input_run (length ks) ufd mp \<lparr>l_tablet = Some (T_serial s), l_buf = buf, l_state = st\<rparr> w = Some (l, w') \<and>
     answers w' = later \<and> sent ufd w' = sent ufd w @ concat (map event_bytes (concat (map (\<lambda>k. stroke_events mp (snd k)) ks)))"
proof (induction ks arbitrary: s st buf w)
  case (Cons k ks)
  have "answers w = stroke_script mp k @ (concat (map (stroke_script mp) ks) @ later)" "on_wire k" "list_all on_wire ks"
    using Cons.prems(4,5) by simp_all
  from stroke_step [OF Cons.prems(1-3) this(2,1)] obtain buf1 w1 where
    1: "input_step ufd mp \<lparr>l_tablet = Some (T_serial s), l_buf = buf, l_state = st\<rparr> w =
      Some (\<lparr>l_tablet = Some (T_serial (tpc_meaning (snd k) s)), l_buf = buf1, l_state = s_state (tpc_meaning (snd k) s)\<rparr>, w1)"
    "length buf1 = length buf" "answers w1 = concat (map (stroke_script mp) ks) @ later"
    "sent ufd w1 = sent ufd w @ concat (map event_bytes (stroke_events mp (snd k)))" by blast
  have "tpc_ready ufd (tpc_meaning (snd k) s)" using Cons.prems(1) by (rule tpc_ready_meaning)
  moreover from this have "wf_state (s_state (tpc_meaning (snd k) s))" by (simp add: tpc_ready_def)
  moreover have "9 \<le> length buf1" using Cons.prems(3) 1(2) by simp
  ultimately obtain l w' where
    "input_run (length ks) ufd mp \<lparr>l_tablet = Some (T_serial (tpc_meaning (snd k) s)), l_buf = buf1,
       l_state = s_state (tpc_meaning (snd k) s)\<rparr> w1 = Some (l, w')" "answers w' = later"
    "sent ufd w' = sent ufd w1 @ concat (map event_bytes (concat (map (\<lambda>k. stroke_events mp (snd k)) ks)))"
    using Cons.IH [OF _ _ _ \<open>list_all on_wire ks\<close> 1(3)] by blast
  then show ?case using 1(1,4) by simp
qed simp

section \<open>From the start of the program\<close>

text \<open>What the kernel answers while the program starts: the port is opened and is a terminal, the
  tablet PC is configured and started, the virtual device is created.\<close>

definition start_script :: "nat \<Rightarrow> nat \<Rightarrow> answer list" where
  "start_script tty ufd =
     [Gives tty [], Gives 1 []] @ tpc_script @ [Gives ufd []] @ replicate 6 ok @ [Gives 2000 [], ok]"

lemma default_model:
  "asks_tpc (zero_model\<lparr>uClass := WACOMCLASS_SERIAL,
     uDevice := fst (WacomGetDeviceFromName False (Some (o_devName default_options)) WACOMCLASS_SERIAL)\<rparr>)"
proof -
  have "fst (WacomGetDeviceFromName False (Some ''tpc'') WACOMCLASS_SERIAL) = WACOMDEVICE_TPC" by code_simp
  then show ?thesis by (simp add: default_options_def asks_tpc_def zero_model_def)
qed

lemma le16_length [simp]: "length (le16 x) = 2" and le32_length [simp]: "length (le32 y) = 4"
  by (simp_all add: le16_def le32_def)

lemma uidev_length: "length (uidev_for st) = 1116"
proof -
  have "length (concat (map (\<lambda>i. le32 (f i)) [0..<64])) = 256" for f
    by (simp add: length_concat comp_def sum_list_triv)
  then show ?thesis by (simp add: uidev_for_def uidev_bytes_def asc_def)
qed

lemma setup_served:
  assumes "answers w = [Gives ufd []] @ replicate 6 ok @ [Gives 2000 [], ok] @ later"
  shows "\<exists>w'. setup_uinput st w = (Some (int ufd), w') \<and> answers w' = later \<and> Sys_write (int ufd) (uidev_for st) (length (uidev_for st)) \<in> set (calls w')"
  using assms
  by (simp add: setup_uinput_def setup_requests_def sys_defs numeral_eq_Suc uidev_length sent_def)

text \<open>C10: From start to events. The daemon is started without options; the port is a terminal and
  the kernel accepts everything. Then it opens the tablet PC, creates a virtual device with the
  tablet's ranges (24576 by 18432, 256 levels of pressure), and from then on every packet of the
  tablet, in whatever pieces and after whatever garbage, becomes exactly its events at the virtual device,
  in order and none lost: position, pressure, touch when the pressure is above 20, and the end of
  report; or pressure 0 and no touch when the pen leaves.\<close>

theorem input_session:
  assumes "parse_args argv default_options = Args default_options"
    and "answers w = start_script tty ufd @ concat (map (stroke_script 20) ks) @ later"
    and "tty \<noteq> ufd" and "list_all on_wire ks"
  shows "\<exists>l w1 l' w2. wacom_input_start argv w = Some (Looping (int ufd) 20 l, w1) \<and>
    get_nMax WACOMFIELD_POSITION_X (l_state l) = 0x6000 \<and> get_nMax WACOMFIELD_POSITION_Y (l_state l) = 0x4800 \<and>
    get_nMax WACOMFIELD_PRESSURE (l_state l) = 255 \<and>
    Sys_write (int ufd) (uidev_for (l_state l)) (length (uidev_for (l_state l))) \<in> set (calls w1) \<and>
    input_run (length ks) (int ufd) 20 l w1 = Some (l', w2) \<and> answers w2 = later \<and>
    sent (int ufd) w2 = sent (int ufd) w1 @ concat (map event_bytes (concat (map (\<lambda>k. stroke_events 20 (snd k)) ks)))"
proof -
  define m where "m = zero_model\<lparr>uClass := WACOMCLASS_SERIAL,
     uDevice := fst (WacomGetDeviceFromName False (Some (o_devName default_options)) WACOMCLASS_SERIAL)\<rparr>"
  let ?strokes = "concat (map (stroke_script 20) ks) @ later"
  let ?t = "tpc_tablet (int tty) m"
  obtain v w0 where ww: "sys_open (o_devNode default_options) w = (int tty, v)" "sys_isatty (int tty) v = (True, w0)"
    "answers w0 = tpc_script @ [Gives ufd []] @ replicate 6 ok @ [Gives 2000 [], ok] @ ?strokes"
    using assms(2) by (simp add: start_script_def sys_defs)
  from open_tpc_served [OF default_model [folded m_def] ww(3), of "int tty"] obtain w1 where
    1: "WacomOpenSerialTablet (int tty) (Some m) w0 = Some (Some ?t, w1)"
    "answers w1 = [Gives ufd []] @ replicate 6 ok @ [Gives 2000 [], ok] @ ?strokes" by blast
  have cls: "uClass m = WACOMCLASS_SERIAL" by (simp add: m_def)
  have "WacomOpenTablet False (o_devNode default_options) (Some m) w = Some (Some (T_serial ?t), w1)"
    using ww(1,2) 1(1) by (simp add: WacomOpenTablet_def WacomIsSerial_def Let_def cls)
  moreover from setup_served [OF 1(2), of "s_state ?t"] obtain w2 where
    2: "setup_uinput (s_state ?t) w1 = (Some (int ufd), w2)" "answers w2 = ?strokes"
    "Sys_write (int ufd) (uidev_for (s_state ?t)) (length (uidev_for (s_state ?t))) \<in> set (calls w2)" by blast
  moreover have "WacomGetState (Some (T_serial ?t)) (Some WACOMSTATE_INIT) = Some (rc_ok, Some (s_state ?t))"
    by (simp add: WacomGetState_def SerialGetState_def WacomCopyState_eq)
  ultimately have start: "wacom_input_start argv w =
      Some (Looping (int ufd) 20 \<lparr>l_tablet = Some (T_serial ?t), l_buf = replicate 64 0, l_state = s_state ?t\<rparr>, w2)"
    using assms(1) by (simp add: wacom_input_start_def Let_def flip: m_def) (simp add: default_options_def)
  have "tpc_ready (int ufd) ?t" using assms(3) by (simp add: tpc_ready_def)
  from stroke_run [OF this _ _ assms(4) 2(2), of "s_state ?t" "replicate 64 0"] obtain l' w3 where
    "input_run (length ks) (int ufd) 20 \<lparr>l_tablet = Some (T_serial ?t), l_buf = replicate 64 0, l_state = s_state ?t\<rparr> w2 = Some (l', w3)"
    "answers w3 = later"
    "sent (int ufd) w3 = sent (int ufd) w2 @ concat (map event_bytes (concat (map (\<lambda>k. stroke_events 20 (snd k)) ks)))" by auto
  moreover have "get_nMax WACOMFIELD_POSITION_X (s_state ?t) = 0x6000" "get_nMax WACOMFIELD_POSITION_Y (s_state ?t) = 0x4800"
    "get_nMax WACOMFIELD_PRESSURE (s_state ?t) = 255"
    by (simp_all add: tpc_tablet_def new_serial_tablet_def)
  ultimately show ?thesis using start 2(3)
    by (intro exI [of _ "\<lparr>l_tablet = Some (T_serial ?t), l_buf = replicate 64 0, l_state = s_state ?t\<rparr>"] exI [of _ w2]
        exI [of _ l'] exI [of _ w3]) simp
qed

theorem input_session_witness:
  "\<exists>l w1 l' w2. wacom_input_start [''wacom-input''] (world0\<lparr>answers := start_script 3 4 @
        concat (map (stroke_script 20) [([[1, 2], tpc_encode (TPC_Pen 300 400 99 True False False)], TPC_Pen 300 400 99 True False False)]) @ []\<rparr>) =
      Some (Looping (int 4) 20 l, w1) \<and>
    input_run 1 (int 4) 20 l w1 = Some (l', w2) \<and> answers w2 = [] \<and>
    sent (int 4) w2 = sent (int 4) w1 @ concat (map event_bytes (stroke_events 20 (TPC_Pen 300 400 99 True False False)))"
proof -
  let ?p = "TPC_Pen 300 400 99 True False False"
  have "list_all on_wire [([[1, 2], tpc_encode ?p], ?p)]"
    by (auto simp del: tpc_encode.simps intro!: exI [of _ "[1, 2]"]) (simp_all add: and_exp_eq_0_iff_not_bit [of _ 7, simplified])
  from input_session [OF _ _ _ this, of "[''wacom-input'']" "world0\<lparr>answers := start_script 3 4 @
        concat (map (stroke_script 20) [([[1, 2], tpc_encode ?p], ?p)]) @ []\<rparr>" 3 4 "[]"] show ?thesis
    by (auto simp del: tpc_encode.simps stroke_events.simps)
qed

section \<open>Arguments\<close>

datatype option_arg = Opt_t string | Opt_d string | Opt_p string

fun render :: "option_arg \<Rightarrow> string list" where
  "render (Opt_t s) = [''-t'', s]"
| "render (Opt_d s) = [''-d'', s]"
| "render (Opt_p s) = [''-p'', s]"

fun valid_option :: "option_arg \<Rightarrow> bool" where
  "valid_option (Opt_t s) \<longleftrightarrow> s = [] \<or> hd s \<noteq> CHR ''-''"
| "valid_option (Opt_d s) \<longleftrightarrow> s = [] \<or> hd s \<noteq> CHR ''-''"
| "valid_option (Opt_p s) \<longleftrightarrow> (case atoi (asc s) of None \<Rightarrow> False | Some v \<Rightarrow> v \<noteq> 0)"

fun apply_option :: "option_arg \<Rightarrow> options \<Rightarrow> options" where
  "apply_option (Opt_t s) opt = opt\<lparr>o_devName := s\<rparr>"
| "apply_option (Opt_d s) opt = opt\<lparr>o_devNode := s\<rparr>"
| "apply_option (Opt_p s) opt = opt\<lparr>o_minPress := the (atoi (asc s))\<rparr>"

text \<open>C27: Arguments are read back as they were written. Any sequence of valid options after the program's
  name, in any order and repeated, gives the options applied in turn to the defaults, so the last of
  each kind wins.\<close>

theorem args_roundtrip:
  assumes "prog = [] \<or> hd prog \<noteq> CHR ''-''" and "list_all valid_option os"
  shows "parse_args (prog # concat (map render os)) default_options = Args (fold apply_option os default_options)"
proof -
  have "parse_args (concat (map render os)) opt = Args (fold apply_option os opt)" for opt
    using assms(2)
  proof (induction os arbitrary: opt)
    case (Cons a os)
    then show ?case by (cases a) (auto split: option.splits)
  qed simp
  then show ?thesis using assms(1) by auto
qed

theorem args_roundtrip_witness:
  "parse_args (''wacom-input'' # concat (map render [Opt_p ''35'', Opt_d ''/dev/ttyS1'', Opt_p ''40''])) default_options =
     Args (fold apply_option [Opt_p ''35'', Opt_d ''/dev/ttyS1'', Opt_p ''40''] default_options)"
proof (rule args_roundtrip)
  have "valid_option (Opt_p ''35'')" "valid_option (Opt_p ''40'')" by code_simp+
  then show "list_all valid_option [Opt_p ''35'', Opt_d ''/dev/ttyS1'', Opt_p ''40'']" by simp
qed simp

end
