(* ===== verification/Small_Tools.thy ===== *)
theory Small_Tools
  imports Wacom_Input
begin

text \<open>
  The two small programs beside the tablet daemon: \<^verbatim>\<open>tablet-mode/tablet-mode.c\<close>, which turns the
  tablet-mode switch of a convertible into a lid switch, and \<^verbatim>\<open>io_switch/io_switch.c\<close>, which writes one byte
  to an I/O port. Messages and the creation of log entries are left out.
\<close>

section \<open>tablet-mode: finding the switch\<close>

text \<open>
  The loop over the entries of \<open>/dev/input\<close>. An entry whose capabilities cannot be read stays open.
  The result is a descriptor or -1; \<open>None\<close> as the list of entries is a failed \<open>opendir\<close>.
\<close>

fun openfd_loop :: "string list \<Rightarrow> world \<Rightarrow> int \<times> world" where
  "openfd_loop [] w = (-1, w)"
| "openfd_loop (d_name # entries) w =
     (if d_name = [] \<or> hd d_name \<noteq> CHR ''e'' then openfd_loop entries w
      else (let (fd, w1) = sys_open (''/dev/input/'' @ d_name) w
            in if fd < 0 then openfd_loop entries w1
               else (let (r, caps, w2) = sys_ioctl fd (EVIOCGBIT (unat EV_SW) (sizeof_bits 2)) w1
                     in if r < 1 then openfd_loop entries w2
                        else if is_bit_set (take (sizeof_bits 2) caps) SW_TABLET_MODE then (fd, w2)
                        else openfd_loop entries (sys_close fd w2))))"

definition openfd :: "string list option \<Rightarrow> world \<Rightarrow> int \<times> world" where
  "openfd dir w = (case dir of None \<Rightarrow> (-1, w) | Some entries \<Rightarrow> openfd_loop entries w)"

section \<open>tablet-mode: passing it on\<close>

definition send_switch :: "int \<Rightarrow> s32 \<Rightarrow> world \<Rightarrow> world" where
  "send_switch ufd state w =
     (let w1 = snd (sys_write ufd (event_bytes (event EV_SW SW_LID (if state \<noteq> 0 then 1 else 0))) w)
      in snd (sys_write ufd (event_bytes (event EV_SYN SYN_REPORT 0)) w1))"

text \<open>
  One pass of the loop. The result of \<open>read\<close> is compared as a \<open>size_t\<close>, so a failed read, -1,
  counts as enough data and the event that is then looked at was never stored: \<open>None\<close>.
\<close>

definition mode_step :: "int \<Rightarrow> int \<Rightarrow> world \<Rightarrow> world option" where
  "mode_step ifd ufd w =
     (let (res, d, w1) = sys_read ifd sizeof_input_event w
      in if res < 0 then None
         else if res < int sizeof_input_event then Some w1
         else (let iev = event_at d
               in Some (if ev_type iev = EV_SW \<and> ev_code iev = SW_TABLET_MODE then send_switch ufd (ev_value iev) w1 else w1)))"

fun mode_run :: "nat \<Rightarrow> int \<Rightarrow> int \<Rightarrow> world \<Rightarrow> world option" where
  "mode_run 0 ifd ufd w = Some w"
| "mode_run (Suc n) ifd ufd w = do { w1 \<leftarrow> mode_step ifd ufd w; mode_run n ifd ufd w1 }"

text \<open>The start: the descriptors of the switch and of the virtual device, or \<open>None\<close> for \<open>return -1\<close>.\<close>

definition mode_start :: "string list option \<Rightarrow> world \<Rightarrow> (int \<times> int) option \<times> world" where
  "mode_start dir w =
     (let (ifd, w1) = openfd dir w
      in if ifd < 0 then (None, w1)
         else
           (let w2 = sys_usleep 10000000 w1;
                (ufd, w3) = sys_open ''/dev/uinput'' w2
            in if ufd < 0 then (None, w3)
               else
                 (let w4 = snd (sys_write ufd (uidev_bytes ''Android Tablet Lid Switch'' 0 0 0 0 (\<lambda>_. 0) (\<lambda>_. 0)) w3);
                      w5 = snd (snd (sys_ioctl ufd (UI_SET_EVBIT (unat EV_SW)) w4));
                      w6 = snd (snd (sys_ioctl ufd (UI_SET_SWBIT (unat SW_LID)) w5));
                      w7 = snd (snd (sys_ioctl ufd UI_DEV_CREATE w6));
                      (r, sw_state, w8) = sys_ioctl ifd (EVIOCGSW (sizeof_bits 2)) w7;
                      w9 = (if 0 \<le> r then send_switch ufd (of_bool (is_bit_set (take (sizeof_bits 2) sw_state) SW_TABLET_MODE)) w8 else w8)
                  in (Some (ifd, ufd), w9))))"

section \<open>io_switch\<close>

definition hex_digit :: "u8 \<Rightarrow> nat option" where
  "hex_digit b =
     (if 48 \<le> b \<and> b \<le> 57 then Some (unat b - 48) else if 97 \<le> b \<and> b \<le> 102 then Some (unat b - 87)
      else if 65 \<le> b \<and> b \<le> 70 then Some (unat b - 55) else None)"

definition hex_value :: "u8 list \<Rightarrow> nat" where
  "hex_value ds = foldl (\<lambda>v d. v * 16 + the (hex_digit d)) 0 ds"

text \<open>
  \<open>%x\<close> into an object of \<open>n\<close> bits: white space, a sign, a prefix \<open>0x\<close>, then at least one digit. A
  value that does not fit makes the behaviour undefined, as for \<open>%d\<close>.
\<close>

datatype hex_scan = Hex_fail | Hex_UB | Hex_ok bool nat

definition scan_x :: "nat \<Rightarrow> u8 list \<Rightarrow> hex_scan" where
  "scan_x n s =
     (let (neg, s2) = scan_sign (dropWhile isspace s);
          s3 = (case s2 of a # b # r \<Rightarrow> if a = 48 \<and> (b = 0x78 \<or> b = 0x58) then r else s2 | _ \<Rightarrow> s2);
          ds = takeWhile (\<lambda>b. hex_digit b \<noteq> None) s3
      in if ds = [] then Hex_fail else if 2 ^ n \<le> hex_value ds then Hex_UB else Hex_ok neg (hex_value ds))"

definition scan_0x :: "nat \<Rightarrow> u8 list \<Rightarrow> hex_scan" where
  "scan_0x n s = (case s of a # b # r \<Rightarrow> if a = 48 \<and> b = 0x78 then scan_x n r else Hex_fail | _ \<Rightarrow> Hex_fail)"

text \<open>
  The exit code and the calls; \<open>None\<close> is undefined behaviour: a number that does not fit, or the sum
  of the address and the shift beyond an \<open>int\<close>. The value added to wraps around in a \<open>char\<close>.
\<close>

definition io_switch_main :: "string list \<Rightarrow> world \<Rightarrow> (int \<times> world) option" where
  "io_switch_main argv w =
     (if length argv < 3 then Some (255, w)
      else (case scan_0x 32 (asc (argv ! 1)) of
              Hex_fail \<Rightarrow> Some (255, w)
            | Hex_UB \<Rightarrow> None
            | Hex_ok neg_a a \<Rightarrow>
                (case scan_0x 8 (asc (argv ! 2)) of
                   Hex_fail \<Rightarrow> Some (255, w)
                 | Hex_UB \<Rightarrow> None
                 | Hex_ok neg_v v \<Rightarrow>
                     (let addr = (if neg_a then - of_nat a else of_nat a :: s32);
                          val = (if neg_v then - of_nat v else of_nat v :: u8);
                          (fd, w1) = sys_open ''/dev/port'' w
                      in if fd < 0 then Some (1, w1)
                         else if 2 ^ 31 \<le> sint addr + 0x68 then None
                         else
                           (let w2 = snd (sys_number (Sys_lseek fd (sint addr + 0x68)) w1);
                                w3 = snd (sys_write fd [val + 0x62] w2)
                            in Some (0, sys_close fd w3))))))"

section \<open>The lid follows the tablet mode\<close>

text \<open>The events an event of the switch is turned into.\<close>

definition lid_events :: "input_event \<Rightarrow> input_event list" where
  "lid_events ev =
     (if ev_type ev = EV_SW \<and> ev_code ev = SW_TABLET_MODE
      then [event EV_SW SW_LID (if ev_value ev \<noteq> 0 then 1 else 0), event EV_SYN SYN_REPORT 0] else [])"

definition mode_script :: "input_event \<Rightarrow> answer list" where
  "mode_script ev = Gives 24 (event_bytes ev) # replicate (length (lid_events ev)) takes_all"

lemma send_switch_served:
  assumes "answers w = takes_all # takes_all # later"
  shows "answers (send_switch fd v w) = later"
    and "sent fd (send_switch fd v w) = sent fd w @ event_bytes (event EV_SW SW_LID (if v \<noteq> 0 then 1 else 0)) @ event_bytes (event EV_SYN SYN_REPORT 0)"
proof -
  define w1 where "w1 = snd (sys_write fd (event_bytes (event EV_SW SW_LID (if v \<noteq> 0 then 1 else 0))) w)"
  have w1: "answers w1 = takes_all # later" "sent fd w1 = sent fd w @ event_bytes (event EV_SW SW_LID (if v \<noteq> 0 then 1 else 0))"
    using sys_write_serve [OF assms, of fd] by (simp_all add: w1_def sent_def)
  have "send_switch fd v w = snd (sys_write fd (event_bytes (event EV_SYN SYN_REPORT 0)) w1)"
    by (simp add: send_switch_def w1_def Let_def)
  with sys_write_serve [OF w1(1), of fd "event_bytes (event EV_SYN SYN_REPORT 0)"] w1(2)
  show "answers (send_switch fd v w) = later"
    and "sent fd (send_switch fd v w) = sent fd w @ event_bytes (event EV_SW SW_LID (if v \<noteq> 0 then 1 else 0)) @ event_bytes (event EV_SYN SYN_REPORT 0)"
    by (simp_all add: sent_def)
qed

lemma mode_step_served:
  assumes "answers w = mode_script ev @ later"
  shows "\<exists>w'. mode_step ifd ufd w = Some w' \<and> answers w' = later \<and> sent ufd w' = sent ufd w @ concat (map event_bytes (lid_events ev))"
proof -
  define w1 where "w1 = log_call (Sys_read ifd sizeof_input_event (event_bytes ev)) (w\<lparr>answers := replicate (length (lid_events ev)) takes_all @ later\<rparr>)"
  have r: "sys_read ifd sizeof_input_event w = (int sizeof_input_event, event_bytes ev, w1)"
    using assms by (simp add: mode_script_def sys_read_serve w1_def)
  have w1: "answers w1 = replicate (length (lid_events ev)) takes_all @ later" "sent ufd w1 = sent ufd w"
    by (simp_all add: w1_def sent_def)
  show ?thesis
  proof (cases "ev_type ev = EV_SW \<and> ev_code ev = SW_TABLET_MODE")
    case True
    then have "answers w1 = takes_all # takes_all # later" using w1(1) by (simp add: lid_events_def)
    from send_switch_served [OF this, of ufd "ev_value ev"] show ?thesis
      using r w1(2) True by (simp add: mode_step_def lid_events_def)
  next
    case False
    then have "mode_step ifd ufd w = Some w1" using r by (auto simp: mode_step_def Let_def)
    moreover have "lid_events ev = []" using False by (auto simp: lid_events_def)
    ultimately show ?thesis using w1 by simp
  qed
qed

text \<open>C28: The lid follows the tablet mode. Whatever events the switch device sends, as long as reading
  succeeds, the virtual device gets, for each change of the tablet-mode switch and for nothing else,
  the lid switch set to whether the value is not 0, and an end of report, in order.\<close>

theorem lid_follows_tablet_mode:
  assumes "answers w = concat (map mode_script evs) @ later"
  shows "\<exists>w'. mode_run (length evs) ifd ufd w = Some w' \<and> answers w' = later \<and>
    sent ufd w' = sent ufd w @ concat (map event_bytes (concat (map lid_events evs)))"
  using assms
proof (induction evs arbitrary: w)
  case (Cons ev evs)
  then have "answers w = mode_script ev @ (concat (map mode_script evs) @ later)" by simp
  from mode_step_served [OF this, of ifd ufd] obtain w1 where
    1: "mode_step ifd ufd w = Some w1" "answers w1 = concat (map mode_script evs) @ later"
      "sent ufd w1 = sent ufd w @ concat (map event_bytes (lid_events ev))" by blast
  from Cons.IH [OF 1(2)] 1(1,3) show ?case by auto
qed simp

theorem lid_follows_tablet_mode_witness:
  "\<exists>w'. mode_run (length [event EV_SW SW_TABLET_MODE 5, event EV_KEY BTN_0 1]) 3 4 (world0\<lparr>answers :=
        concat (map mode_script [event EV_SW SW_TABLET_MODE 5, event EV_KEY BTN_0 1]) @ []\<rparr>) = Some w' \<and> answers w' = [] \<and>
    sent 4 w' = sent 4 (world0\<lparr>answers := concat (map mode_script [event EV_SW SW_TABLET_MODE 5, event EV_KEY BTN_0 1]) @ []\<rparr>) @
      concat (map event_bytes (concat (map lid_events [event EV_SW SW_TABLET_MODE 5, event EV_KEY BTN_0 1])))"
  by (rule lid_follows_tablet_mode) simp

section \<open>io_switch writes what it is told to\<close>

text \<open>A number as \<open>printf ("%x")\<close> prints it.\<close>

fun hex_text :: "nat \<Rightarrow> string" where
  "hex_text n = (if n < 16 then [''0123456789abcdef'' ! n] else hex_text (n div 16) @ [''0123456789abcdef'' ! (n mod 16)])"

declare hex_text.simps [simp del]

lemma hex_digit_char: "n < 16 \<Longrightarrow> hex_digit (of_char (''0123456789abcdef'' ! n)) = Some n"
proof -
  have "\<forall>n \<in> set [0..<16]. hex_digit (of_char (''0123456789abcdef'' ! n)) = Some n" by code_simp
  then show "n < 16 \<Longrightarrow> hex_digit (of_char (''0123456789abcdef'' ! n)) = Some n" by simp
qed

lemma hex_text_digits: "list_all (\<lambda>b. hex_digit b \<noteq> None) (asc (hex_text n))"
proof (induction n rule: hex_text.induct)
  case (1 n)
  then show ?case
    using hex_digit_char [of n] hex_digit_char [of "n mod 16"] by (cases "n < 16") (simp_all add: hex_text.simps [of n])
qed

lemma hex_value_text: "hex_value (asc (hex_text n)) = n"
proof (induction n rule: hex_text.induct)
  case (1 n)
  then show ?case
    using hex_digit_char [of n] hex_digit_char [of "n mod 16"]
    by (cases "n < 16") (simp_all add: hex_text.simps [of n] hex_value_def)
qed

lemma hex_digit_head: "hex_digit b \<noteq> None \<Longrightarrow> \<not> isspace b \<and> b \<noteq> 0x2D \<and> b \<noteq> 0x2B \<and> b \<noteq> 0x78 \<and> b \<noteq> 0x58"
  by (auto simp: hex_digit_def isspace_def word_le_nat_alt split: if_splits)

lemma scan_x_text: "n < 2 ^ k \<Longrightarrow> scan_x k (asc (hex_text n)) = Hex_ok False n"
proof -
  assume n: "n < 2 ^ k"
  define ds where "ds = asc (hex_text n)"
  have d: "list_all (\<lambda>b. hex_digit b \<noteq> None) ds" "hex_value ds = n"
    using hex_text_digits hex_value_text by (simp_all add: ds_def)
  have "ds \<noteq> []" by (subst ds_def, subst hex_text.simps) simp
  then obtain b r where b: "ds = b # r" by (cases ds) auto
  have h: "dropWhile isspace ds = ds" "scan_sign ds = (False, ds)"
    using d(1) hex_digit_head [of b] by (simp_all add: b scan_sign_def)
  have x: "(case ds of a # c # q \<Rightarrow> if a = 48 \<and> (c = 0x78 \<or> c = 0x58) then q else ds | _ \<Rightarrow> ds) = ds"
    using d(1) by (auto simp: b hex_digit_def split: list.split if_splits)
  have t: "takeWhile (\<lambda>b. hex_digit b \<noteq> None) ds = ds"
    using d(1) by (simp add: takeWhile_eq_all_conv list_all_iff)
  show "scan_x k (asc (hex_text n)) = Hex_ok False n"
    unfolding scan_x_def ds_def [symmetric] h Let_def prod.case x t using \<open>ds \<noteq> []\<close> d(2) n by simp
qed

lemma scan_0x_text: "n < 2 ^ k \<Longrightarrow> scan_0x k (asc (''0x'' @ hex_text n)) = Hex_ok False n"
  using scan_x_text [of n k] by (simp add: scan_0x_def)

text \<open>C29: The port and the value are the numbers of the command line. Given an address and a byte in
  hexadecimal, \<open>io_switch\<close> opens the ports, seeks to the address plus 0x68, writes the one byte that is the
  value plus 0x62, wrapping around, closes the ports and returns 0.\<close>

theorem io_switch_writes:
  assumes "a + 0x68 < 2 ^ 31" and "v < 2 ^ 8" and "answers w = Gives fd [] # Gives pos [] # takes_all # later"
  shows "\<exists>w'. io_switch_main [prog, ''0x'' @ hex_text a, ''0x'' @ hex_text v] w = Some (0, w') \<and> answers w' = later \<and>
    calls w' = calls w @ [Sys_open ''/dev/port'', Sys_lseek (int fd) (int (a + 0x68)),
      Sys_write (int fd) [of_nat v + 0x62] 1, Sys_close (int fd)]"
proof -
  have s: "scan_0x 32 (asc (''0x'' @ hex_text a)) = Hex_ok False a" "scan_0x 8 (asc (''0x'' @ hex_text v)) = Hex_ok False v"
    using assms(1,2) by (auto intro!: scan_0x_text simp del: asc_simps append_Cons)
  have a: "sint (of_nat a :: s32) = int a"
    using assms(1) by (simp add: signed_of_nat signed_take_bit_int_eq_self)
  show ?thesis
    using assms s a
    by (simp add: io_switch_main_def del: asc_simps append_Cons) (simp add: sys_defs)
qed

theorem io_switch_writes_witness:
  "\<exists>w'. io_switch_main [''io_switch'', ''0x'' @ hex_text 0x600, ''0x'' @ hex_text 255]
      (world0\<lparr>answers := [Gives 3 [], Gives 0x668 [], takes_all]\<rparr>) = Some (0, w') \<and> answers w' = [] \<and>
    calls w' = calls (world0\<lparr>answers := [Gives 3 [], Gives 0x668 [], takes_all]\<rparr>) @
      [Sys_open ''/dev/port'', Sys_lseek (int 3) (int (0x600 + 0x68)), Sys_write (int 3) [of_nat 255 + 0x62] 1, Sys_close (int 3)]"
  by (rule io_switch_writes) simp_all

end
