(* ===== verification/Dhcp_Message.thy ===== *)
theory Dhcp_Message
  imports CLib
begin

text \<open>
  DHCP messages: \<^verbatim>\<open>dhcp_recovery/common/message.cpp\<close>, \<^verbatim>\<open>message.h\<close> and \<^verbatim>\<open>dhcp.h\<close>. The
  structure \<open>Dhcp\<close> is a record; the code also reads and writes it as an array of bytes, which are
  \<open>dhcp_bytes\<close> and \<open>dhcp_at\<close> on a little-endian machine. Addresses and the other fields that
  travel in network order are kept as they lie in memory. \<open>None\<close> is an access outside the structure.
  The static counter of transaction ids is an argument, and is returned incremented.
\<close>

section \<open>Constants\<close>

abbreviation (input) PORT_BOOTP_SERVER :: u16 where "PORT_BOOTP_SERVER \<equiv> 67"
abbreviation (input) PORT_BOOTP_CLIENT :: u16 where "PORT_BOOTP_CLIENT \<equiv> 68"
abbreviation (input) OP_BOOTREQUEST :: u8 where "OP_BOOTREQUEST \<equiv> 1"
abbreviation (input) OP_BOOTREPLY :: u8 where "OP_BOOTREPLY \<equiv> 2"
abbreviation (input) FLAGS_BROADCAST :: u16 where "FLAGS_BROADCAST \<equiv> 0x8000"
abbreviation (input) HTYPE_ETHER :: u8 where "HTYPE_ETHER \<equiv> 1"
abbreviation (input) ETH_ALEN :: nat where "ETH_ALEN \<equiv> 6"

abbreviation (input) OPT_PAD :: u8 where "OPT_PAD \<equiv> 0"
abbreviation (input) OPT_SUBNET_MASK :: u8 where "OPT_SUBNET_MASK \<equiv> 1"
abbreviation (input) OPT_GATEWAY :: u8 where "OPT_GATEWAY \<equiv> 3"
abbreviation (input) OPT_DNS :: u8 where "OPT_DNS \<equiv> 6"
abbreviation (input) OPT_MTU :: u8 where "OPT_MTU \<equiv> 26"
abbreviation (input) OPT_BROADCAST_ADDR :: u8 where "OPT_BROADCAST_ADDR \<equiv> 28"
abbreviation (input) OPT_REQUESTED_IP :: u8 where "OPT_REQUESTED_IP \<equiv> 50"
abbreviation (input) OPT_LEASE_TIME :: u8 where "OPT_LEASE_TIME \<equiv> 51"
abbreviation (input) OPT_MESSAGE_TYPE :: u8 where "OPT_MESSAGE_TYPE \<equiv> 53"
abbreviation (input) OPT_SERVER_ID :: u8 where "OPT_SERVER_ID \<equiv> 54"
abbreviation (input) OPT_PARAMETER_LIST :: u8 where "OPT_PARAMETER_LIST \<equiv> 55"
abbreviation (input) OPT_T1 :: u8 where "OPT_T1 \<equiv> 58"
abbreviation (input) OPT_T2 :: u8 where "OPT_T2 \<equiv> 59"
abbreviation (input) OPT_END :: u8 where "OPT_END \<equiv> 255"

abbreviation (input) DHCPDISCOVER :: u8 where "DHCPDISCOVER \<equiv> 1"
abbreviation (input) DHCPOFFER :: u8 where "DHCPOFFER \<equiv> 2"
abbreviation (input) DHCPREQUEST :: u8 where "DHCPREQUEST \<equiv> 3"
abbreviation (input) DHCPACK :: u8 where "DHCPACK \<equiv> 5"
abbreviation (input) DHCPNAK :: u8 where "DHCPNAK \<equiv> 6"

definition DHCP_COOKIE :: "u8 list" where "DHCP_COOKIE = [0x63, 0x82, 0x53, 0x63]"

definition kDefaultLeaseTime :: u32 where "kDefaultLeaseTime = 10 * 60"

definition kRequestParameters :: "u8 list" where
  "kRequestParameters = [OPT_SUBNET_MASK, OPT_GATEWAY, OPT_DNS, OPT_BROADCAST_ADDR, OPT_LEASE_TIME, OPT_T1, OPT_T2, OPT_MTU]"

section \<open>Network order\<close>

text \<open>\<open>htons\<close> and \<open>htonl\<close> reverse the bytes; so do \<open>ntohs\<close> and \<open>ntohl\<close>.\<close>

definition htons :: "u16 \<Rightarrow> u16" where
  "htons x = get16 (rev (le16 x)) 0"

definition htonl :: "u32 \<Rightarrow> u32" where
  "htonl x = get32 (rev (le32 x)) 0"

lemma htons_htons [simp]: "htons (htons x) = x"
  by (rule word_eq_bits) (simp add: htons_def le16_def get16_def bitwise upt_16)

lemma htonl_htonl [simp]: "htonl (htonl x) = x"
  by (rule word_eq_bits) (simp add: htonl_def le32_def get32_def bitwise)

lemma hton_eq_iff [simp]: "htons x = htons y \<longleftrightarrow> x = y" "htonl a = htonl b \<longleftrightarrow> a = b"
  by (metis htons_htons) (metis htonl_htonl)

section \<open>The structure\<close>

record Dhcp =
  d_op :: u8
  d_htype :: u8
  d_hlen :: u8
  d_hops :: u8
  d_xid :: u32
  d_secs :: u16
  d_flags :: u16
  d_ciaddr :: u32
  d_yiaddr :: u32
  d_siaddr :: u32
  d_giaddr :: u32
  d_chaddr :: "u8 list"
  d_sname :: "u8 list"
  d_file :: "u8 list"
  d_options :: "u8 list"

record Message =
  dhcpData :: Dhcp
  mSize :: nat

abbreviation (input) options_offset :: nat where "options_offset \<equiv> 236"
abbreviation (input) sizeof_options :: nat where "sizeof_options \<equiv> 1024"
abbreviation (input) sizeof_dhcp :: nat where "sizeof_dhcp \<equiv> 1260"

definition zero_dhcp :: Dhcp where
  "zero_dhcp = \<lparr>d_op = 0, d_htype = 0, d_hlen = 0, d_hops = 0, d_xid = 0, d_secs = 0, d_flags = 0, d_ciaddr = 0,
     d_yiaddr = 0, d_siaddr = 0, d_giaddr = 0, d_chaddr = replicate 16 0, d_sname = replicate 64 0,
     d_file = replicate 128 0, d_options = replicate sizeof_options 0\<rparr>"

definition wf_dhcp :: "Dhcp \<Rightarrow> bool" where
  "wf_dhcp d \<longleftrightarrow> length (d_chaddr d) = 16 \<and> length (d_sname d) = 64 \<and> length (d_file d) = 128 \<and>
     length (d_options d) = sizeof_options"

definition dhcp_bytes :: "Dhcp \<Rightarrow> u8 list" where
  "dhcp_bytes d = [d_op d, d_htype d, d_hlen d, d_hops d] @ le32 (d_xid d) @ le16 (d_secs d) @ le16 (d_flags d)
     @ le32 (d_ciaddr d) @ le32 (d_yiaddr d) @ le32 (d_siaddr d) @ le32 (d_giaddr d)
     @ d_chaddr d @ d_sname d @ d_file d @ d_options d"

definition dhcp_at :: "u8 list \<Rightarrow> Dhcp" where
  "dhcp_at b = \<lparr>d_op = b ! 0, d_htype = b ! 1, d_hlen = b ! 2, d_hops = b ! 3, d_xid = get32 b 4, d_secs = get16 b 8,
     d_flags = get16 b 10, d_ciaddr = get32 b 12, d_yiaddr = get32 b 16, d_siaddr = get32 b 20, d_giaddr = get32 b 24,
     d_chaddr = take 16 (drop 28 b), d_sname = take 64 (drop 44 b), d_file = take 128 (drop 108 b),
     d_options = take sizeof_options (drop options_offset b)\<rparr>"

section \<open>Building messages\<close>

text \<open>The default constructor.\<close>

definition Message_empty :: Message where
  "Message_empty = \<lparr>dhcpData = zero_dhcp, mSize = 0\<rparr>"

text \<open>From bytes; what follows them in the structure is not initialised, and is \<open>junk\<close>.\<close>

definition Message_from :: "u8 list \<Rightarrow> u8 list \<Rightarrow> Message" where
  "Message_from junk data =
     (if length data \<le> sizeof_dhcp
      then \<lparr>dhcpData = dhcp_at (data @ drop (length data) junk), mSize = length data\<rparr> else Message_empty)"

text \<open>Stores \<open>bs\<close> at \<open>nextOption()\<close> and updates the size.\<close>

definition put_bytes :: "u8 list \<Rightarrow> Message \<Rightarrow> Message option" where
  "put_bytes bs m = do {
     b \<leftarrow> buf_write (dhcp_bytes (dhcpData m)) (mSize m) bs;
     Some \<lparr>dhcpData = dhcp_at b, mSize = mSize m + length bs\<rparr>
   }"

definition addOption :: "u8 \<Rightarrow> u8 list \<Rightarrow> u8 \<Rightarrow> Message \<Rightarrow> Message option" where
  "addOption typ data sz m =
     (if length data < unat sz then None else put_bytes (typ # sz # take (unat sz) data) m)"

text \<open>The two templates: one value, and an array of bytes whose length is checked when compiled.\<close>

definition addOption_addr :: "u8 \<Rightarrow> u32 \<Rightarrow> Message \<Rightarrow> Message option" where
  "addOption_addr typ data m = addOption typ (le32 data) 4 m"

definition addOption_items :: "u8 \<Rightarrow> u8 list \<Rightarrow> Message \<Rightarrow> Message option" where
  "addOption_items typ items m = put_bytes (typ # of_nat (length items) # items) m"

definition endOptions :: "Message \<Rightarrow> Message option" where
  "endOptions m = put_bytes [OPT_END] m"

text \<open>The private constructor.\<close>

definition Message_new :: "u8 \<Rightarrow> u8 list \<Rightarrow> u8 \<Rightarrow> u32 \<Rightarrow> Message \<times> u32" where
  "Message_new operation macAddress typ xid =
     (\<lparr>dhcpData = zero_dhcp\<lparr>d_op := operation, d_htype := HTYPE_ETHER, d_hlen := 6, d_hops := 0,
         d_flags := htons FLAGS_BROADCAST, d_xid := htonl xid, d_chaddr := take ETH_ALEN macAddress @ replicate 10 0,
         d_options := DHCP_COOKIE @ [OPT_MESSAGE_TYPE, 1, typ] @ replicate 1017 0\<rparr>,
       mSize = options_offset + 7\<rparr>, xid + 1)"

definition discover :: "u8 list \<Rightarrow> u32 \<Rightarrow> (Message \<times> u32) option" where
  "discover sourceMac xid = do {
     let (m, xid') = Message_new OP_BOOTREQUEST sourceMac DHCPDISCOVER xid;
     m1 \<leftarrow> addOption_items OPT_PARAMETER_LIST kRequestParameters m;
     m2 \<leftarrow> endOptions m1;
     Some (m2, xid')
   }"

definition request :: "u8 list \<Rightarrow> u32 \<Rightarrow> u32 \<Rightarrow> u32 \<Rightarrow> (Message \<times> u32) option" where
  "request sourceMac requestAddress serverAddress xid = do {
     let (m, xid') = Message_new OP_BOOTREQUEST sourceMac DHCPREQUEST xid;
     m1 \<leftarrow> addOption_items OPT_PARAMETER_LIST kRequestParameters m;
     m2 \<leftarrow> addOption_addr OPT_REQUESTED_IP requestAddress m1;
     m3 \<leftarrow> addOption_addr OPT_SERVER_ID serverAddress m2;
     m4 \<leftarrow> endOptions m3;
     Some (m4, xid')
   }"

text \<open>\<open>offer\<close> and \<open>ack\<close> differ in the type. The length of the list of servers is cut to a byte.\<close>

definition lease_reply :: "u8 \<Rightarrow> Message \<Rightarrow> u32 \<Rightarrow> u32 \<Rightarrow> u32 \<Rightarrow> u32 \<Rightarrow> u32 list \<Rightarrow> nat \<Rightarrow> u32 \<Rightarrow> (Message \<times> u32) option" where
  "lease_reply typ src serverAddress offeredAddress offeredNetmask offeredGateway dnsServers numDns xid = do {
     let (m, xid') = Message_new OP_BOOTREPLY (take ETH_ALEN (d_chaddr (dhcpData src))) typ xid;
     let m0 = m\<lparr>dhcpData := (dhcpData m)\<lparr>d_xid := d_xid (dhcpData src), d_flags := d_flags (dhcpData src),
                 d_yiaddr := offeredAddress, d_giaddr := d_giaddr (dhcpData src)\<rparr>\<rparr>;
     m1 \<leftarrow> addOption_addr OPT_SERVER_ID serverAddress m0;
     m2 \<leftarrow> addOption_addr OPT_LEASE_TIME kDefaultLeaseTime m1;
     m3 \<leftarrow> addOption_addr OPT_SUBNET_MASK offeredNetmask m2;
     m4 \<leftarrow> addOption_addr OPT_GATEWAY offeredGateway m3;
     m5 \<leftarrow> addOption OPT_DNS (concat (map le32 dnsServers)) (of_nat (numDns * 4)) m4;
     m6 \<leftarrow> endOptions m5;
     Some (m6, xid')
   }"

definition offer where "offer = lease_reply DHCPOFFER"

definition ack where "ack = lease_reply DHCPACK"

definition nack :: "Message \<Rightarrow> u32 \<Rightarrow> u32 \<Rightarrow> (Message \<times> u32) option" where
  "nack src serverAddress xid = do {
     let (m, xid') = Message_new OP_BOOTREPLY (take ETH_ALEN (d_chaddr (dhcpData src))) DHCPNAK xid;
     let m0 = m\<lparr>dhcpData := (dhcpData m)\<lparr>d_xid := d_xid (dhcpData src), d_flags := d_flags (dhcpData src),
                 d_giaddr := d_giaddr (dhcpData src)\<rparr>\<rparr>;
     m1 \<leftarrow> addOption_addr OPT_SERVER_ID serverAddress m0;
     m2 \<leftarrow> endOptions m1;
     Some (m2, xid')
   }"

section \<open>Reading messages\<close>

definition isValidDhcpMessage_op :: "u8 \<Rightarrow> Message \<Rightarrow> bool" where
  "isValidDhcpMessage_op expectedOp m \<longleftrightarrow>
     \<not> mSize m < options_offset + 4 \<and> d_op (dhcpData m) = expectedOp \<and> d_htype (dhcpData m) = HTYPE_ETHER \<and>
     d_hlen (dhcpData m) = 6 \<and> take 4 (d_options (dhcpData m)) = DHCP_COOKIE"

definition isValidDhcpMessage :: "u8 \<Rightarrow> u32 \<Rightarrow> Message \<Rightarrow> bool" where
  "isValidDhcpMessage expectedOp expectedXid m \<longleftrightarrow>
     isValidDhcpMessage_op expectedOp m \<and> d_xid (dhcpData m) = expectedXid"

definition optionsSize :: "Message \<Rightarrow> nat" where
  "optionsSize m = mSize m - options_offset"

text \<open>
  The search for an option: the position of its data in the options and its length, or \<open>None\<close> inside
  for a null pointer.
\<close>

function find_option :: "u8 \<Rightarrow> u8 list \<Rightarrow> nat \<Rightarrow> nat \<Rightarrow> (nat \<times> u8) option option" where
  "find_option code opts optsSize i =
     (if i + 2 < optsSize then
        if length opts \<le> i + 1 then None
        else if opts ! i = OPT_END then Some None
        else if opts ! i = code then Some (Some (i + 2, opts ! (i + 1)))
        else find_option code opts optsSize (i + 2 + unat (opts ! (i + 1)))
      else Some None)"
  by pat_completeness auto

termination
  by (relation "measure (\<lambda>(code, opts, optsSize, i). optsSize - i)") auto

declare find_option.simps [simp del]

definition getOption :: "u8 \<Rightarrow> Message \<Rightarrow> (nat \<times> u8) option option" where
  "getOption code m = find_option code (d_options (dhcpData m)) (optionsSize m) 4"

text \<open>The bytes behind a pointer into the options.\<close>

definition opt_byte :: "Message \<Rightarrow> nat \<Rightarrow> u8 option" where
  "opt_byte m i = (if i < length (d_options (dhcpData m)) then Some (d_options (dhcpData m) ! i) else None)"

definition opt_word :: "Message \<Rightarrow> nat \<Rightarrow> u32 option" where
  "opt_word m i = (if i + 4 \<le> length (d_options (dhcpData m)) then Some (get32 (d_options (dhcpData m)) i) else None)"

definition message_type :: "Message \<Rightarrow> u8 option" where
  "message_type m = do {
     r \<leftarrow> getOption OPT_MESSAGE_TYPE m;
     (case r of Some (i, l) \<Rightarrow> if l = 1 then opt_byte m i else Some 0 | None \<Rightarrow> Some 0)
   }"

definition address_option :: "u8 \<Rightarrow> Message \<Rightarrow> u32 option" where
  "address_option code m = do {
     r \<leftarrow> getOption code m;
     (case r of Some (i, l) \<Rightarrow> if l = 4 then opt_word m i else Some 0 | None \<Rightarrow> Some 0)
   }"

definition serverId :: "Message \<Rightarrow> u32 option" where
  "serverId m = address_option OPT_SERVER_ID m"

definition requestedIp :: "Message \<Rightarrow> u32 option" where
  "requestedIp m = address_option OPT_REQUESTED_IP m"

end
