(* ===== verification/Net_World.thy ===== *)
theory Net_World
  imports Dhcp_Message
begin

text \<open>
  What the DHCP client of \<^verbatim>\<open>dhcp_recovery\<close> asks of the system: sockets, interface requests, properties,
  the clock, random numbers and waiting. As for the tablets, the answers are a parameter of the
  model, in the order of the calls, and the calls are recorded; a world without answers fails every call,
  and a wait in it times out. Assumed of the system, as documented: a transfer gives at most what
  was asked for, the monotonic clock does not go back, a random number lies within its bounds.
  \<open>sNextTransactionId\<close>, the static counter of \<^verbatim>\<open>message.cpp\<close>, is kept here too.
\<close>

section \<open>Calls and answers\<close>

datatype sockaddr = Sockaddr_in u32 u16 | Sockaddr_ll u32 "u8 list" | Sockaddr_nl

datatype if_request = SIOCGIFINDEX | SIOCGIFHWADDR | SIOCGIFFLAGS | SIOCSIFFLAGS u16 | SIOCSIFMTU s32

datatype net_call = Net_socket int int int | Net_bind int sockaddr | Net_close int
  | Net_sendmsg int "u8 list" sockaddr u32 | Net_recvmsg int nat | Net_readv int nat | Net_setsockopt int int int
  | Net_ioctl int if_request "u8 list" | Net_sendto int "u8 list" sockaddr | Net_recv int nat
  | Net_property "u8 list" "u8 list" | Net_ppoll int u32 | Net_sigprocmask

text \<open>
  \<open>Value n d cs\<close>: the call succeeds with result \<open>n\<close>; \<open>d\<close> is the data it stores, and \<open>cs\<close>
  are the control messages of a \<open>recvmsg\<close>: level, type and interface.
\<close>

datatype reply = Refused errno | Value nat "u8 list" "(int \<times> int \<times> u32) list"

record net =
  n_answers :: "reply list"
  n_calls :: "net_call list"
  n_errno :: errno
  n_time :: nat
  n_elapses :: "nat list"
  n_random :: "int list"
  sNextTransactionId :: u32

definition net_answer :: "net \<Rightarrow> reply \<times> net" where
  "net_answer w = (case n_answers w of [] \<Rightarrow> (Refused EIO, w) | a # r \<Rightarrow> (a, w\<lparr>n_answers := r\<rparr>))"

abbreviation net_log :: "net_call \<Rightarrow> net \<Rightarrow> net" where
  "net_log c w \<equiv> w\<lparr>n_calls := n_calls w @ [c]\<rparr>"

definition net_call :: "net_call \<Rightarrow> net \<Rightarrow> int \<times> u8 list \<times> net" where
  "net_call c w =
     (case net_answer w of
        (Refused e, w1) \<Rightarrow> (-1, [], (net_log c w1)\<lparr>n_errno := e\<rparr>)
      | (Value n d cs, w1) \<Rightarrow> (int n, d, net_log c w1))"

text \<open>A call that reads at most \<open>n\<close> bytes.\<close>

definition net_read :: "net_call \<Rightarrow> nat \<Rightarrow> net \<Rightarrow> int \<times> u8 list \<times> net" where
  "net_read c n w =
     (case net_answer w of
        (Refused e, w1) \<Rightarrow> (-1, [], (net_log c w1)\<lparr>n_errno := e\<rparr>)
      | (Value k d cs, w1) \<Rightarrow> (int (length (take n d)), take n d, net_log c w1))"

definition net_recvmsg :: "int \<Rightarrow> nat \<Rightarrow> net \<Rightarrow> int \<times> u8 list \<times> (int \<times> int \<times> u32) list \<times> net" where
  "net_recvmsg fd n w =
     (case net_answer w of
        (Refused e, w1) \<Rightarrow> (-1, [], [], (net_log (Net_recvmsg fd n) w1)\<lparr>n_errno := e\<rparr>)
      | (Value k d cs, w1) \<Rightarrow> (int (length (take n d)), take n d, cs, net_log (Net_recvmsg fd n) w1))"

definition net_close :: "int \<Rightarrow> net \<Rightarrow> net" where
  "net_close fd w = net_log (Net_close fd) w"

text \<open>\<open>ppoll\<close>: -1, 0 for a timeout, or a positive number. Without a further answer it times out.\<close>

definition net_ppoll :: "int \<Rightarrow> u32 \<Rightarrow> net \<Rightarrow> int \<times> net" where
  "net_ppoll fd timeout w =
     (case n_answers w of
        [] \<Rightarrow> (0, net_log (Net_ppoll fd timeout) w)
      | Refused e # r \<Rightarrow> (-1, (net_log (Net_ppoll fd timeout) w)\<lparr>n_answers := r, n_errno := e\<rparr>)
      | Value n d cs # r \<Rightarrow> (int n, (net_log (Net_ppoll fd timeout) w)\<lparr>n_answers := r\<rparr>))"

text \<open>A number of the uniform distribution from \<open>- span\<close> to \<open>span\<close>.\<close>

definition net_random :: "int \<Rightarrow> net \<Rightarrow> int \<times> net" where
  "net_random span w =
     (case n_random w of [] \<Rightarrow> (0, w) | r # rs \<Rightarrow> (max (- span) (min span r), w\<lparr>n_random := rs\<rparr>))"

section \<open>Results\<close>

text \<open>\<^verbatim>\<open>common/include/result.h\<close>. The text of an error is kept up to its first parameter.\<close>

datatype Result = Success | Error string

definition isSuccess :: "Result \<Rightarrow> bool" where
  "isSuccess r \<longleftrightarrow> r = Success"

lemma isSuccess_simps [simp]: "isSuccess Success" "\<not> isSuccess (Error m)"
  by (simp_all add: isSuccess_def)

section \<open>The clock and timers\<close>

text \<open>
  \<^verbatim>\<open>client/timer.cpp\<close>. The clock is read in milliseconds; before each reading the time moves on by the
  next of \<open>n_elapses\<close>, or stands still when they are used up.
\<close>

definition now :: "net \<Rightarrow> 64 word \<times> net" where
  "now w =
     (let t = n_time w + (case n_elapses w of [] \<Rightarrow> 0 | e # r \<Rightarrow> e)
      in (of_nat t, w\<lparr>n_time := t, n_elapses := drop 1 (n_elapses w)\<rparr>))"

definition expireSeconds :: "64 word \<Rightarrow> net \<Rightarrow> 64 word \<times> net" where
  "expireSeconds seconds w = (let (t, w1) = now w in (t + seconds * 1000, w1))"

definition expired :: "64 word \<Rightarrow> net \<Rightarrow> bool \<times> net" where
  "expired mExpires w = (let (t, w1) = now w in (mExpires \<le> t, w1))"

definition remainingMillis :: "64 word \<Rightarrow> net \<Rightarrow> 64 word \<times> net" where
  "remainingMillis mExpires w = (let (t, w1) = now w in (if mExpires < t then 0 else mExpires - t, w1))"

section \<open>Facts\<close>

definition net0 :: net where
  "net0 = \<lparr>n_answers = [], n_calls = [], n_errno = EIO, n_time = 0, n_elapses = [], n_random = [], sNextTransactionId = 1\<rparr>"

lemma net0_simps [simp]: "n_answers net0 = []" "n_calls net0 = []" "n_elapses net0 = []" "n_time net0 = 0" "sNextTransactionId net0 = 1"
  by (simp_all add: net0_def)

lemma net_call_answers: "net_call c w = (r, d, w1) \<Longrightarrow> length (n_answers w1) \<le> length (n_answers w)"
  by (auto simp: net_call_def net_answer_def split: list.splits reply.splits)

lemma net_read_answers: "net_read c n w = (r, d, w1) \<Longrightarrow> length (n_answers w1) \<le> length (n_answers w)"
  by (auto simp: net_read_def net_answer_def split: list.splits reply.splits)

lemma net_read_data: "net_read c n w = (r, d, w1) \<Longrightarrow> length d \<le> n \<and> (r < 0 \<or> r = int (length d))"
  by (auto simp: net_read_def split: prod.splits reply.splits)

lemma net_ppoll_answers:
  "net_ppoll fd t w = (r, w1) \<Longrightarrow> length (n_answers w1) \<le> length (n_answers w) \<and> (r \<noteq> 0 \<longrightarrow> length (n_answers w1) < length (n_answers w))"
  by (auto simp: net_ppoll_def split: list.splits reply.splits)

lemma now_answers [simp]: "n_answers (snd (now w)) = n_answers w" "n_calls (snd (now w)) = n_calls w"
  "n_random (snd (now w)) = n_random w" "sNextTransactionId (snd (now w)) = sNextTransactionId w"
  by (simp_all add: now_def Let_def)

lemma now_time: "n_time w \<le> n_time (snd (now w))" "fst (now w) = of_nat (n_time (snd (now w)))"
  by (simp_all add: now_def Let_def)

lemma net_random_bounds: "0 \<le> span \<Longrightarrow> - span \<le> fst (net_random span w) \<and> fst (net_random span w) \<le> span"
  by (auto simp: net_random_def split: list.splits)

lemma net_random_keeps [simp]: "n_answers (snd (net_random s w)) = n_answers w" "n_calls (snd (net_random s w)) = n_calls w"
  "sNextTransactionId (snd (net_random s w)) = sNextTransactionId w" "n_time (snd (net_random s w)) = n_time w"
  by (simp_all add: net_random_def split: list.splits)

end
