(* ===== verification/Net_Socket.thy ===== *)
theory Net_Socket
  imports Net_World
begin

text \<open>
  Sockets and UDP packets: \<^verbatim>\<open>dhcp_recovery/common/socket.cpp\<close>. A socket is its descriptor, -1 when it is
  closed. A call that goes beyond the bytes of a message has the result \<open>None\<close>.
\<close>

section \<open>Checksums\<close>

text \<open>The words of the buffer, then the last byte of an odd size.\<close>

fun sum_words :: "u8 list \<Rightarrow> u32 \<Rightarrow> u32" where
  "sum_words (a # b # r) checksum = sum_words r (checksum + ucast (get16 [a, b] 0))"
| "sum_words [a] checksum = checksum + ucast a"
| "sum_words [] checksum = checksum"

text \<open>The upper half is added to the lower half until there is none.\<close>

lemma fold_decreases:
  assumes "drop_bit 16 (c :: u32) \<noteq> 0"
  shows "unat ((c AND 0xFFFF) + drop_bit 16 c) < unat c"
proof -
  have m: "(0xFFFF :: u32) = mask 16" by (simp add: mask_eq_exp_minus_1)
  have l: "unat (c AND 0xFFFF) = unat c mod 65536"
    unfolding m by (simp only: take_bit_eq_mask [symmetric] unsigned_take_bit_eq) (simp add: take_bit_eq_mod)
  have h: "unat (drop_bit 16 c) = unat c div 65536"
    by (simp add: drop_bit_eq_div unat_div)
  have "unat c div 65536 \<noteq> 0" using assms h unat_eq_zero by metis
  moreover have "unat c = unat c div 65536 * 65536 + unat c mod 65536" by (simp only: div_mult_mod_eq)
  moreover have "unat ((c AND 0xFFFF) + drop_bit 16 c) \<le> unat (c AND 0xFFFF) + unat (drop_bit 16 c)"
    by (simp add: unat_word_ariths)
  ultimately show ?thesis unfolding l h by linarith
qed

function fold_sum :: "u32 \<Rightarrow> u32" where
  "fold_sum checksum =
     (if drop_bit 16 checksum \<noteq> 0 then fold_sum ((checksum AND 0xFFFF) + drop_bit 16 checksum) else checksum)"
  by pat_completeness auto

termination
  by (relation "measure unat") (rule wf_measure, simp only: in_measure fold_decreases if_True not_False_eq_True)

declare fold_sum.simps [simp del]

definition addChecksum :: "u8 list \<Rightarrow> u32 \<Rightarrow> u32" where
  "addChecksum buffer checksum = fold_sum (sum_words buffer checksum)"

definition finishChecksum :: "u32 \<Rightarrow> u32" where
  "finishChecksum checksum = NOT checksum AND 0xFFFF"

section \<open>Opening\<close>

definition Socket_new :: int where
  "Socket_new = -1"

definition Socket_delete :: "int \<Rightarrow> net \<Rightarrow> net" where
  "Socket_delete mSocketFd w = (if mSocketFd \<noteq> -1 then net_close mSocketFd w else w)"

definition Socket_open :: "int \<Rightarrow> int \<Rightarrow> int \<Rightarrow> int \<Rightarrow> net \<Rightarrow> Result \<times> int \<times> net" where
  "Socket_open mSocketFd domain typ protocol w =
     (if mSocketFd \<noteq> -1 then (Error ''Socket already open'', mSocketFd, w)
      else (let (fd, d, w1) = net_call (Net_socket domain typ protocol) w
            in (if fd = -1 then Error ''Failed to open socket: '' else Success, fd, w1)))"

definition Socket_bind :: "int \<Rightarrow> sockaddr \<Rightarrow> net \<Rightarrow> Result \<times> net" where
  "Socket_bind mSocketFd addr w =
     (if mSocketFd = -1 then (Error ''Socket not open'', w)
      else (let (status, d, w1) = net_call (Net_bind mSocketFd addr) w
            in (if status \<noteq> 0 then Error ''Unable to bind raw socket: '' else Success, w1)))"

definition bindIp :: "int \<Rightarrow> u32 \<Rightarrow> u16 \<Rightarrow> net \<Rightarrow> Result \<times> net" where
  "bindIp mSocketFd address port w = Socket_bind mSocketFd (Sockaddr_in address (htons port)) w"

definition bindRaw :: "int \<Rightarrow> u32 \<Rightarrow> net \<Rightarrow> Result \<times> net" where
  "bindRaw mSocketFd interfaceIndex w = Socket_bind mSocketFd (Sockaddr_ll interfaceIndex []) w"

definition enableOption :: "int \<Rightarrow> int \<Rightarrow> int \<Rightarrow> net \<Rightarrow> Result \<times> net" where
  "enableOption mSocketFd level optionName w =
     (if mSocketFd = -1 then (Error ''Socket not open'', w)
      else (let (status, d, w1) = net_call (Net_setsockopt mSocketFd level optionName) w
            in (if status = -1 then Error ''Failed to set socket option: '' else Success, w1)))"

section \<open>Sending\<close>

text \<open>The bytes of a message that are sent.\<close>

definition message_data :: "Message \<Rightarrow> u8 list option" where
  "message_data m =
     (if mSize m \<le> length (dhcp_bytes (dhcpData m)) then Some (take (mSize m) (dhcp_bytes (dhcpData m))) else None)"

definition sendOnInterface :: "int \<Rightarrow> u32 \<Rightarrow> u32 \<Rightarrow> u16 \<Rightarrow> Message \<Rightarrow> net \<Rightarrow> (Result \<times> net) option" where
  "sendOnInterface mSocketFd interfaceIndex destinationAddress destinationPort m w =
     (if mSocketFd = -1 then Some (Error ''Socket not open'', w)
      else do {
        b \<leftarrow> message_data m;
        let (status, d, w1) = net_call (Net_sendmsg mSocketFd b (Sockaddr_in destinationAddress (htons destinationPort)) interfaceIndex) w;
        Some (if status \<le> 0 then Error ''Failed to send packet: '' else Success, w1)
      })"

text \<open>The headers in memory: version 4 and length 5 in one byte, \<open>IPDEFTTL\<close>, UDP.\<close>

definition ip_header :: "nat \<Rightarrow> u16 \<Rightarrow> u32 \<Rightarrow> u32 \<Rightarrow> u8 list" where
  "ip_header len check source destination =
     [0x45, 0] @ le16 (htons (of_nat (20 + 8 + len))) @ le16 0 @ le16 0 @ [64, 17] @ le16 check @ le32 source @ le32 destination"

definition udp_header :: "u16 \<Rightarrow> u16 \<Rightarrow> nat \<Rightarrow> u16 \<Rightarrow> u8 list" where
  "udp_header sourcePort destinationPort len check =
     le16 (htons sourcePort) @ le16 (htons destinationPort) @ le16 (htons (of_nat (8 + len))) @ le16 check"

definition ip_checksum :: "nat \<Rightarrow> u32 \<Rightarrow> u32 \<Rightarrow> u16" where
  "ip_checksum len source destination = ucast (finishChecksum (addChecksum (ip_header len 0 source destination) 0))"

definition udp_checksum :: "u32 \<Rightarrow> u16 \<Rightarrow> u32 \<Rightarrow> u16 \<Rightarrow> u8 list \<Rightarrow> u16" where
  "udp_checksum source sourcePort destination destinationPort b =
     (let c1 = addChecksum (le32 source) 0;
          c2 = addChecksum (le32 destination) c1;
          c3 = addChecksum (le16 (htons 17)) c2;
          c4 = addChecksum (le16 (htons (of_nat (8 + length b)))) c3;
          c5 = addChecksum (udp_header sourcePort destinationPort (length b) 0) c4;
          c6 = addChecksum b c5
      in ucast (finishChecksum c6))"

definition raw_packet :: "u32 \<Rightarrow> u16 \<Rightarrow> u32 \<Rightarrow> u16 \<Rightarrow> u8 list \<Rightarrow> u8 list" where
  "raw_packet source sourcePort destination destinationPort b =
     ip_header (length b) (ip_checksum (length b) source destination) source destination
     @ udp_header sourcePort destinationPort (length b) (udp_checksum source sourcePort destination destinationPort b) @ b"

definition sendRawUdp :: "int \<Rightarrow> u32 \<Rightarrow> u16 \<Rightarrow> u32 \<Rightarrow> u16 \<Rightarrow> u32 \<Rightarrow> Message \<Rightarrow> net \<Rightarrow> (Result \<times> net) option" where
  "sendRawUdp mSocketFd source sourcePort destination destinationPort interfaceIndex m w = do {
     b \<leftarrow> message_data m;
     let (res, d, w1) = net_call (Net_sendmsg mSocketFd (raw_packet source sourcePort destination destinationPort b)
           (Sockaddr_ll interfaceIndex (replicate 6 0xFF)) 0) w;
     Some (if res = -1 then Error ''Failed to send message: '' else Success, w1)
   }"

section \<open>Receiving\<close>

text \<open>Bytes stored over the start of a message, and the size set.\<close>

definition overwrite :: "u8 list \<Rightarrow> Message \<Rightarrow> Message" where
  "overwrite b m = \<lparr>dhcpData = dhcp_at (b @ drop (length b) (dhcp_bytes (dhcpData m))), mSize = length b\<rparr>"

text \<open>The interface of the last control message of the right kind; unchanged if there is none.\<close>

definition packet_interface :: "(int \<times> int \<times> u32) list \<Rightarrow> u32 \<Rightarrow> u32" where
  "packet_interface cs interfaceIndex =
     fold (\<lambda>(level, typ, i) x. if level = 0 \<and> typ = 8 then i else x) cs interfaceIndex"

definition receiveFromInterface :: "int \<Rightarrow> Message \<Rightarrow> u32 \<Rightarrow> net \<Rightarrow> Result \<times> Message \<times> u32 \<times> net" where
  "receiveFromInterface mSocketFd m interfaceIndex w =
     (let (bytesRead, b, cs, w1) = net_recvmsg mSocketFd sizeof_dhcp w
      in if bytesRead < 0 then (Error ''Error receiving on socket: '', m, interfaceIndex, w1)
         else (Success, overwrite b m, packet_interface cs interfaceIndex, w1))"

text \<open>
  The first 20 bytes are the IP header, the next 8 the UDP header, the rest the message. \<open>isValid\<close>
  is the value stored through the pointer, if any.
\<close>

definition receiveRawUdp :: "int \<Rightarrow> u16 \<Rightarrow> Message \<Rightarrow> net \<Rightarrow> Result \<times> Message \<times> bool option \<times> net" where
  "receiveRawUdp mSocketFd expectedPort m w =
     (let (bytesRead, b, w1) = net_read (Net_readv mSocketFd (28 + sizeof_dhcp)) (28 + sizeof_dhcp) w
      in if bytesRead < 0 then (Error ''Unable to read from socket: '', m, None, w1)
         else if length b < 28 then (Success, m, Some False, w1)
         else (Success, overwrite (drop 28 b) m,
               Some (drop_bit 4 (b ! 0) = 4 \<and> b ! 0 AND 0xF = 5 \<and> b ! 9 = 17 \<and> get16 b 22 = htons expectedPort), w1))"

end
