(* ===== verification/Net_Interface.thy ===== *)
theory Net_Interface
  imports Net_Socket
begin

text \<open>
  The network interface and the router of the DHCP client: \<^verbatim>\<open>client/interface.cpp\<close>, \<^verbatim>\<open>client/router.cpp\<close> and
  \<^verbatim>\<open>client/netlink.h\<close>. A netlink request is its header, its fixed message and the buffer of 256 bytes
  that attributes are added to; \<open>None\<close> is an attribute that does not fit.
\<close>

section \<open>Netlink requests\<close>

record nl_request =
  nlmsg_len :: nat
  nlmsg_type :: u16
  nlmsg_flags :: u16
  nl_msg :: "u8 list"
  nl_buf :: "u8 list"

definition NLMSG_ALIGN :: "nat \<Rightarrow> nat" where
  "NLMSG_ALIGN n = (n + 3) div 4 * 4"

text \<open>A request with an empty buffer; \<open>NLMSG_LENGTH\<close> adds the 16 bytes of the header.\<close>

definition nl_new :: "u16 \<Rightarrow> u16 \<Rightarrow> u8 list \<Rightarrow> nl_request" where
  "nl_new typ flags msg = \<lparr>nlmsg_len = 16 + length msg, nlmsg_type = typ, nlmsg_flags = flags, nl_msg = msg, nl_buf = replicate 256 0\<rparr>"

definition nl_bytes :: "nl_request \<Rightarrow> u8 list" where
  "nl_bytes r = le32 (of_nat (nlmsg_len r)) @ le16 (nlmsg_type r) @ le16 (nlmsg_flags r) @ le32 0 @ le32 0 @ nl_msg r @ nl_buf r"

definition addRouterAttribute :: "u16 \<Rightarrow> u8 list \<Rightarrow> nl_request \<Rightarrow> nl_request option" where
  "addRouterAttribute typ data r = do {
     let offset = NLMSG_ALIGN (nlmsg_len r) - (16 + length (nl_msg r));
     b \<leftarrow> buf_write (nl_buf r) offset (le16 (of_nat (4 + length data)) @ le16 typ @ data);
     Some (r\<lparr>nl_buf := b, nlmsg_len := NLMSG_ALIGN (nlmsg_len r) + NLMSG_ALIGN (4 + length data)\<rparr>)
   }"

text \<open>\<open>sendto\<close> of a request, as long as its length says.\<close>

definition nl_send :: "int \<Rightarrow> nl_request \<Rightarrow> net \<Rightarrow> (int \<times> net) option" where
  "nl_send fd r w =
     (if length (nl_bytes r) < nlmsg_len r then None
      else (let (status, d, w1) = net_call (Net_sendto fd (take (nlmsg_len r) (nl_bytes r)) Sockaddr_nl) w in Some (status, w1)))"

section \<open>The interface\<close>

record Interface =
  i_name :: string
  i_fd :: int
  i_index :: u32
  i_mac :: "u8 list"

definition broadcastFromNetmask :: "u32 \<Rightarrow> u32 \<Rightarrow> u32" where
  "broadcastFromNetmask address netmask = address OR NOT netmask"

text \<open>The name in \<open>struct ifreq\<close>: 15 characters at most, then zeros.\<close>

definition createRequest :: "Interface \<Rightarrow> u8 list" where
  "createRequest i = take 15 (asc (i_name i)) @ replicate (16 - length (take 15 (asc (i_name i)))) 0"

text \<open>An \<open>ioctl\<close> gives its status and the 24 bytes of the union, zero where nothing was stored.\<close>

definition if_ioctl :: "Interface \<Rightarrow> if_request \<Rightarrow> u8 list \<Rightarrow> net \<Rightarrow> int \<times> u8 list \<times> net" where
  "if_ioctl i req nm w = (let (status, d, w1) = net_call (Net_ioctl (i_fd i) req nm) w in (status, take 24 (d @ replicate 24 0), w1))"

definition populateIndex :: "Interface \<Rightarrow> net \<Rightarrow> Result \<times> Interface \<times> net" where
  "populateIndex i w =
     (let (status, u, w1) = if_ioctl i SIOCGIFINDEX (createRequest i) w
      in if status \<noteq> 0 then (Error ''Failed to get interface index for '', i, w1)
         else (Success, i\<lparr>i_index := get32 u 0\<rparr>, w1))"

definition populateMacAddress :: "Interface \<Rightarrow> net \<Rightarrow> Result \<times> Interface \<times> net" where
  "populateMacAddress i w =
     (let (status, u, w1) = if_ioctl i SIOCGIFHWADDR (createRequest i) w
      in if status \<noteq> 0 then (Error ''Failed to get MAC address for '', i, w1)
         else (Success, i\<lparr>i_mac := take ETH_ALEN (drop 2 u)\<rparr>, w1))"

definition setInterfaceUp :: "bool \<Rightarrow> Interface \<Rightarrow> net \<Rightarrow> Result \<times> net" where
  "setInterfaceUp shouldBeUp i w =
     (let (status, u, w1) = if_ioctl i SIOCGIFFLAGS (createRequest i) w
      in if status \<noteq> 0 then (Error ''Failed to get interface flags for '', w1)
         else
           (let isUp = (get16 u 0 AND 1 \<noteq> 0)
            in if isUp = shouldBeUp then (Success, w1)
               else
                 (let (status', u', w2) = if_ioctl i (SIOCSIFFLAGS (get16 u 0 XOR 1)) (createRequest i) w1
                  in (if status' \<noteq> 0 then Error ''Failed to set interface flags for '' else Success, w2))))"

definition bringUp :: "Interface \<Rightarrow> net \<Rightarrow> Result \<times> net" where
  "bringUp i w = setInterfaceUp True i w"

definition bringDown :: "Interface \<Rightarrow> net \<Rightarrow> Result \<times> net" where
  "bringDown i w = setInterfaceUp False i w"

text \<open>The name is copied again, with all of its 16 bytes.\<close>

definition setMtu :: "u16 \<Rightarrow> Interface \<Rightarrow> net \<Rightarrow> Result \<times> net" where
  "setMtu mtu i w =
     (let nm = take 16 (asc (i_name i) @ replicate 16 0);
          (status, u, w1) = if_ioctl i (SIOCSIFMTU (ucast mtu)) nm w
      in (if status \<noteq> 0 then Error ''Failed to set interface MTU '' else Success, w1))"

definition popcount :: "u32 \<Rightarrow> nat" where
  "popcount x = length (filter (bit x) [0..<32])"

text \<open>What the kernel's answer to a request says.\<close>

definition netlink_response :: "u8 list \<Rightarrow> Result" where
  "netlink_response b =
     (if length b < 16 then Error ''Received incomplete response from netlink''
      else if get16 b 4 = 2 then
        (if length b < 36 then Error ''Recieved an error from netlink but the response was incomplete''
         else if get32 b 16 \<noteq> 0 then Error ''Could not set interface address: '' else Success)
      else Success)"

definition address_request :: "u32 \<Rightarrow> u32 \<Rightarrow> u32 \<Rightarrow> nl_request option" where
  "address_request address subnetMask ifindex = do {
     let r = nl_new 20 (0x001 OR 0x004 OR 0x400 OR 0x100) ([2, of_nat (popcount subnetMask), 0, 0] @ le32 ifindex);
     r1 \<leftarrow> addRouterAttribute 1 (le32 address) r;
     r2 \<leftarrow> addRouterAttribute 2 (le32 address) r1;
     addRouterAttribute 4 (le32 (broadcastFromNetmask address subnetMask)) r2
   }"

definition setAddress :: "u32 \<Rightarrow> u32 \<Rightarrow> Interface \<Rightarrow> net \<Rightarrow> (Result \<times> net) option" where
  "setAddress address subnetMask i w = do {
     r \<leftarrow> address_request address subnetMask (i_index i);
     (status, w1) \<leftarrow> nl_send (i_fd i) r w;
     if status = -1 then Some (Error ''Unable to set interface address: '', w1)
     else
       (let (st, b, w2) = net_read (Net_recv (i_fd i) 8192) 8192 w1
        in Some (if st < 0 then Error ''Unable to read netlink response: '' else netlink_response b, w2))
   }"

definition Interface_new :: Interface where
  "Interface_new = \<lparr>i_name = [], i_fd = -1, i_index = 0, i_mac = replicate ETH_ALEN 0\<rparr>"

text \<open>The steps of \<open>init\<close>, each only after the one before has succeeded.\<close>

definition Interface_init :: "string \<Rightarrow> Interface \<Rightarrow> net \<Rightarrow> (Result \<times> Interface \<times> net) option" where
  "Interface_init interfaceName i0 w =
     (let i = i0\<lparr>i_name := interfaceName\<rparr>
      in if i_fd i \<noteq> -1 then Some (Error ''Interface initialized more than once'', i, w)
         else
           (let (fd, d, w1) = net_call (Net_socket 16 0x80003 0) w; i1 = i\<lparr>i_fd := fd\<rparr>
            in if fd = -1 then Some (Error ''Failed to create interface socket for '', i1, w1)
               else
                 (let (r2, i2, w2) = populateIndex i1 w1
                  in if \<not> isSuccess r2 then Some (r2, i2, w2)
                     else
                       (let (r3, i3, w3) = populateMacAddress i2 w2
                        in if \<not> isSuccess r3 then Some (r3, i3, w3)
                           else
                             (let (r4, w4) = bringUp i3 w3
                              in if \<not> isSuccess r4 then Some (r4, i3, w4)
                                 else do {
                                   (r5, w5) \<leftarrow> setAddress 0 0 i3 w4;
                                   Some (if \<not> isSuccess r5 then r5 else Success, i3, w5)
                                 })))))"

definition Interface_delete :: "Interface \<Rightarrow> net \<Rightarrow> net" where
  "Interface_delete i w = (if i_fd i \<noteq> -1 then net_close (i_fd i) w else w)"

section \<open>The router\<close>

definition Router_init :: "net \<Rightarrow> Result \<times> int \<times> net" where
  "Router_init w =
     (let (fd, d, w1) = net_call (Net_socket 16 3 0) w in (if fd = -1 then Error [] else Success, fd, w1))"

definition Router_delete :: "int \<Rightarrow> net \<Rightarrow> net" where
  "Router_delete fd w = (if fd \<noteq> -1 then net_close fd w else w)"

definition sendNetlinkMessage :: "int \<Rightarrow> nl_request \<Rightarrow> net \<Rightarrow> (Result \<times> net) option" where
  "sendNetlinkMessage fd r w = do {
     (res, w1) \<leftarrow> nl_send fd r w;
     Some (if res = -1 then Error ''Unable to send on netlink socket: '' else Success, w1)
   }"

definition route_request :: "u32 \<Rightarrow> u32 \<Rightarrow> nl_request option" where
  "route_request gateway ifaceIndex = do {
     let r = nl_new 24 (0x001 OR 0x400) ([2, 0, 0, 0, 254, 3, 0, 1] @ le32 0);
     r1 \<leftarrow> addRouterAttribute 5 (le32 gateway) r;
     addRouterAttribute 4 (le32 ifaceIndex) r1
   }"

definition setDefaultGateway :: "u32 \<Rightarrow> u32 \<Rightarrow> int \<Rightarrow> net \<Rightarrow> (Result \<times> net) option" where
  "setDefaultGateway gateway ifaceIndex fd w = do {
     r \<leftarrow> route_request gateway ifaceIndex;
     sendNetlinkMessage fd r w
   }"

section \<open>What the requests say\<close>

text \<open>The attributes of a message, read as the kernel reads them: length, type, data, to the next multiple of 4.\<close>

lemma NLMSG_ALIGN_ge: "4 \<le> n \<Longrightarrow> 4 \<le> NLMSG_ALIGN n"
  unfolding NLMSG_ALIGN_def by presburger

function attributes :: "u8 list \<Rightarrow> (u16 \<times> u8 list) list option" where
  "attributes b =
     (if b = [] then Some []
      else if length b < 4 then None
      else (let n = unat (get16 b 0)
            in if n < 4 \<or> length b < NLMSG_ALIGN n then None
               else map_option ((#) (get16 b 2, take (n - 4) (drop 4 b))) (attributes (drop (NLMSG_ALIGN n) b))))"
  by pat_completeness auto

termination
proof (relation "measure length")
  fix b :: "u8 list" and n
  assume b: "b \<noteq> []" "\<not> length b < 4" "n = unat (get16 b 0)" "\<not> (n < 4 \<or> length b < NLMSG_ALIGN n)"
  then have "4 \<le> NLMSG_ALIGN n" by (intro NLMSG_ALIGN_ge) simp
  then show "(drop (NLMSG_ALIGN n) b, b) \<in> measure length" using b by (cases b) auto
qed simp

declare attributes.simps [simp del]

lemma le_nonempty [simp]: "le16 x \<noteq> []" "le32 y \<noteq> []"
  by (simp_all add: le16_def le32_def)

lemma attributes_cons:
  assumes "length d = 4"
  shows "attributes (le16 8 @ le16 t @ d @ r) = map_option ((#) (t, d)) (attributes r)"
proof -
  have g: "get16 (le16 8 @ le16 t @ d @ r) 0 = 8" "get16 (le16 8 @ le16 t @ d @ r) 2 = t"
    using get_append(1) [of "le16 8" "le16 t @ d @ r" 0] by simp_all
  have "drop 4 (le16 8 @ le16 t @ d @ r) = d @ r" "drop 8 (le16 8 @ le16 t @ d @ r) = r" using assms by simp_all
  then show ?thesis
    using assms g by (subst attributes.simps) (simp add: NLMSG_ALIGN_def)
qed

text \<open>Adding an attribute of four bytes.\<close>

lemma addRouterAttribute_4:
  assumes "length d = 4" and "nlmsg_len r = 16 + length (nl_msg r) + k" and "k mod 4 = 0" and "length (nl_msg r) mod 4 = 0"
    and "length (nl_buf r) = 256" and "k + 8 \<le> 256"
  shows "addRouterAttribute t d r = Some (r\<lparr>nl_buf := take k (nl_buf r) @ le16 8 @ le16 t @ d @ drop (k + 8) (nl_buf r), nlmsg_len := nlmsg_len r + 8\<rparr>)"
proof -
  have "NLMSG_ALIGN (nlmsg_len r) = nlmsg_len r" using assms(2-4) unfolding NLMSG_ALIGN_def by presburger
  then show ?thesis using assms by (simp add: addRouterAttribute_def buf_write_def NLMSG_ALIGN_def Let_def)
qed

lemma nl_new_simps [simp]:
  "nlmsg_len (nl_new t f m) = 16 + length m" "nl_msg (nl_new t f m) = m" "nl_buf (nl_new t f m) = replicate 256 0"
  "nlmsg_type (nl_new t f m) = t" "nlmsg_flags (nl_new t f m) = f"
  by (simp_all add: nl_new_def)

lemma address_request_is:
  "\<exists>r. address_request a m ix = Some r \<and> nlmsg_len r = 48 \<and> nlmsg_type r = 20 \<and> length (nl_buf r) = 256 \<and>
     nl_msg r = [2, of_nat (popcount m), 0, 0] @ le32 ix \<and>
     take 24 (nl_buf r) = le16 8 @ le16 1 @ le32 a @ le16 8 @ le16 2 @ le32 a @ le16 8 @ le16 4 @ le32 (broadcastFromNetmask a m)"
proof -
  define r0 where "r0 = nl_new 20 (0x001 OR 0x004 OR 0x400 OR 0x100) ([2, of_nat (popcount m), 0, 0] @ le32 ix)"
  have r0: "nlmsg_len r0 = 24" "length (nl_msg r0) = 8" "length (nl_buf r0) = 256" by (simp_all add: r0_def)
  note a1 = addRouterAttribute_4 [of "le32 a" r0 0 1, simplified r0, simplified]
  define r1 where "r1 = r0\<lparr>nl_buf := le16 8 @ le16 1 @ le32 a @ drop 8 (nl_buf r0), nlmsg_len := 32\<rparr>"
  have r1: "nlmsg_len r1 = 32" "length (nl_msg r1) = 8" "length (nl_buf r1) = 256" by (simp_all add: r1_def r0)
  have 1: "addRouterAttribute 1 (le32 a) r0 = Some r1" by (simp add: a1 r1_def)
  note a2 = addRouterAttribute_4 [of "le32 a" r1 8 2, simplified r1, simplified]
  define r2 where "r2 = r1\<lparr>nl_buf := take 8 (nl_buf r1) @ le16 8 @ le16 2 @ le32 a @ drop 16 (nl_buf r1), nlmsg_len := 40\<rparr>"
  have r2: "nlmsg_len r2 = 40" "length (nl_msg r2) = 8" "length (nl_buf r2) = 256" by (simp_all add: r2_def r1)
  have 2: "addRouterAttribute 2 (le32 a) r1 = Some r2" by (simp add: a2 r2_def)
  note a3 = addRouterAttribute_4 [of "le32 (broadcastFromNetmask a m)" r2 16 4, simplified r2, simplified]
  have "address_request a m ix = addRouterAttribute 4 (le32 (broadcastFromNetmask a m)) r2"
    unfolding address_request_def Let_def r0_def [symmetric] using 1 2 by simp
  then show ?thesis
    by (simp add: a3 r2) (simp add: r2_def r1_def r0_def)
qed

lemma nl_send_serve:
  "nlmsg_len r \<le> length (nl_bytes r) \<Longrightarrow> n_answers w = Value n d cs # later \<Longrightarrow>
   nl_send fd r w = Some (int n, net_log (Net_sendto fd (take (nlmsg_len r) (nl_bytes r)) Sockaddr_nl) (w\<lparr>n_answers := later\<rparr>))"
  by (simp add: nl_send_def net_call_def net_answer_def)

lemma address_bytes:
  assumes "address_request a m ix = Some r"
  shows "nlmsg_len r = 48" "take 48 (nl_bytes r) = le32 48 @ le16 20 @ le16 (nlmsg_flags r) @ le32 0 @ le32 0
      @ [2, of_nat (popcount m), 0, 0] @ le32 ix
      @ le16 8 @ le16 1 @ le32 a @ le16 8 @ le16 2 @ le32 a @ le16 8 @ le16 4 @ le32 (broadcastFromNetmask a m)"
    "48 \<le> length (nl_bytes r)"
  using address_request_is [of a m ix] assms by (auto simp: nl_bytes_def)

definition address_packet :: "u32 \<Rightarrow> u32 \<Rightarrow> u32 \<Rightarrow> u8 list" where
  "address_packet a m ix = take 48 (nl_bytes (the (address_request a m ix)))"

lemma address_packet_says:
  "get32 (address_packet a m ix) 0 = of_nat (length (address_packet a m ix))" "get16 (address_packet a m ix) 4 = 20"
  "take 8 (drop 16 (address_packet a m ix)) = [2, of_nat (popcount m), 0, 0] @ le32 ix"
  "attributes (drop 24 (address_packet a m ix)) = Some [(1, le32 a), (2, le32 a), (4, le32 (a OR NOT m))]"
proof -
  obtain r where r: "address_request a m ix = Some r" using address_request_is by blast
  define p where "p = address_packet a m ix"
  have p: "p = (le32 48 @ le16 20 @ le16 (nlmsg_flags r) @ le32 0 @ le32 0) @ ([2, of_nat (popcount m), 0, 0] @ le32 ix)
      @ (le16 8 @ le16 1 @ le32 a @ (le16 8 @ le16 2 @ le32 a @ (le16 8 @ le16 4 @ le32 (broadcastFromNetmask a m) @ [])))"
    using address_bytes(2) [OF r] by (simp add: p_def address_packet_def r)
  have "attributes [] = Some []" by (simp add: attributes.simps)
  then show "attributes (drop 24 (address_packet a m ix)) = Some [(1, le32 a), (2, le32 a), (4, le32 (a OR NOT m))]"
    unfolding p_def [symmetric] p by (simp add: attributes_cons broadcastFromNetmask_def del: append_Nil2)
  show "get32 (address_packet a m ix) 0 = of_nat (length (address_packet a m ix))" "get16 (address_packet a m ix) 4 = 20"
    "take 8 (drop 16 (address_packet a m ix)) = [2, of_nat (popcount m), 0, 0] @ le32 ix"
    using get_append(1) [of "le32 48" _ 0] unfolding p_def [symmetric] p by simp_all
qed

lemma setAddress_serve:
  assumes "n_answers w = Value n d cs # Value k resp cs' # later" and "netlink_response (take 8192 resp) = Success"
  shows "setAddress a m i w = Some (Success, net_log (Net_recv (i_fd i) 8192)
    (net_log (Net_sendto (i_fd i) (address_packet a m (i_index i)) Sockaddr_nl) w)\<lparr>n_answers := later\<rparr>)"
proof -
  obtain r where r: "address_request a m (i_index i) = Some r" using address_request_is by blast
  show ?thesis
    using assms r address_bytes [OF r] nl_send_serve [OF _ assms(1), of r "i_fd i"]
    by (simp add: setAddress_def net_read_def net_answer_def address_packet_def)
qed

text \<open>C37: The kernel is told the right address. When it accepts, \<open>setAddress\<close> succeeds and has sent one netlink
  message: a new IPv4 address for the interface with the number of bits of the mask as its prefix length,
  whose attributes, read by the kernel's rules, are exactly the address, the same local address, and the
  broadcast address that has the bits outside the mask set.\<close>

theorem address_set:
  assumes "n_answers w = Value 48 [] [] # Value k resp [] # later" and "netlink_response (take 8192 resp) = Success"
  shows "\<exists>w' p. setAddress address subnetMask i w = Some (Success, w') \<and> n_answers w' = later \<and>
    n_calls w' = n_calls w @ [Net_sendto (i_fd i) p Sockaddr_nl, Net_recv (i_fd i) 8192] \<and>
    get32 p 0 = of_nat (length p) \<and> get16 p 4 = 20 \<and> take 8 (drop 16 p) = [2, of_nat (popcount subnetMask), 0, 0] @ le32 (i_index i) \<and>
    attributes (drop 24 p) = Some [(1, le32 address), (2, le32 address), (4, le32 (address OR NOT subnetMask))]"
  using setAddress_serve [OF assms] address_packet_says by simp

theorem address_set_witness:
  "\<exists>w' p. setAddress 0x0F02000A 0x00FFFFFF (Interface_new\<lparr>i_fd := 3, i_index := 2\<rparr>) (net0\<lparr>n_answers := [Value 48 [] [], Value 36 (replicate 36 0) []]\<rparr>) =
      Some (Success, w') \<and> n_answers w' = [] \<and>
    n_calls w' = n_calls (net0\<lparr>n_answers := [Value 48 [] [], Value 36 (replicate 36 0) []]\<rparr>) @ [Net_sendto (i_fd (Interface_new\<lparr>i_fd := 3, i_index := 2\<rparr>)) p Sockaddr_nl, Net_recv (i_fd (Interface_new\<lparr>i_fd := 3, i_index := 2\<rparr>)) 8192] \<and>
    get32 p 0 = of_nat (length p) \<and> get16 p 4 = 20 \<and> take 8 (drop 16 p) = [2, of_nat (popcount 0x00FFFFFF), 0, 0] @ le32 (i_index (Interface_new\<lparr>i_fd := 3, i_index := 2\<rparr>)) \<and>
    attributes (drop 24 p) = Some [(1, le32 0x0F02000A), (2, le32 0x0F02000A), (4, le32 (0x0F02000A OR NOT 0x00FFFFFF))]"
  by (rule address_set [where k = 36 and resp = "replicate 36 0"]) (simp_all add: netlink_response_def get16_def nth_replicate)

end
