(* ===== verification/Dhcp_Client.thy ===== *)
theory Dhcp_Client
  imports Net_Interface
begin

text \<open>
  The DHCP client: \<^verbatim>\<open>dhcp_recovery/client/dhcpclient.cpp\<close>. Its members are a record; the members the
  constructor leaves uninitialised are 0 here, and the code sets them before it reads them. One pass of the
  endless loop of \<open>run\<close> is \<open>client_step\<close>: the action of the state, then waiting. \<open>None\<close> is an access
  outside a message. Messages for the log are left out.
\<close>

section \<open>The members\<close>

datatype State = Init | Selecting | Requesting | Bound | Renewing | Rebinding

fun stateToStr :: "State \<Rightarrow> string" where
  "stateToStr Init = ''Init''"
| "stateToStr Selecting = ''Selecting''"
| "stateToStr Requesting = ''Requesting''"
| "stateToStr Bound = ''Bound''"
| "stateToStr Renewing = ''Renewing''"
| "stateToStr Rebinding = ''Rebinding''"

record DhcpInfo =
  t1 :: u32
  t2 :: u32
  leaseTime :: u32
  mtu :: u16
  dns :: "u32 list"
  gateway :: u32
  subnetMask :: u32
  info_serverId :: u32
  offeredAddress :: u32

record DhcpClient =
  mOptions :: u32
  mDhcpInfo :: DhcpInfo
  mRouter :: int
  mInterface :: Interface
  mLastMsg :: Message
  mT1 :: "64 word"
  mT2 :: "64 word"
  mSocket :: int
  mState :: State
  mNextTimeout :: u32
  mFuzzNextTimeout :: bool
  mRequestAddress :: u32
  mServerAddress :: u32

abbreviation (input) kInitialTimeout :: u32 where "kInitialTimeout \<equiv> 4000"
abbreviation (input) kMaxTimeout :: u32 where "kMaxTimeout \<equiv> 64000"
abbreviation (input) kNoTimeout :: u32 where "kNoTimeout \<equiv> 0"
abbreviation (input) kTimeoutSpan :: int where "kTimeoutSpan \<equiv> 1000"
abbreviation (input) INADDR_BROADCAST :: u32 where "INADDR_BROADCAST \<equiv> 0xFFFFFFFF"

definition zero_info :: DhcpInfo where
  "zero_info = \<lparr>t1 = 0, t2 = 0, leaseTime = 0, mtu = 0, dns = [0, 0, 0, 0], gateway = 0, subnetMask = 0,
     info_serverId = 0, offeredAddress = 0\<rparr>"

definition DhcpClient_new :: "u32 \<Rightarrow> DhcpClient" where
  "DhcpClient_new options = \<lparr>mOptions = options, mDhcpInfo = zero_info, mRouter = -1, mInterface = Interface_new,
     mLastMsg = Message_empty, mT1 = 0, mT2 = 0, mSocket = Socket_new, mState = Init, mNextTimeout = kInitialTimeout,
     mFuzzNextTimeout = True, mRequestAddress = 0, mServerAddress = 0\<rparr>"

section \<open>Starting\<close>

definition DhcpClient_init :: "string \<Rightarrow> DhcpClient \<Rightarrow> net \<Rightarrow> (Result \<times> DhcpClient \<times> net) option" where
  "DhcpClient_init interfaceName c w = do {
     (r1, i, w1) \<leftarrow> Interface_init interfaceName (mInterface c) w;
     let c1 = c\<lparr>mInterface := i\<rparr>;
     if \<not> isSuccess r1 then Some (r1, c1, w1)
     else
       (let (r2, fd, w2) = Router_init w1; c2 = c1\<lparr>mRouter := fd\<rparr>
        in if \<not> isSuccess r2 then Some (r2, c2, w2)
           else
             (let (r3, s, w3) = Socket_open (mSocket c2) 17 2 (uint (htons 0x0800)) w2; c3 = c2\<lparr>mSocket := s\<rparr>
              in if \<not> isSuccess r3 then Some (r3, c3, w3)
                 else
                   (let (r4, w4) = bindRaw (mSocket c3) (i_index (mInterface c3)) w3
                    in Some (if \<not> isSuccess r4 then r4 else Success, c3, w4))))
   }"

section \<open>Timeouts and states\<close>

definition setNextState :: "State \<Rightarrow> DhcpClient \<Rightarrow> DhcpClient" where
  "setNextState state c = c\<lparr>mState := state, mNextTimeout := kNoTimeout, mFuzzNextTimeout := True\<rparr>"

definition increaseTimeout :: "DhcpClient \<Rightarrow> DhcpClient" where
  "increaseTimeout c =
     (if mNextTimeout c = kNoTimeout then c\<lparr>mNextTimeout := kInitialTimeout\<rparr>
      else
        (let n1 = (if mNextTimeout c < kMaxTimeout then mNextTimeout c * 2 else mNextTimeout c)
         in c\<lparr>mNextTimeout := (if kMaxTimeout < n1 then kMaxTimeout else n1)\<rparr>))"

definition calculateTimeoutMillis :: "DhcpClient \<Rightarrow> net \<Rightarrow> u32 \<times> net" where
  "calculateTimeoutMillis c w =
     (if \<not> mFuzzNextTimeout c then (mNextTimeout c, w)
      else
        (let (adjustment, w1) = net_random kTimeoutSpan w
         in (if adjustment < 0 \<and> mNextTimeout c < of_int (- adjustment) then 0
             else mNextTimeout c + of_int adjustment, w1)))"

section \<open>Sending\<close>

definition sendMessage :: "Message \<Rightarrow> DhcpClient \<Rightarrow> net \<Rightarrow> net option" where
  "sendMessage m c w = do {
     (res, w1) \<leftarrow> sendRawUdp (mSocket c) 0 PORT_BOOTP_CLIENT INADDR_BROADCAST PORT_BOOTP_SERVER (i_index (mInterface c)) m w;
     Some w1
   }"

definition sendDhcpRequest :: "u32 \<Rightarrow> DhcpClient \<Rightarrow> net \<Rightarrow> (DhcpClient \<times> net) option" where
  "sendDhcpRequest destination c w = do {
     (m, x) \<leftarrow> request (i_mac (mInterface c)) (mRequestAddress c) destination (sNextTransactionId w);
     w1 \<leftarrow> sendMessage m (c\<lparr>mLastMsg := m\<rparr>) (w\<lparr>sNextTransactionId := x\<rparr>);
     Some (c\<lparr>mLastMsg := m\<rparr>, w1)
   }"

definition sendDhcpDiscover :: "DhcpClient \<Rightarrow> net \<Rightarrow> (DhcpClient \<times> net) option" where
  "sendDhcpDiscover c w = do {
     (m, x) \<leftarrow> discover (i_mac (mInterface c)) (sNextTransactionId w);
     w1 \<leftarrow> sendMessage m (c\<lparr>mLastMsg := m\<rparr>) (w\<lparr>sNextTransactionId := x\<rparr>);
     Some (c\<lparr>mLastMsg := m\<rparr>, w1)
   }"

section \<open>Configuring\<close>

definition opt_half :: "Message \<Rightarrow> nat \<Rightarrow> u16 option" where
  "opt_half m i = (if i + 2 \<le> length (d_options (dhcpData m)) then Some (get16 (d_options (dhcpData m)) i) else None)"

text \<open>The name servers: one for each four bytes, up to four.\<close>

fun store_dns :: "Message \<Rightarrow> nat \<Rightarrow> nat \<Rightarrow> nat list \<Rightarrow> DhcpInfo \<Rightarrow> DhcpInfo option" where
  "store_dns m len opt [] info = Some info"
| "store_dns m len opt (k # ks) info =
     (if 4 * k + 4 \<le> len
      then do { a \<leftarrow> opt_word m (opt + 4 * k); store_dns m len opt ks (info\<lparr>dns := (dns info)[k := a]\<rparr>) }
      else store_dns m len opt ks info)"

text \<open>The \<open>switch\<close> over the code of an option of length \<open>len\<close> whose data is at \<open>opt\<close>.\<close>

definition store_option :: "Message \<Rightarrow> u8 \<Rightarrow> nat \<Rightarrow> nat \<Rightarrow> DhcpInfo \<Rightarrow> DhcpInfo option" where
  "store_option m code len opt info =
     (if code = OPT_LEASE_TIME then (if len = 4 then do { v \<leftarrow> opt_word m opt; Some (info\<lparr>leaseTime := htonl v\<rparr>) } else Some info)
      else if code = OPT_T1 then (if len = 4 then do { v \<leftarrow> opt_word m opt; Some (info\<lparr>t1 := htonl v\<rparr>) } else Some info)
      else if code = OPT_T2 then (if len = 4 then do { v \<leftarrow> opt_word m opt; Some (info\<lparr>t2 := htonl v\<rparr>) } else Some info)
      else if code = OPT_SUBNET_MASK then (if len = 4 then do { v \<leftarrow> opt_word m opt; Some (info\<lparr>subnetMask := v\<rparr>) } else Some info)
      else if code = OPT_GATEWAY then (if 4 \<le> len then do { v \<leftarrow> opt_word m opt; Some (info\<lparr>gateway := v\<rparr>) } else Some info)
      else if code = OPT_MTU then (if len = 2 then do { v \<leftarrow> opt_half m opt; Some (info\<lparr>mtu := htons v\<rparr>) } else Some info)
      else if code = OPT_DNS then store_dns m len opt [0, 1, 2, 3] info
      else if code = OPT_SERVER_ID then (if len = 4 then do { v \<leftarrow> opt_word m opt; Some (info\<lparr>info_serverId := v\<rparr>) } else Some info)
      else Some info)"

text \<open>
  The loop over the options, from \<open>i\<close>: whether it came to the end, and what it stored. An option is
  refused when its start and its length, not counting the two bytes before its data, reach the end.
\<close>

function scan_options :: "Message \<Rightarrow> nat \<Rightarrow> nat \<Rightarrow> DhcpInfo \<Rightarrow> (bool \<times> DhcpInfo) option" where
  "scan_options m optsSize i info =
     (let options = d_options (dhcpData m)
      in if i + 1 < optsSize then
           (if length options \<le> i + 1 then None
            else
              (let optCode = options ! i; optLength = unat (options ! (i + 1))
               in if optCode = OPT_END then Some (True, info)
                  else if optsSize \<le> optLength + i then Some (False, info)
                  else (case store_option m optCode optLength (i + 2) info of
                          None \<Rightarrow> None | Some info' \<Rightarrow> scan_options m optsSize (i + 2 + optLength) info')))
         else Some (True, info))"
  by pat_completeness auto

termination
  by (relation "measure (\<lambda>(m, optsSize, i, info). optsSize - i)") auto

declare scan_options.simps [simp del]

text \<open>\<open>inet_ntop\<close>: the four bytes in decimal.\<close>

definition addrToStr :: "u32 \<Rightarrow> u8 list" where
  "addrToStr address =
     (let b = map (\<lambda>x. dec (unat x)) (le32 address) in b ! 0 @ [0x2E] @ b ! 1 @ [0x2E] @ b ! 2 @ [0x2E] @ b ! 3)"

text \<open>The names of the properties are cut to the 63 characters of the buffer; failures are only logged.\<close>

definition property_set :: "u8 list \<Rightarrow> u8 list \<Rightarrow> net \<Rightarrow> net" where
  "property_set nm v w = snd (snd (net_call (Net_property (take 63 nm) v) w))"

fun set_dns_properties :: "u8 list \<Rightarrow> nat \<Rightarrow> u32 list \<Rightarrow> net \<Rightarrow> net" where
  "set_dns_properties nm i [] w = w"
| "set_dns_properties nm i (a # as) w =
     set_dns_properties nm (i + 1) as
       (property_set (asc ''vendor.net.'' @ nm @ asc ''.dns'' @ dec (i + 1)) (if a \<noteq> 0 then addrToStr a else []) w)"

definition set_properties :: "DhcpClient \<Rightarrow> net \<Rightarrow> net" where
  "set_properties c w =
     (let nm = asc (i_name (mInterface c));
          w1 = property_set (asc ''vendor.net.'' @ nm @ asc ''.gw'') (addrToStr (gateway (mDhcpInfo c))) w
      in set_dns_properties nm 0 (dns (mDhcpInfo c)) w1)"

text \<open>What follows the timers: the interface, its properties, its address, the route.\<close>

definition apply_lease :: "DhcpClient \<Rightarrow> net \<Rightarrow> (bool \<times> net) option" where
  "apply_lease c w =
     (let info = mDhcpInfo c; (r1, w1) = bringUp (mInterface c) w
      in if \<not> isSuccess r1 then Some (False, w1)
         else
           (let w2 = (if mtu info \<noteq> 0 then snd (setMtu (mtu info) (mInterface c) w1) else w1);
                w3 = set_properties c w2
            in do {
              (r4, w4) \<leftarrow> setAddress (offeredAddress info) (subnetMask info) (mInterface c) w3;
              if \<not> isSuccess r4 then Some (False, w4)
              else if mOptions c AND 1 = 0 then do {
                (r5, w5) \<leftarrow> setDefaultGateway (gateway info) (i_index (mInterface c)) (mRouter c) w4;
                Some (isSuccess r5, w5)
              }
              else Some (True, w4)
            }))"

definition configureDhcp :: "Message \<Rightarrow> DhcpClient \<Rightarrow> net \<Rightarrow> (bool \<times> DhcpClient \<times> net) option" where
  "configureDhcp msg c w =
     (let optsSize = optionsSize msg
      in if optsSize < 4 then Some (False, c, w)
         else do {
           (ok, info) \<leftarrow> scan_options msg optsSize 4 zero_info;
           if \<not> ok then Some (False, c\<lparr>mDhcpInfo := info\<rparr>, w)
           else
             (let info1 = info\<lparr>offeredAddress := d_yiaddr (dhcpData msg)\<rparr>; c1 = c\<lparr>mDhcpInfo := info1\<rparr>
              in if leaseTime info1 = 0 then Some (False, c1, w)
                 else
                   (let (e1, w1) = expireSeconds (ucast (if 0 < t1 info1 then t1 info1 else leaseTime info1 div 2)) w;
                        (e2, w2) = expireSeconds (ucast (if 0 < t2 info1 then t2 info1 else leaseTime info1 * 7 div 8)) w1;
                        c2 = c1\<lparr>mT1 := e1, mT2 := e2\<rparr>
                    in do {
                      (done, w3) \<leftarrow> apply_lease c2 w2;
                      Some (done, c2, w3)
                    }))
         })"

definition haltNetwork :: "DhcpClient \<Rightarrow> net \<Rightarrow> net option" where
  "haltNetwork c w = do {
     (r1, w1) \<leftarrow> setAddress 0 0 (mInterface c) w;
     Some (snd (bringDown (mInterface c) w1))
   }"

section \<open>Receiving\<close>

definition receiveDhcpMessage :: "DhcpClient \<Rightarrow> net \<Rightarrow> bool \<times> Message \<times> net" where
  "receiveDhcpMessage c w =
     (let (res, msg, isValid, w1) = receiveRawUdp (mSocket c) PORT_BOOTP_CLIENT Message_empty w
      in (isSuccess res \<and> isValid = Some True \<and> isValidDhcpMessage OP_BOOTREPLY (d_xid (dhcpData (mLastMsg c))) msg, msg, w1))"

text \<open>A message that has arrived, in the state the client is in: whether the wait is over.\<close>

definition handle_message :: "Message \<Rightarrow> DhcpClient \<Rightarrow> net \<Rightarrow> (bool \<times> DhcpClient \<times> net) option" where
  "handle_message msg c w = do {
     msgType \<leftarrow> message_type msg;
     if mState c = Selecting then
       (if msgType = DHCPOFFER then do {
          s \<leftarrow> serverId msg;
          Some (True, setNextState Requesting (c\<lparr>mServerAddress := s, mRequestAddress := d_yiaddr (dhcpData msg)\<rparr>), w)
        }
        else Some (False, c, w))
     else if mState c \<in> {Requesting, Renewing, Rebinding} then
       (if msgType = DHCPACK then do {
          (ok, c1, w1) \<leftarrow> configureDhcp msg c w;
          Some (if ok then (True, setNextState Bound c1, w1) else (False, c1, w1))
        }
        else if msgType = DHCPNAK then do {
          w1 \<leftarrow> haltNetwork c w;
          Some (True, setNextState Init c, w1)
        }
        else Some (False, c, w))
     else Some (False, c, w)
   }"

definition handle_input :: "DhcpClient \<Rightarrow> net \<Rightarrow> (bool \<times> DhcpClient \<times> net) option" where
  "handle_input c w =
     (let (got, msg, w1) = receiveDhcpMessage c w
      in if got then handle_message msg c w1 else Some (False, c, w1))"

end
