(* ===== verification/Dhcp_Run.thy ===== *)
theory Dhcp_Run
  imports Dhcp_Client
begin

text \<open>
  The loop of the DHCP client: \<open>waitAndReceive\<close> and \<open>run\<close> of \<^verbatim>\<open>dhcp_recovery/client/dhcpclient.cpp\<close>, and \<open>main\<close> of
  \<^verbatim>\<open>dhcp_recovery/client/main.cpp\<close>. A wait ends because each of its passes uses up an answer of the system,
  and \<open>ppoll\<close> times out when there is none.
\<close>

section \<open>Answers are used up in order\<close>

named_theorems uses_less \<open>no operation adds an answer\<close>

definition uses :: "net \<Rightarrow> net \<Rightarrow> bool" where
  "uses w w' \<longleftrightarrow> (\<exists>k. n_answers w' = drop k (n_answers w))"

lemma usesI: "n_answers w' = drop k (n_answers w) \<Longrightarrow> uses w w'"
  unfolding uses_def by blast

lemma uses_length: "uses w w' \<Longrightarrow> length (n_answers w') \<le> length (n_answers w)"
  by (auto simp: uses_def)

lemma uses_set: "uses w w' \<Longrightarrow> set (n_answers w') \<subseteq> set (n_answers w)"
  by (auto simp: uses_def dest: in_set_dropD)

lemma uses_refl [simp]: "uses w w"
  by (rule usesI [of _ 0]) simp

lemma uses_trans: "uses a b \<Longrightarrow> uses b c \<Longrightarrow> uses a c"
  by (auto simp: uses_def)

lemma uses_fields [simp]: "uses w (w'\<lparr>n_calls := c\<rparr>) = uses w w'" "uses w (w'\<lparr>sNextTransactionId := x\<rparr>) = uses w w'"
  "uses (w\<lparr>sNextTransactionId := x\<rparr>) w' = uses w w'" "uses w (snd (now w')) = uses w w'" "uses (snd (now w)) w' = uses w w'"
  by (simp_all add: uses_def)

lemma uses_net_answer: "net_answer w = (a, w1) \<Longrightarrow> uses w w1"
  by (rule usesI [of _ 1]) (auto simp: net_answer_def split: list.splits)

lemma uses_net_call [uses_less]: "net_call c w = (r, d, w1) \<Longrightarrow> uses w w1"
  using uses_net_answer [of w] by (cases "net_answer w") (auto simp: net_call_def uses_def split: reply.splits)

lemma uses_net_read [uses_less]: "net_read c n w = (r, d, w1) \<Longrightarrow> uses w w1"
  using uses_net_answer [of w] by (cases "net_answer w") (auto simp: net_read_def uses_def split: reply.splits)

lemma uses_nl_send [uses_less]: "nl_send fd r w = Some (s, w1) \<Longrightarrow> uses w w1"
  by (auto simp: nl_send_def split: if_splits prod.splits dest: uses_less)

lemma uses_setAddress [uses_less]: "setAddress a m i w = Some (r, w') \<Longrightarrow> uses w w'"
  by (auto simp: setAddress_def split: bind_splits if_splits prod.splits dest!: uses_less intro: uses_trans)

lemma uses_sendNetlink [uses_less]: "sendNetlinkMessage fd r w = Some (s, w') \<Longrightarrow> uses w w'"
  by (auto simp: sendNetlinkMessage_def split: bind_splits prod.splits dest!: uses_less)

lemma uses_gateway [uses_less]: "setDefaultGateway g x fd w = Some (s, w') \<Longrightarrow> uses w w'"
  by (auto simp: setDefaultGateway_def split: bind_splits dest!: uses_less)

lemma uses_if_ioctl [uses_less]: "if_ioctl i req nm w = (s, u, w') \<Longrightarrow> uses w w'"
  by (auto simp: if_ioctl_def split: prod.splits dest!: uses_less)

lemma uses_interface_up [uses_less]: "setInterfaceUp b i w = (r, w') \<Longrightarrow> uses w w'"
  by (auto simp: setInterfaceUp_def Let_def split: if_splits prod.splits dest!: uses_less intro: uses_trans)

lemma uses_bring [uses_less]: "bringUp i w = (r, w') \<Longrightarrow> uses w w'" "bringDown i w = (r, w') \<Longrightarrow> uses w w'"
  by (auto simp: bringUp_def bringDown_def dest!: uses_less)

lemma uses_setMtu [uses_less]: "setMtu m i w = (r, w') \<Longrightarrow> uses w w'"
  by (auto simp: setMtu_def Let_def split: prod.splits dest!: uses_less)

lemma uses_property: "uses w (property_set n v w)"
  by (cases "net_call (Net_property (take 63 n) v) w") (auto simp: property_set_def dest!: uses_less)

lemma uses_dns_properties: "uses w (set_dns_properties nm i as w)"
proof (induction as arbitrary: i w)
  case (Cons a as)
  then show ?case using uses_property uses_trans by fastforce
qed simp

lemma uses_properties: "uses w (set_properties c w)"
  unfolding set_properties_def Let_def by (rule uses_trans [OF uses_property uses_dns_properties])

lemma uses_apply_lease [uses_less]:
  assumes "apply_lease c w = Some (ok, w')"
  shows "uses w w'"
proof -
  obtain r1 w1 where 1: "bringUp (mInterface c) w = (r1, w1)" by fastforce
  then have u1: "uses w w1" by (rule uses_less)
  define w2 where "w2 = (if mtu (mDhcpInfo c) \<noteq> 0 then snd (setMtu (mtu (mDhcpInfo c)) (mInterface c) w1) else w1)"
  have "uses w1 w2" by (cases "setMtu (mtu (mDhcpInfo c)) (mInterface c) w1") (auto simp: w2_def dest!: uses_less)
  then have u3: "uses w (set_properties c w2)" using u1 uses_properties uses_trans by blast
  show ?thesis
  proof (cases "isSuccess r1")
    case False
    then show ?thesis using assms 1 u1 by (simp add: apply_lease_def)
  next
    case True
    then obtain r4 w4 where 4: "setAddress (offeredAddress (mDhcpInfo c)) (subnetMask (mDhcpInfo c)) (mInterface c) (set_properties c w2) = Some (r4, w4)"
      and rest: "(if \<not> isSuccess r4 then Some (False, w4)
          else if mOptions c AND 1 = 0 then do {
            (r5, w5) \<leftarrow> setDefaultGateway (gateway (mDhcpInfo c)) (i_index (mInterface c)) (mRouter c) w4;
            Some (isSuccess r5, w5)
          }
          else Some (True, w4)) = Some (ok, w')"
      using assms 1 by (auto simp: apply_lease_def Let_def w2_def [symmetric] split: bind_splits prod.splits)
    have "uses w w4" using uses_trans [OF u3 uses_setAddress [OF 4]] .
    moreover have "uses w4 w'" using rest by (auto split: if_splits bind_splits prod.splits dest!: uses_less)
    ultimately show ?thesis by (rule uses_trans)
  qed
qed

lemma uses_expire [uses_less]: "expireSeconds s w = (e, w') \<Longrightarrow> uses w w'"
  by (auto simp: expireSeconds_def Let_def split: prod.splits simp flip: surjective_pairing) (metis uses_fields(4) uses_refl snd_conv)

lemma uses_configure [uses_less]: "configureDhcp msg c w = Some (ok, c', w') \<Longrightarrow> uses w w'"
  by (auto simp: configureDhcp_def Let_def split: bind_splits if_splits prod.splits dest!: uses_less intro: uses_trans)

lemma uses_halt [uses_less]: "haltNetwork c w = Some w' \<Longrightarrow> uses w w'"
  by (auto simp: haltNetwork_def split: bind_splits prod.splits dest!: uses_less)
    (metis prod.collapse uses_bring(2) uses_trans)

lemma uses_receive [uses_less]: "receiveDhcpMessage c w = (g, m, w') \<Longrightarrow> uses w w'"
  by (auto simp: receiveDhcpMessage_def receiveRawUdp_def Let_def split: prod.splits if_splits dest!: uses_less)

lemma uses_handle_message [uses_less]: "handle_message msg c w = Some (d, c', w') \<Longrightarrow> uses w w'"
  by (auto simp: handle_message_def split: bind_splits if_splits prod.splits dest!: uses_less)

lemma uses_handle_input [uses_less]: "handle_input c w = Some (d, c', w') \<Longrightarrow> uses w w'"
  by (auto simp: handle_input_def split: prod.splits if_splits dest!: uses_less intro: uses_trans)

section \<open>Waiting\<close>

text \<open>One \<open>ppoll\<close> after the other with what is left of the timeout.\<close>

function wait_loop :: "u32 \<Rightarrow> DhcpClient \<Rightarrow> net \<Rightarrow> (DhcpClient \<times> net) option" where
  "wait_loop timeout c w =
     (let (startedAt, w1) = now w; (res, w2) = net_ppoll (mSocket c) timeout w1
      in if res = 0 then Some (c, w2)
         else
           (case (if 0 < res then handle_input c w2 else Some (False, c, w2)) of
              None \<Rightarrow> None
            | Some (done, c1, w3) \<Rightarrow>
                if done then Some (c1, w3)
                else
                  (let (currentTime, w4) = now w3; endTime = startedAt + ucast timeout
                   in if endTime \<le> currentTime then Some (c1, w4) else wait_loop (ucast (endTime - currentTime)) c1 w4)))"
  by pat_completeness auto

termination
proof (relation "measure (\<lambda>(timeout, c, w). length (n_answers w))")
  fix timeout :: u32 and c :: DhcpClient and w :: net and x :: "64 word \<times> net" and startedAt w1 and y :: "int \<times> net" and res w2
    and z :: "bool \<times> DhcpClient \<times> net" and dn and v :: "DhcpClient \<times> net" and c1 w3 and u :: "64 word \<times> net" and currentTime w4 endTime
  assume a: "x = now w" "(startedAt, w1) = x" "y = net_ppoll (mSocket c) timeout w1" "(res, w2) = y" "\<not> res = 0"
    "(if 0 < res then handle_input c w2 else Some (False, c, w2)) = Some z" "(dn, v) = z" "(c1, w3) = v"
    "u = now w3" "(currentTime, w4) = u"
  have 1: "n_answers w1 = n_answers w" using a(1,2) now_answers(1) [of w] by (metis snd_conv)
  have 2: "length (n_answers w2) < length (n_answers w1)" using a(3-5) net_ppoll_answers by metis
  have 3: "uses w2 w3" using a(6-8) by (auto split: if_splits dest: uses_less)
  have 4: "n_answers w4 = n_answers w3" using a(9,10) now_answers(1) [of w3] by (metis snd_conv)
  show "((ucast (endTime - currentTime), c1, w4), timeout, c, w) \<in> measure (\<lambda>(timeout, c, w). length (n_answers w))"
    using 1 2 uses_length [OF 3] 4 by simp
qed simp

declare wait_loop.simps [simp del]

definition waitAndReceive :: "DhcpClient \<Rightarrow> net \<Rightarrow> (DhcpClient \<times> net) option" where
  "waitAndReceive c w =
     (if mNextTimeout c = kNoTimeout then Some (c, w)
      else (let (timeout, w1) = calculateTimeoutMillis c w in wait_loop timeout c w1))"

section \<open>The loop of run\<close>

text \<open>The \<open>switch\<close> over the state.\<close>

definition act :: "DhcpClient \<Rightarrow> net \<Rightarrow> (DhcpClient \<times> net) option" where
  "act c w =
     (case mState c of
        Init \<Rightarrow> Some (setNextState Selecting c, w)
      | Selecting \<Rightarrow> do { (c1, w1) \<leftarrow> sendDhcpDiscover c w; Some (increaseTimeout c1, w1) }
      | Requesting \<Rightarrow>
          if kMaxTimeout \<le> mNextTimeout c then Some (setNextState Init c, w)
          else do { (c1, w1) \<leftarrow> sendDhcpRequest (mServerAddress c) c w; Some (increaseTimeout c1, w1) }
      | Bound \<Rightarrow>
          (let (e, w1) = expired (mT1 c) w
           in if e then Some (setNextState Renewing c, w1)
              else (let (r, w2) = remainingMillis (mT1 c) w1 in Some (c\<lparr>mNextTimeout := ucast r, mFuzzNextTimeout := False\<rparr>, w2)))
      | Renewing \<Rightarrow>
          (let (e, w1) = expired (mT2 c) w
           in if e then Some (setNextState Rebinding c, w1)
              else do { (c1, w2) \<leftarrow> sendDhcpRequest (mServerAddress c) c w1; Some (increaseTimeout c1, w2) })
      | Rebinding \<Rightarrow>
          if kMaxTimeout \<le> mNextTimeout c then Some (setNextState Init c, w)
          else do { (c1, w1) \<leftarrow> sendDhcpRequest INADDR_BROADCAST c w; Some (increaseTimeout c1, w1) })"

definition client_step :: "DhcpClient \<Rightarrow> net \<Rightarrow> (DhcpClient \<times> net) option" where
  "client_step c w = do { (c1, w1) \<leftarrow> act c w; waitAndReceive c1 w1 }"

text \<open>The first \<open>n\<close> passes; the start of \<open>run\<close> blocks all signals, and returns if it cannot.\<close>

fun client_run :: "nat \<Rightarrow> DhcpClient \<Rightarrow> net \<Rightarrow> (DhcpClient \<times> net) option" where
  "client_run 0 c w = Some (c, w)"
| "client_run (Suc n) c w = do { (c1, w1) \<leftarrow> client_step c w; client_run n c1 w1 }"

definition block_signals :: "net \<Rightarrow> Result \<times> net" where
  "block_signals w =
     (let (status, d, w1) = net_call Net_sigprocmask w
      in (if status \<noteq> 0 then Error ''Unable to set signal mask: '' else Success, w1))"

section \<open>main\<close>

text \<open>The arguments after the program's name: the interface and the options, or \<open>None\<close> for a usage message.\<close>

fun main_args :: "string list \<Rightarrow> string option \<Rightarrow> u32 \<Rightarrow> (string option \<times> u32) option" where
  "main_args [] interfaceName options = Some (interfaceName, options)"
| "main_args (arg # argv) interfaceName options =
     (if arg = ''-i'' then (case argv of [] \<Rightarrow> None | a # argv' \<Rightarrow> main_args argv' (Some a) options)
      else if arg = ''--no-gateway'' then main_args argv interfaceName (options OR 1)
      else None)"

text \<open>\<open>Inl\<close> is an exit code, \<open>Inr\<close> a client about to enter its loop.\<close>

definition dhcp_main :: "string list \<Rightarrow> net \<Rightarrow> ((nat + DhcpClient) \<times> net) option" where
  "dhcp_main argv w =
     (if length argv < 3 then Some (Inl 1, w)
      else (case main_args (tl argv) None 0 of
              Some (Some interfaceName, options) \<Rightarrow> do {
                (r, c, w1) \<leftarrow> DhcpClient_init interfaceName (DhcpClient_new options) w;
                if \<not> isSuccess r then Some (Inl 1, w1)
                else (let (r2, w2) = block_signals w1 in Some (if \<not> isSuccess r2 then Inl 1 else Inr c, w2))
              }
            | _ \<Rightarrow> Some (Inl 1, w)))"

end
