(* ===== verification/Dhcp_Options.thy ===== *)
theory Dhcp_Options
  imports Dhcp_Message
begin

text \<open>
  The options of a message as a list of codes with their data, how the code's bytes encode it, and what the
  operations of \<open>Message\<close> do to it. \<open>holds m os\<close>: the message has exactly the options \<open>os\<close> so far;
  \<open>ended m os\<close>: they are followed by the end mark.
\<close>

section \<open>The structure as bytes\<close>

named_theorems dhcp_simps \<open>sizes and fields of DHCP messages\<close>

lemma length_dhcp_bytes [dhcp_simps]: "wf_dhcp d \<Longrightarrow> length (dhcp_bytes d) = sizeof_dhcp"
  by (simp add: dhcp_bytes_def wf_dhcp_def)

lemma dhcp_header: "wf_dhcp d \<Longrightarrow> \<exists>h. dhcp_bytes d = h @ d_options d \<and> length h = options_offset"
  by (rule exI [where x = "take options_offset (dhcp_bytes d)"]) (simp add: dhcp_bytes_def wf_dhcp_def)

lemma dhcp_at_bytes [dhcp_simps]: "wf_dhcp d \<Longrightarrow> dhcp_at (dhcp_bytes d @ r) = d"
  by (cases d) (simp add: dhcp_at_def dhcp_bytes_def wf_dhcp_def le16_def le32_def get16_def get32_def nth_append get_le16 get_le32)

lemma dhcp_at_bytes' [dhcp_simps]: "wf_dhcp d \<Longrightarrow> dhcp_at (dhcp_bytes d) = d"
  using dhcp_at_bytes [of d "[]"] by simp

lemma wf_dhcp_at [dhcp_simps]: "sizeof_dhcp \<le> length b \<Longrightarrow> wf_dhcp (dhcp_at b)"
  by (simp add: wf_dhcp_def dhcp_at_def)

lemma wf_zero [dhcp_simps]: "wf_dhcp zero_dhcp"
  by (simp add: wf_dhcp_def zero_dhcp_def)

lemma dhcp_bytes_options:
  "wf_dhcp d \<Longrightarrow> dhcp_bytes (d\<lparr>d_options := opts\<rparr>) = take options_offset (dhcp_bytes d) @ opts"
  by (simp add: dhcp_bytes_def wf_dhcp_def)

lemma put_bytes_options:
  assumes "wf_dhcp (dhcpData m)" and "mSize m = options_offset + k" and "k + length bs \<le> sizeof_options"
  shows "put_bytes bs m = Some \<lparr>dhcpData = (dhcpData m)\<lparr>d_options :=
      take k (d_options (dhcpData m)) @ bs @ drop (k + length bs) (d_options (dhcpData m))\<rparr>, mSize = mSize m + length bs\<rparr>"
proof -
  let ?d = "dhcpData m" and ?o = "take k (d_options (dhcpData m)) @ bs @ drop (k + length bs) (d_options (dhcpData m))"
  obtain h where h: "dhcp_bytes ?d = h @ d_options ?d" "length h = options_offset"
    using dhcp_header [OF assms(1)] by blast
  have "buf_write (dhcp_bytes ?d) (mSize m) bs = Some (h @ ?o)"
    using assms h by (simp add: buf_write_def wf_dhcp_def)
  moreover have "h @ ?o = dhcp_bytes (?d\<lparr>d_options := ?o\<rparr>)"
    using dhcp_bytes_options [OF assms(1), of ?o] h by simp
  moreover have "wf_dhcp (?d\<lparr>d_options := ?o\<rparr>)"
    using assms by (simp add: wf_dhcp_def)
  ultimately show ?thesis
    by (simp add: put_bytes_def dhcp_at_bytes')
qed

section \<open>Options as a list\<close>

type_synonym dhcp_option = "u8 \<times> u8 list"

fun enc_opts :: "dhcp_option list \<Rightarrow> u8 list" where
  "enc_opts [] = []"
| "enc_opts ((c, d) # os) = c # of_nat (length d) # d @ enc_opts os"

definition valid_opts :: "dhcp_option list \<Rightarrow> bool" where
  "valid_opts os \<longleftrightarrow> list_all (\<lambda>(c, d). c \<noteq> OPT_END \<and> length d < 256) os"

lemma valid_opts_simps [simp]:
  "valid_opts []" "valid_opts ((c, d) # os) \<longleftrightarrow> c \<noteq> OPT_END \<and> length d < 256 \<and> valid_opts os"
  "valid_opts (os @ os') \<longleftrightarrow> valid_opts os \<and> valid_opts os'"
  by (auto simp: valid_opts_def)

lemma enc_opts_append [simp]: "enc_opts (os @ os') = enc_opts os @ enc_opts os'"
  by (induction os rule: enc_opts.induct) simp_all

definition holds :: "Message \<Rightarrow> dhcp_option list \<Rightarrow> bool" where
  "holds m os \<longleftrightarrow> wf_dhcp (dhcpData m) \<and> mSize m = options_offset + length (DHCP_COOKIE @ enc_opts os) \<and>
     (\<exists>rest. d_options (dhcpData m) = (DHCP_COOKIE @ enc_opts os) @ rest)"

definition ended :: "Message \<Rightarrow> dhcp_option list \<Rightarrow> bool" where
  "ended m os \<longleftrightarrow> wf_dhcp (dhcpData m) \<and> valid_opts os \<and>
     mSize m = options_offset + length (DHCP_COOKIE @ enc_opts os @ [OPT_END]) \<and>
     (\<exists>rest. d_options (dhcpData m) = (DHCP_COOKIE @ enc_opts os @ [OPT_END]) @ rest)"

text \<open>\<open>same_header m m'\<close>: the messages differ in their options and size only.\<close>

definition same_header :: "Message \<Rightarrow> Message \<Rightarrow> bool" where
  "same_header m m' \<longleftrightarrow> (\<exists>opts. dhcpData m' = (dhcpData m)\<lparr>d_options := opts\<rparr>)"

lemma same_header_refl [simp]: "same_header m m"
  by (auto simp: same_header_def intro!: exI [of _ "d_options (dhcpData m)"])

lemma same_header_trans: "same_header a b \<Longrightarrow> same_header b c \<Longrightarrow> same_header a c"
  by (auto simp: same_header_def)

lemma same_header_fields:
  assumes "same_header m m'"
  shows "d_op (dhcpData m') = d_op (dhcpData m)" "d_htype (dhcpData m') = d_htype (dhcpData m)" "d_hlen (dhcpData m') = d_hlen (dhcpData m)"
    "d_xid (dhcpData m') = d_xid (dhcpData m)" "d_yiaddr (dhcpData m') = d_yiaddr (dhcpData m)" "d_chaddr (dhcpData m') = d_chaddr (dhcpData m)"
    "d_flags (dhcpData m') = d_flags (dhcpData m)" "d_giaddr (dhcpData m') = d_giaddr (dhcpData m)"
  using assms by (auto simp: same_header_def)

lemma put_bytes_holds:
  assumes "holds m os" and "length (DHCP_COOKIE @ enc_opts os) + length bs \<le> sizeof_options"
  shows "\<exists>opts rest. put_bytes bs m = Some \<lparr>dhcpData = (dhcpData m)\<lparr>d_options := opts\<rparr>, mSize = mSize m + length bs\<rparr> \<and>
    opts = DHCP_COOKIE @ enc_opts os @ bs @ rest \<and> length opts = sizeof_options"
proof -
  let ?k = "length (DHCP_COOKIE @ enc_opts os)"
  obtain rest where r: "d_options (dhcpData m) = (DHCP_COOKIE @ enc_opts os) @ rest" "length (d_options (dhcpData m)) = sizeof_options"
    using assms(1) by (auto simp: holds_def wf_dhcp_def)
  have "put_bytes bs m = Some \<lparr>dhcpData = (dhcpData m)\<lparr>d_options := DHCP_COOKIE @ enc_opts os @ bs @ drop (length bs) rest\<rparr>,
      mSize = mSize m + length bs\<rparr>"
    using put_bytes_options [of m ?k bs] assms r by (simp add: holds_def)
  then show ?thesis using r assms(2) by auto
qed

lemma addOption_holds:
  assumes "holds m os" and "length d < 256" and "length (enc_opts os) + length d + 6 \<le> sizeof_options" and "n = of_nat (length d)"
  shows "\<exists>m'. addOption c d n m = Some m' \<and> holds m' (os @ [(c, d)]) \<and> same_header m m'"
proof -
  have n: "unat n = length d" using assms(2,4) by (simp add: unat_of_nat)
  have l: "length (DHCP_COOKIE @ enc_opts os) + length (c # n # d) \<le> sizeof_options"
    using assms(3) by (simp add: DHCP_COOKIE_def)
  obtain opts rest where p: "put_bytes (c # n # d) m = Some \<lparr>dhcpData = (dhcpData m)\<lparr>d_options := opts\<rparr>, mSize = mSize m + length (c # n # d)\<rparr>"
      "opts = DHCP_COOKIE @ enc_opts os @ (c # n # d) @ rest" "length opts = sizeof_options"
    using put_bytes_holds [OF assms(1) l] by blast
  have "addOption c d n m = Some \<lparr>dhcpData = (dhcpData m)\<lparr>d_options := opts\<rparr>, mSize = mSize m + length (c # n # d)\<rparr>"
    using p(1) n by (simp add: addOption_def)
  moreover have "holds \<lparr>dhcpData = (dhcpData m)\<lparr>d_options := opts\<rparr>, mSize = mSize m + length (c # n # d)\<rparr> (os @ [(c, d)])"
    using assms(1,4) p by (simp add: holds_def wf_dhcp_def)
  ultimately show ?thesis by (auto simp: same_header_def)
qed

lemma endOptions_holds:
  assumes "holds m os" and "valid_opts os" and "length (enc_opts os) + 5 \<le> sizeof_options"
  shows "\<exists>m'. endOptions m = Some m' \<and> ended m' os \<and> same_header m m'"
proof -
  have l: "length (DHCP_COOKIE @ enc_opts os) + length [OPT_END] \<le> sizeof_options"
    using assms(3) by (simp add: DHCP_COOKIE_def)
  obtain opts rest where p: "put_bytes [OPT_END] m = Some \<lparr>dhcpData = (dhcpData m)\<lparr>d_options := opts\<rparr>, mSize = mSize m + length [OPT_END]\<rparr>"
      "opts = DHCP_COOKIE @ enc_opts os @ [OPT_END] @ rest" "length opts = sizeof_options"
    using put_bytes_holds [OF assms(1) l] by blast
  have "ended \<lparr>dhcpData = (dhcpData m)\<lparr>d_options := opts\<rparr>, mSize = mSize m + 1\<rparr> os"
    using assms(1,2) p by (simp add: ended_def holds_def wf_dhcp_def)
  then show ?thesis using p(1) by (auto simp: endOptions_def same_header_def)
qed

lemma Message_new_holds:
  assumes "length mac = ETH_ALEN"
  shows "holds (fst (Message_new op mac typ x)) [(OPT_MESSAGE_TYPE, [typ])]"
  using assms by (simp add: Message_new_def holds_def wf_dhcp_def zero_dhcp_def DHCP_COOKIE_def)

section \<open>Finding an option\<close>

lemma find_option_code:
  assumes "valid_opts os" and "c \<noteq> OPT_END" and "opts = pre @ enc_opts os @ OPT_END # rest"
    and "n = length pre + length (enc_opts os) + 1"
  shows "case map_of os c of
      None \<Rightarrow> find_option c opts n (length pre) = Some None
    | Some d \<Rightarrow> \<exists>p. find_option c opts n (length pre) = Some (Some (p, of_nat (length d))) \<and> (\<exists>rst. drop p opts = d @ rst)"
  using assms(1,3,4)
proof (induction os arbitrary: pre)
  case Nil
  then show ?case by (simp add: find_option.simps)
next
  case (Cons o1 os)
  obtain k d where o1: "o1 = (k, d)" by (cases o1)
  have k: "k \<noteq> OPT_END" "length d < 256" "valid_opts os" using Cons.prems(1) by (simp_all add: o1)
  have at: "opts ! length pre = k" "opts ! Suc (length pre) = of_nat (length d)" "Suc (length pre) < length opts"
    using Cons.prems(2) by (simp_all add: o1 nth_append)
  have big: "length pre + 2 < n" using Cons.prems(3) by (simp add: o1)
  show ?case
  proof (cases "k = c")
    case True
    then have "find_option c opts n (length pre) = Some (Some (length pre + 2, of_nat (length d)))"
      using at big assms(2) by (subst find_option.simps) simp
    moreover have "drop (length pre + 2) opts = d @ (enc_opts os @ OPT_END # rest)"
      using Cons.prems(2) by (simp add: o1)
    ultimately show ?thesis using True by (auto simp: o1)
  next
    case False
    let ?pre = "pre @ [k, of_nat (length d)] @ d"
    have e: "find_option c opts n (length pre) = find_option c opts n (length ?pre)"
      using at big k False by (subst find_option.simps) (simp add: unat_of_nat add.commute)
    have o: "opts = ?pre @ enc_opts os @ OPT_END # rest" "n = length ?pre + length (enc_opts os) + 1"
      and m: "map_of (o1 # os) c = map_of os c"
      using Cons.prems False by (simp_all add: o1)
    show ?thesis unfolding e m by (rule Cons.IH [OF k(3) o])
  qed
qed

lemma getOption_ended:
  assumes "ended m os" and "c \<noteq> OPT_END"
  shows "map_of os c = None \<Longrightarrow> getOption c m = Some None"
    and "map_of os c = Some d \<Longrightarrow> \<exists>p rst. getOption c m = Some (Some (p, of_nat (length d))) \<and> drop p (d_options (dhcpData m)) = d @ rst"
proof -
  obtain rest where r: "d_options (dhcpData m) = DHCP_COOKIE @ enc_opts os @ OPT_END # rest" "valid_opts os"
      "optionsSize m = length DHCP_COOKIE + length (enc_opts os) + 1"
    using assms(1) by (auto simp: ended_def optionsSize_def)
  have 4: "length DHCP_COOKIE = 4" by (simp add: DHCP_COOKIE_def)
  note f = find_option_code [OF r(2) assms(2) r(1) r(3), folded 4, unfolded 4]
  show "map_of os c = None \<Longrightarrow> getOption c m = Some None"
    and "map_of os c = Some d \<Longrightarrow> \<exists>p rst. getOption c m = Some (Some (p, of_nat (length d))) \<and> drop p (d_options (dhcpData m)) = d @ rst"
    using f by (auto simp: getOption_def)
qed

lemma drop_bytes:
  assumes "drop p xs = d @ rst" and "d \<noteq> []"
  shows "p + length d \<le> length xs" "i < length d \<Longrightarrow> xs ! (p + i) = d ! i"
proof -
  have "p < length xs" using assms by (metis append_is_Nil_conv drop_all not_less)
  moreover have "length xs - p = length d + length rst" using assms(1) by (metis length_append length_drop)
  ultimately show l: "p + length d \<le> length xs" by simp
  have "xs ! (p + i) = drop p xs ! i" using \<open>p < length xs\<close> by simp
  then show "i < length d \<Longrightarrow> xs ! (p + i) = d ! i" using assms(1) by (simp add: nth_append)
qed

lemma message_type_ended:
  assumes "ended m os" and "map_of os OPT_MESSAGE_TYPE = Some [t]"
  shows "message_type m = Some t"
proof -
  obtain p rst where "getOption OPT_MESSAGE_TYPE m = Some (Some (p, of_nat (length [t])))" "drop p (d_options (dhcpData m)) = [t] @ rst"
    using getOption_ended(2) [OF assms(1) _ assms(2)] by auto
  then show ?thesis using drop_bytes(1) [of p "d_options (dhcpData m)" "[t]" rst]
      drop_bytes(2) [of p "d_options (dhcpData m)" "[t]" rst 0] by (simp add: message_type_def opt_byte_def)
qed

lemma get32_drop:
  assumes "drop p xs = le32 a @ rst"
  shows "p + 4 \<le> length xs" "get32 xs p = a"
proof -
  have "le32 a \<noteq> []" by (simp add: le32_def)
  note l = drop_bytes [OF assms this]
  show "p + 4 \<le> length xs" using l(1) by (simp add: le32_def)
  show "get32 xs p = a"
    using l(2) [of 0] l(2) [of 1] l(2) [of 2] l(2) [of 3] by (simp add: le32_def get32_def get_le32)
qed

lemma address_option_ended:
  assumes "ended m os" and "c \<noteq> OPT_END" and "map_of os c = Some (le32 a)"
  shows "address_option c m = Some a"
proof -
  obtain p rst where "getOption c m = Some (Some (p, of_nat (length (le32 a))))" "drop p (d_options (dhcpData m)) = le32 a @ rst"
    using getOption_ended(2) [OF assms] by auto
  then show ?thesis using get32_drop [of p _ a rst] by (simp add: address_option_def opt_word_def)
qed

lemma ended_cookie: "ended m os \<Longrightarrow> take 4 (d_options (dhcpData m)) = DHCP_COOKIE \<and> options_offset + 5 \<le> mSize m"
  by (auto simp: ended_def DHCP_COOKIE_def)

section \<open>The messages of the code\<close>

text \<open>Adding the options of a list one after the other, and the end.\<close>

fun add_all :: "dhcp_option list \<Rightarrow> Message \<Rightarrow> Message option" where
  "add_all [] m = endOptions m"
| "add_all ((c, d) # os) m = addOption c d (of_nat (length d)) m \<bind> add_all os"

lemma add_all_ended:
  "holds m os \<Longrightarrow> valid_opts (os @ os') \<Longrightarrow> length (enc_opts (os @ os')) + 6 \<le> sizeof_options \<Longrightarrow>
   \<exists>m'. add_all os' m = Some m' \<and> ended m' (os @ os') \<and> same_header m m'"
proof (induction os' arbitrary: m os)
  case Nil
  then show ?case using endOptions_holds [of m os] by auto
next
  case (Cons a os')
  obtain c d where a: "a = (c, d)" by (cases a)
  have "length d < 256" "length (enc_opts os) + length d + 6 \<le> sizeof_options" using Cons.prems by (simp_all add: a)
  from addOption_holds [OF Cons.prems(1) this refl] obtain m1 where
    1: "addOption c d (of_nat (length d)) m = Some m1" "holds m1 (os @ [(c, d)])" and h: "same_header m m1" by blast
  from Cons.IH [OF 1(2)] Cons.prems(2,3) obtain m' where "add_all os' m1 = Some m'" "ended m' ((os @ [(c, d)]) @ os')" "same_header m1 m'"
    by (auto simp: a)
  then show ?case using 1(1) same_header_trans [OF h] by (auto simp: a)
qed

lemma addOption_addr_eq: "addOption_addr c a m = addOption c (le32 a) (of_nat (length (le32 a))) m"
  by (simp add: addOption_addr_def)

lemma addOption_items_eq: "length d < 256 \<Longrightarrow> addOption_items c d m = addOption c d (of_nat (length d)) m"
  by (simp add: addOption_items_def addOption_def unat_of_nat)

definition request_options :: "u32 \<Rightarrow> u32 \<Rightarrow> dhcp_option list" where
  "request_options requestAddress serverAddress = [(OPT_MESSAGE_TYPE, [DHCPREQUEST]), (OPT_PARAMETER_LIST, kRequestParameters),
     (OPT_REQUESTED_IP, le32 requestAddress), (OPT_SERVER_ID, le32 serverAddress)]"

definition discover_options :: "dhcp_option list" where
  "discover_options = [(OPT_MESSAGE_TYPE, [DHCPDISCOVER]), (OPT_PARAMETER_LIST, kRequestParameters)]"

definition lease_options :: "u8 \<Rightarrow> u32 \<Rightarrow> u32 \<Rightarrow> u32 \<Rightarrow> u32 list \<Rightarrow> dhcp_option list" where
  "lease_options typ serverAddress netmask gateway dns = [(OPT_MESSAGE_TYPE, [typ]), (OPT_SERVER_ID, le32 serverAddress),
     (OPT_LEASE_TIME, le32 kDefaultLeaseTime), (OPT_SUBNET_MASK, le32 netmask), (OPT_GATEWAY, le32 gateway),
     (OPT_DNS, concat (map le32 dns))]"

lemma length_addrs [simp]: "length (concat (map le32 as)) = length as * 4"
  by (induction as) simp_all

lemma discover_ended:
  assumes "length mac = ETH_ALEN"
  shows "\<exists>m. discover mac x = Some (m, x + 1) \<and> ended m discover_options \<and>
    same_header (fst (Message_new OP_BOOTREQUEST mac DHCPDISCOVER x)) m"
proof -
  obtain m' where "add_all [(OPT_PARAMETER_LIST, kRequestParameters)] (fst (Message_new OP_BOOTREQUEST mac DHCPDISCOVER x)) = Some m'"
      "ended m' ([(OPT_MESSAGE_TYPE, [DHCPDISCOVER])] @ [(OPT_PARAMETER_LIST, kRequestParameters)])"
      "same_header (fst (Message_new OP_BOOTREQUEST mac DHCPDISCOVER x)) m'"
    using add_all_ended [OF Message_new_holds [OF assms, of OP_BOOTREQUEST DHCPDISCOVER x], of "[(OPT_PARAMETER_LIST, kRequestParameters)]"]
    by (auto simp: kRequestParameters_def)
  moreover have "snd (Message_new OP_BOOTREQUEST mac DHCPDISCOVER x) = x + 1" by (simp add: Message_new_def)
  ultimately show ?thesis
    by (auto simp: discover_def discover_options_def addOption_items_eq kRequestParameters_def split: prod.split bind_splits)
qed

lemma request_ended:
  assumes "length mac = ETH_ALEN"
  shows "\<exists>m. request mac a s x = Some (m, x + 1) \<and> ended m (request_options a s) \<and>
    same_header (fst (Message_new OP_BOOTREQUEST mac DHCPREQUEST x)) m"
proof -
  let ?os = "[(OPT_PARAMETER_LIST, kRequestParameters), (OPT_REQUESTED_IP, le32 a), (OPT_SERVER_ID, le32 s)]"
  obtain m' where "add_all ?os (fst (Message_new OP_BOOTREQUEST mac DHCPREQUEST x)) = Some m'"
      "ended m' ([(OPT_MESSAGE_TYPE, [DHCPREQUEST])] @ ?os)" "same_header (fst (Message_new OP_BOOTREQUEST mac DHCPREQUEST x)) m'"
    using add_all_ended [OF Message_new_holds [OF assms, of OP_BOOTREQUEST DHCPREQUEST x], of ?os]
    by (auto simp: kRequestParameters_def)
  moreover have "snd (Message_new OP_BOOTREQUEST mac DHCPREQUEST x) = x + 1" by (simp add: Message_new_def)
  ultimately show ?thesis
    by (auto simp: request_def request_options_def addOption_items_eq addOption_addr_eq kRequestParameters_def split: prod.split bind_splits)
qed

text \<open>The head of a reply: the fields copied from the message it answers.\<close>

definition reply_head :: "u8 \<Rightarrow> Message \<Rightarrow> u32 \<Rightarrow> Message" where
  "reply_head typ src yiaddr =
     (let m = fst (Message_new OP_BOOTREPLY (take ETH_ALEN (d_chaddr (dhcpData src))) typ 0)
      in m\<lparr>dhcpData := (dhcpData m)\<lparr>d_xid := d_xid (dhcpData src), d_flags := d_flags (dhcpData src),
           d_yiaddr := yiaddr, d_giaddr := d_giaddr (dhcpData src)\<rparr>\<rparr>)"

lemma reply_head_holds:
  "wf_dhcp (dhcpData src) \<Longrightarrow> holds (reply_head t src y) [(OPT_MESSAGE_TYPE, [t])]"
  by (simp add: reply_head_def Message_new_def holds_def wf_dhcp_def zero_dhcp_def DHCP_COOKIE_def Let_def)

lemma lease_reply_ended:
  assumes "wf_dhcp (dhcpData src)" and "length dns < 64"
  shows "\<exists>m. lease_reply t src s a nmask gw dns (length dns) x = Some (m, x + 1) \<and> ended m (lease_options t s nmask gw dns) \<and>
    same_header (reply_head t src a) m"
proof -
  let ?os = "[(OPT_SERVER_ID, le32 s), (OPT_LEASE_TIME, le32 kDefaultLeaseTime), (OPT_SUBNET_MASK, le32 nmask), (OPT_GATEWAY, le32 gw),
     (OPT_DNS, concat (map le32 dns))]"
  obtain m where "add_all ?os (reply_head t src a) = Some m" "ended m ([(OPT_MESSAGE_TYPE, [t])] @ ?os)" "same_header (reply_head t src a) m"
    using add_all_ended [OF reply_head_holds [OF assms(1), of t a], of ?os] assms(2) by auto
  then show ?thesis
    by (auto simp: lease_reply_def lease_options_def addOption_addr_eq reply_head_def Message_new_def Let_def split: bind_splits)
qed

lemma nack_ended:
  assumes "wf_dhcp (dhcpData src)"
  shows "\<exists>m. nack src s x = Some (m, x + 1) \<and> ended m [(OPT_MESSAGE_TYPE, [DHCPNAK]), (OPT_SERVER_ID, le32 s)] \<and>
    same_header (reply_head DHCPNAK src 0) m"
proof -
  obtain m where "add_all [(OPT_SERVER_ID, le32 s)] (reply_head DHCPNAK src 0) = Some m"
      "ended m ([(OPT_MESSAGE_TYPE, [DHCPNAK])] @ [(OPT_SERVER_ID, le32 s)])" "same_header (reply_head DHCPNAK src 0) m"
    using add_all_ended [OF reply_head_holds [OF assms, of DHCPNAK 0], of "[(OPT_SERVER_ID, le32 s)]"] by auto
  then show ?thesis
    by (auto simp: nack_def addOption_addr_eq reply_head_def Message_new_def zero_dhcp_def Let_def split: bind_splits)
qed

lemma reply_head_fields:
  "d_op (dhcpData (reply_head t src a)) = OP_BOOTREPLY" "d_htype (dhcpData (reply_head t src a)) = HTYPE_ETHER"
  "d_hlen (dhcpData (reply_head t src a)) = 6" "d_xid (dhcpData (reply_head t src a)) = d_xid (dhcpData src)"
  "d_yiaddr (dhcpData (reply_head t src a)) = a"
  by (simp_all add: reply_head_def Message_new_def Let_def)

section \<open>Reading back\<close>

lemma valid_ended:
  assumes "ended m os" and "d_op (dhcpData m) = oper" and "d_htype (dhcpData m) = HTYPE_ETHER" and "d_hlen (dhcpData m) = 6"
  shows "isValidDhcpMessage oper x m \<longleftrightarrow> d_xid (dhcpData m) = x"
  using ended_cookie [OF assms(1)] assms(2-4) by (simp add: isValidDhcpMessage_def isValidDhcpMessage_op_def)

text \<open>C36: What a message was built with is what it is read with. A request to any server for any address is a
  valid request under its own transaction id and no other, and gives back its type, the address and the
  server; an offer or acknowledgement of any lease with at most 63 name servers, built in answer to any
  message, is a valid reply under exactly that message's transaction id, and gives back its type, the
  server, the offered address and that no address was requested.\<close>

theorem message_reads_back:
  assumes "length mac = ETH_ALEN" and "wf_dhcp (dhcpData src)" and "length dns < 64" and "t \<in> {DHCPOFFER, DHCPACK}"
  shows "\<exists>req rep. request mac want server x = Some (req, x + 1) \<and>
    lease_reply t src server lease nmask gw dns (length dns) x = Some (rep, x + 1) \<and>
    (isValidDhcpMessage OP_BOOTREQUEST y req \<longleftrightarrow> y = htonl x) \<and> message_type req = Some DHCPREQUEST \<and>
    requestedIp req = Some want \<and> serverId req = Some server \<and>
    (isValidDhcpMessage OP_BOOTREPLY y rep \<longleftrightarrow> y = d_xid (dhcpData src)) \<and> message_type rep = Some t \<and>
    serverId rep = Some server \<and> d_yiaddr (dhcpData rep) = lease \<and> requestedIp rep = Some 0"
proof -
  obtain req where req: "request mac want server x = Some (req, x + 1)" "ended req (request_options want server)"
    and hq: "same_header (fst (Message_new OP_BOOTREQUEST mac DHCPREQUEST x)) req"
    using request_ended [OF assms(1)] by blast
  obtain rep where rep: "lease_reply t src server lease nmask gw dns (length dns) x = Some (rep, x + 1)"
      "ended rep (lease_options t server nmask gw dns)" and hp: "same_header (reply_head t src lease) rep"
    using lease_reply_ended [OF assms(2,3)] by blast
  have "isValidDhcpMessage OP_BOOTREQUEST y req \<longleftrightarrow> y = htonl x"
    using valid_ended [OF req(2)] same_header_fields [OF hq] by (auto simp: Message_new_def)
  moreover have "isValidDhcpMessage OP_BOOTREPLY y rep \<longleftrightarrow> y = d_xid (dhcpData src)"
    using valid_ended [OF rep(2)] same_header_fields [OF hp] by (auto simp: reply_head_fields)
  moreover have "message_type req = Some DHCPREQUEST"
    by (rule message_type_ended [OF req(2)]) (simp add: request_options_def)
  moreover have "message_type rep = Some t"
    by (rule message_type_ended [OF rep(2)]) (simp add: lease_options_def)
  moreover have "requestedIp req = Some want" unfolding requestedIp_def
    by (rule address_option_ended [OF req(2)]) (simp_all add: request_options_def)
  moreover have "serverId req = Some server" unfolding serverId_def
    by (rule address_option_ended [OF req(2)]) (simp_all add: request_options_def)
  moreover have "serverId rep = Some server" unfolding serverId_def
    by (rule address_option_ended [OF rep(2)]) (simp_all add: lease_options_def)
  moreover have "requestedIp rep = Some 0"
    using getOption_ended(1) [OF rep(2), of OPT_REQUESTED_IP] by (simp add: requestedIp_def address_option_def lease_options_def)
  ultimately show ?thesis
    using req(1) rep(1) same_header_fields [OF hp] by (auto simp: reply_head_fields)
qed

theorem message_reads_back_witness:
  "\<exists>req rep. request [2, 0, 0, 0, 0, 1] 0x0F02000A 0x0202000A 7 = Some (req, 7 + 1) \<and>
    lease_reply DHCPACK (Message_empty\<lparr>dhcpData := zero_dhcp\<lparr>d_xid := 9\<rparr>\<rparr>) 0x0202000A 0x0F02000A 0x00FFFFFF 0x0202000A [0x08080808] (length [0x08080808 :: u32]) 7 =
      Some (rep, 7 + 1) \<and>
    (isValidDhcpMessage OP_BOOTREQUEST 9 req \<longleftrightarrow> 9 = htonl 7) \<and> message_type req = Some DHCPREQUEST \<and>
    requestedIp req = Some 0x0F02000A \<and> serverId req = Some 0x0202000A \<and>
    (isValidDhcpMessage OP_BOOTREPLY 9 rep \<longleftrightarrow> 9 = d_xid (dhcpData (Message_empty\<lparr>dhcpData := zero_dhcp\<lparr>d_xid := 9\<rparr>\<rparr>))) \<and>
    message_type rep = Some DHCPACK \<and>
    serverId rep = Some 0x0202000A \<and> d_yiaddr (dhcpData rep) = 0x0F02000A \<and> requestedIp rep = Some 0"
  by (rule message_reads_back) (simp_all add: wf_dhcp_def zero_dhcp_def)

end
