(* ===== verification/Net_Packets.thy ===== *)
theory Net_Packets
  imports Net_Socket Dhcp_Options
begin

text \<open>
  What the packets of \<open>sendRawUdp\<close> are: their checksums are those of RFC 1071, and \<open>receiveRawUdp\<close> gets
  the message out of them again.
\<close>

section \<open>One's complement sums\<close>

text \<open>The sum of the 16-bit words in network order, an odd byte being the upper half of a word.\<close>

fun net_sum :: "u8 list \<Rightarrow> nat" where
  "net_sum (a # b # r) = 256 * unat a + unat b + net_sum r"
| "net_sum [a] = 256 * unat a"
| "net_sum [] = 0"

text \<open>The sum the code makes, in the order of the machine.\<close>

fun host_sum :: "u8 list \<Rightarrow> nat" where
  "host_sum (a # b # r) = unat a + 256 * unat b + host_sum r"
| "host_sum [a] = unat a"
| "host_sum [] = 0"

lemma host_net: "host_sum b mod 65535 = (256 * net_sum b) mod 65535"
proof (induction b rule: host_sum.induct)
  case (1 a b r)
  have "host_sum (a # b # r) mod 65535 = (unat a + 256 * unat b + host_sum r mod 65535) mod 65535" by (simp add: mod_simps)
  also have "\<dots> = (unat a + 256 * unat b + 256 * net_sum r) mod 65535" by (simp add: 1 mod_simps)
  also have "\<dots> = (256 * net_sum (a # b # r) - 65535 * unat a) mod 65535"
    by (simp add: algebra_simps)
  also have "\<dots> = (256 * net_sum (a # b # r)) mod 65535"
    using mod_mult_self2 [of "256 * net_sum (a # b # r) - 65535 * unat a" 65535 "unat a"] by (simp add: algebra_simps)
  finally show ?case .
next
  case (2 a)
  have "256 * net_sum [a] = unat a + 65535 * unat a" by simp
  then show ?case by (metis host_sum.simps(2) mod_mult_self2)
qed simp

lemma host_sum_zero_iff: "host_sum b mod 65535 = 0 \<longleftrightarrow> net_sum b mod 65535 = 0"
proof
  assume "host_sum b mod 65535 = 0"
  then have "(256 * (256 * net_sum b)) mod 65535 = 0" by (metis host_net mod_mult_right_eq mult_0_right mod_0)
  moreover have "256 * (256 * net_sum b) = net_sum b + 65535 * net_sum b" by simp
  ultimately show "net_sum b mod 65535 = 0" by (metis mod_mult_self2)
next
  assume "net_sum b mod 65535 = 0"
  then show "host_sum b mod 65535 = 0" using host_net [of b] by (metis mod_mult_right_eq mult_0_right mod_0)
qed

lemma host_sum_append: "even (length xs) \<Longrightarrow> host_sum (xs @ ys) = host_sum xs + host_sum ys"
  by (induction xs rule: host_sum.induct) simp_all

lemma host_sum_bound: "host_sum b \<le> 65535 * (length b div 2 + 1)"
proof (induction b rule: host_sum.induct)
  case (1 a b r)
  have "unat a < 256" "unat b < 256" using unsigned_less [of a] unsigned_less [of b] by simp_all
  then show ?case using 1 by simp
next
  case (2 a)
  have "unat a < 256" using unsigned_less [of a] by simp
  then show ?case by simp
qed simp

lemma sum_words_host:
  "unat c + host_sum b < 2 ^ 32 \<Longrightarrow> unat (sum_words b c) = unat c + host_sum b"
proof (induction b c rule: sum_words.induct)
  case (1 a b r c)
  have w: "unat (ucast (get16 [a, b] 0) :: u32) = unat a + 256 * unat b"
  proof -
    have "(ucast (get16 [a, b] 0) :: u32) = ucast a + 256 * ucast b"
    proof -
      have "(ucast (get16 [a, b] 0) :: u32) = ucast a OR push_bit 8 (ucast b)"
        by (rule word_eq_bits) (simp add: get16_def bitwise upt_16)
      also have "\<dots> = ucast a + push_bit 8 (ucast b)"
        by (rule disjunctive_add [symmetric]) (auto simp: bit_simps dest: bit_imp_le_length)
      finally show ?thesis by (simp add: push_bit_eq_mult mult.commute)
    qed
    moreover have "unat a < 256" "unat b < 256" using unsigned_less [of a] unsigned_less [of b] by simp_all
    ultimately show ?thesis by (simp add: unat_word_ariths unsigned_ucast_eq take_bit_nat_eq_self)
  qed
  have s: "unat (c + ucast (get16 [a, b] 0)) = unat c + (unat a + 256 * unat b)"
    using "1.prems" w by (simp add: unat_add_lem [THEN iffD1])
  show ?case using 1 s by simp
next
  case (2 a c)
  have "unat (ucast a :: u32) = unat a"
    using unsigned_less [of a, where ?'a = nat] by (simp add: unsigned_ucast_eq take_bit_nat_eq_self)
  then show ?case using 2 by (simp add: unat_add_lem [THEN iffD1])
qed simp

lemma fold_sum_props: "unat (fold_sum c) < 65536 \<and> unat (fold_sum c) mod 65535 = unat c mod 65535 \<and> (fold_sum c = 0 \<longleftrightarrow> c = 0)"
proof (induction c rule: fold_sum.induct)
  case (1 c)
  have m: "(0xFFFF :: u32) = mask 16" by (simp add: mask_eq_exp_minus_1)
  have l: "unat (c AND 0xFFFF) = unat c mod 65536"
    unfolding m by (simp only: take_bit_eq_mask [symmetric] unsigned_take_bit_eq) (simp add: take_bit_eq_mod)
  have h: "unat (drop_bit 16 c) = unat c div 65536"
    by (simp add: drop_bit_eq_div unat_div)
  have split: "unat c = 65536 * (unat c div 65536) + unat c mod 65536" by simp
  have c32: "unat c < 4294967296" using unsigned_less [of c, where ?'a = nat] by simp
  show ?case
  proof (cases "drop_bit 16 c = 0")
    case True
    then have "unat c < 65536" using h by simp
    with True show ?thesis by (simp add: fold_sum.simps [of c])
  next
    case False
    let ?c = "(c AND 0xFFFF) + drop_bit 16 c"
    have u: "unat ?c = unat c mod 65536 + unat c div 65536"
      using l h c32 by (subst unat_add_lem [THEN iffD1]) simp_all
    have "unat c mod 65535 = (unat ?c + 65535 * (unat c div 65536)) mod 65535"
      by (subst split) (simp add: u)
    then have "unat ?c mod 65535 = unat c mod 65535" by simp
    moreover have "?c \<noteq> 0"
    proof
      assume "?c = 0"
      then have "unat c div 65536 = 0" using u by simp
      then show False using False h by (metis unat_eq_zero)
    qed
    moreover have "c \<noteq> 0" using False by auto
    ultimately show ?thesis using 1 False by (simp add: fold_sum.simps [of c])
  qed
qed

lemma addChecksum_sum:
  assumes "unat c + host_sum b < 2 ^ 32"
  shows "unat (addChecksum b c) < 65536" "unat (addChecksum b c) mod 65535 = (unat c + host_sum b) mod 65535"
    "addChecksum b c = 0 \<longleftrightarrow> unat c + host_sum b = 0"
  using fold_sum_props [of "sum_words b c"] sum_words_host [OF assms] by (auto simp: addChecksum_def unat_eq_0 simp flip: unat_eq_0)

lemma finishChecksum_unat: "unat c < 65536 \<Longrightarrow> unat (ucast (finishChecksum c) :: u16) = 65535 - unat c"
proof -
  assume c: "unat c < 65536"
  have "(ucast (finishChecksum c) :: u16) = NOT (ucast c)"
    by (rule word_eq_bits) (simp add: finishChecksum_def bitwise upt_16)
  moreover have "unat (ucast c :: u16) = unat c"
    using c by (simp add: unsigned_ucast_eq take_bit_nat_eq_self)
  moreover have "unat (NOT (ucast c) :: u16) = 65535 - unat (ucast c :: u16)"
  proof -
    have "NOT (ucast c) = (- 1 :: u16) - ucast c" by (simp add: not_eq_complement)
    moreover have "ucast c \<le> (- 1 :: u16)" by simp
    moreover have "unat (- 1 :: u16) = 65535" by (simp add: unsigned_minus_1_eq_mask mask_eq_exp_minus_1)
    ultimately show ?thesis by (simp add: unat_sub)
  qed
  ultimately show ?thesis by simp
qed

lemma complement_zero:
  assumes "unat (c :: u32) < 65536" and "unat c mod 65535 = t mod 65535"
  shows "(t + unat (ucast (finishChecksum c) :: u16)) mod 65535 = 0"
proof -
  have "(t + (65535 - unat c)) mod 65535 = (unat c + (65535 - unat c)) mod 65535"
    using assms(2) by (metis mod_add_left_eq)
  then show ?thesis using assms(1) by (simp add: finishChecksum_unat)
qed

section \<open>The headers\<close>

lemma host_sum_le16: "host_sum (le16 k @ r) = unat k + host_sum r"
proof -
  have "k = ucast (ucast k :: u8) OR push_bit 8 (ucast (ucast (drop_bit 8 k) :: u8))" by (simp add: get_le16)
  also have "\<dots> = ucast (ucast k :: u8) + push_bit 8 (ucast (ucast (drop_bit 8 k) :: u8))"
    by (rule disjunctive_add [symmetric]) (auto simp: bit_simps dest: bit_imp_le_length)
  finally have k: "unat k = unat (ucast (ucast k :: u8) + 256 * ucast (ucast (drop_bit 8 k) :: u8) :: u16)"
    by (simp add: push_bit_eq_mult mult.commute)
  have "unat (ucast (x :: u8) + 256 * ucast (y :: u8) :: u16) = unat x + 256 * unat y" for x y
  proof -
    have "unat x < 256" "unat y < 256" using unsigned_less [of x] unsigned_less [of y] by simp_all
    then show ?thesis by (simp add: unat_word_ariths unsigned_ucast_eq take_bit_nat_eq_self)
  qed
  with k show ?thesis by (simp add: le16_def)
qed

lemma length_headers [simp]: "length (ip_header n k s d) = 20" "length (udp_header p q n k) = 8"
  by (simp_all add: ip_header_def udp_header_def)

lemma host_sum_ip_header: "host_sum (ip_header n k s d) = host_sum (ip_header n 0 s d) + unat k"
proof -
  define pre where "pre = [0x45, 0] @ le16 (htons (of_nat (20 + 8 + n))) @ le16 0 @ le16 0 @ [64, 17 :: u8]"
  have "even (length pre)" by (simp add: pre_def)
  moreover have "ip_header n k s d = pre @ le16 k @ le32 s @ le32 d" for k by (simp add: ip_header_def pre_def)
  ultimately show ?thesis by (simp add: host_sum_append host_sum_le16)
qed

lemma host_sum_udp_header: "host_sum (udp_header p q n k @ r) = host_sum (udp_header p q n 0) + unat k + host_sum r"
  using host_sum_le16 [of k "[]"] host_sum_le16 [of 0 "[]"] by (simp add: udp_header_def host_sum_le16)

lemma ip_header_verifies: "host_sum (ip_header n (ip_checksum n s d) s d) mod 65535 = 0"
proof -
  have "host_sum (ip_header n 0 s d) \<le> 65535 * 11" using host_sum_bound [of "ip_header n 0 s d"] by simp
  then have b: "unat (0 :: u32) + host_sum (ip_header n 0 s d) < 2 ^ 32" by simp
  show ?thesis
    using complement_zero [OF addChecksum_sum(1,2) [OF b]] by (subst host_sum_ip_header) (simp add: ip_checksum_def)
qed

text \<open>The sum of several buffers, one after the other, as the code makes it.\<close>

lemma chain:
  "list_all (\<lambda>b. length b \<le> 2000) bs \<Longrightarrow> unat c < 65536 \<Longrightarrow>
   unat (fold addChecksum bs c) < 65536 \<and> unat (fold addChecksum bs c) mod 65535 = (unat c + sum_list (map host_sum bs)) mod 65535"
proof (induction bs arbitrary: c)
  case (Cons b bs)
  then have "length b div 2 \<le> 2000 div 2" by (intro div_le_mono) simp
  then have "length b div 2 + 1 \<le> 1001" by simp
  then have "65535 * (length b div 2 + 1) \<le> 65535 * 1001" by (rule mult_le_mono2)
  then have "host_sum b \<le> 65535 * 1001" using host_sum_bound [of b] by linarith
  then have "unat c + host_sum b < 2 ^ 32" using Cons.prems(2) by simp
  note c = addChecksum_sum(1,2) [OF this]
  have "unat (fold addChecksum bs (addChecksum b c)) mod 65535 = (unat (addChecksum b c) mod 65535 + sum_list (map host_sum bs)) mod 65535"
    using Cons.IH [OF _ c(1)] Cons.prems(1) by (simp add: mod_simps)
  then show ?case using Cons.IH [OF _ c(1)] Cons.prems(1) c(2) by (simp add: mod_simps add.assoc)
qed simp

lemma udp_verifies:
  assumes "length b \<le> sizeof_dhcp"
  shows "host_sum (le32 s @ le32 d @ le16 (htons 17) @ le16 (htons (of_nat (8 + length b))) @
    udp_header p q (length b) (udp_checksum s p d q b) @ b) mod 65535 = 0"
proof -
  let ?l = "le16 (htons (of_nat (8 + length b)))"
  define t where "t = host_sum (le32 s) + host_sum (le32 d) + host_sum (le16 (htons 17)) + host_sum ?l
     + host_sum (udp_header p q (length b) 0) + host_sum b"
  let ?bs = "[le32 s, le32 d, le16 (htons 17), ?l, udp_header p q (length b) 0, b]"
  define c6 where "c6 = fold addChecksum ?bs 0"
  have "unat c6 < 65536 \<and> unat c6 mod 65535 = t mod 65535"
    using chain [of ?bs 0] assms by (simp add: c6_def t_def add.assoc)
  then have "(t + unat (udp_checksum s p d q b)) mod 65535 = 0"
    using complement_zero [of c6 t] by (simp add: udp_checksum_def c6_def Let_def)
  moreover have "host_sum (le32 s @ le32 d @ le16 (htons 17) @ ?l @ udp_header p q (length b) (udp_checksum s p d q b) @ b)
      = t + unat (udp_checksum s p d q b)"
    using host_sum_le16 [of "htons 17" "[]"] host_sum_le16 [of "htons (of_nat (8 + length b))" "[]"]
    by (simp add: t_def host_sum_append host_sum_le16 host_sum_udp_header)
  ultimately show ?thesis by simp
qed

section \<open>A packet from end to end\<close>

text \<open>The message that arrives: the bytes sent over a message of zeros.\<close>

definition received :: "u8 list \<Rightarrow> Message" where
  "received b = overwrite b Message_empty"

lemma received_props:
  "length b \<le> sizeof_dhcp \<Longrightarrow> mSize (received b) = length b" "length b \<le> sizeof_dhcp \<Longrightarrow> wf_dhcp (dhcpData (received b))"
  by (simp_all add: received_def overwrite_def Message_empty_def dhcp_simps)

lemma dhcp_bytes_at: "length b = sizeof_dhcp \<Longrightarrow> dhcp_bytes (dhcp_at b) = b"
proof -
  assume l: "length b = sizeof_dhcp"
  have h: "[b ! 0, b ! 1, b ! 2, b ! 3] @ le32 (get32 b 4) @ le16 (get16 b 8) @ le16 (get16 b 10) @ le32 (get32 b 12)
      @ le32 (get32 b 16) @ le32 (get32 b 20) @ le32 (get32 b 24) = take 28 b"
  proof -
    have le32: "le32 (get32 b i) = [b ! i, b ! (i + 1), b ! (i + 2), b ! (i + 3)]" for i
    proof -
      have "(ucast (get32 b i) :: u8) = b ! i" "(ucast (drop_bit 8 (get32 b i)) :: u8) = b ! (i + 1)"
        "(ucast (drop_bit 16 (get32 b i)) :: u8) = b ! (i + 2)" "(ucast (drop_bit 24 (get32 b i)) :: u8) = b ! (i + 3)"
        by (rule word_eq_bits, simp add: get32_def bitwise)+
      then show ?thesis by (simp add: le32_def)
    qed
    have le16: "le16 (get16 b i) = [b ! i, b ! (i + 1)]" for i
    proof -
      have "(ucast (get16 b i) :: u8) = b ! i" "(ucast (drop_bit 8 (get16 b i)) :: u8) = b ! (i + 1)"
        by (rule word_eq_bits, simp add: get16_def bitwise)+
      then show ?thesis by (simp add: le16_def)
    qed
    have "take 28 b = map ((!) b) [0..<28]" using l by (intro nth_equalityI) simp_all
    moreover have "[0..<28] = [0 :: nat, 1, 2, 3, 4, 5, 6, 7, 8, 9, 10, 11, 12, 13, 14, 15, 16, 17, 18, 19, 20, 21, 22, 23, 24, 25, 26, 27]" by code_simp
    ultimately show ?thesis by (simp add: le32 le16 numeral_2_eq_2 [symmetric] numeral_3_eq_3 [symmetric])
  qed
  have t: "take 16 (drop 28 b) @ take 64 (drop 44 b) @ take 128 (drop 108 b) @ take sizeof_options (drop options_offset b) = drop 28 b"
  proof -
    have d: "take k (drop i b) @ drop (i + k) b = drop i b" for i k
      by (metis add.commute append_take_drop_id drop_drop)
    have "take sizeof_options (drop options_offset b) = drop options_offset b" using l by simp
    then show ?thesis using d [of 16 28] d [of 64 44] d [of 128 108] by simp
  qed
  have "dhcp_bytes (dhcp_at b) = ([b ! 0, b ! 1, b ! 2, b ! 3] @ le32 (get32 b 4) @ le16 (get16 b 8) @ le16 (get16 b 10)
      @ le32 (get32 b 12) @ le32 (get32 b 16) @ le32 (get32 b 20) @ le32 (get32 b 24))
      @ (take 16 (drop 28 b) @ take 64 (drop 44 b) @ take 128 (drop 108 b) @ take sizeof_options (drop options_offset b))"
    by (simp add: dhcp_bytes_def dhcp_at_def)
  also have "\<dots> = b" by (simp only: h t append_take_drop_id)
  finally show ?thesis .
qed

lemma data_received: "length b \<le> sizeof_dhcp \<Longrightarrow> message_data (received b) = Some b"
  by (simp add: message_data_def received_def overwrite_def Message_empty_def dhcp_simps dhcp_bytes_at)

lemma raw_packet_parts:
  "length (raw_packet s p d q b) = 28 + length b" "drop 28 (raw_packet s p d q b) = b"
  "take 20 (raw_packet s p d q b) = ip_header (length b) (ip_checksum (length b) s d) s d"
  "take 8 (drop 12 (raw_packet s p d q b)) = le32 s @ le32 d"
  "take 2 (drop 24 (raw_packet s p d q b)) = le16 (htons (of_nat (8 + length b)))"
  "drop 20 (raw_packet s p d q b) = udp_header p q (length b) (udp_checksum s p d q b) @ b"
proof -
  have i: "ip_header n k s d = [0x45, 0] @ le16 (htons (of_nat (20 + 8 + n))) @ le16 0 @ le16 0 @ [64, 17] @ le16 k @ le32 s @ le32 d" for n k
    by (simp add: ip_header_def)
  show "length (raw_packet s p d q b) = 28 + length b" "drop 28 (raw_packet s p d q b) = b"
    "take 20 (raw_packet s p d q b) = ip_header (length b) (ip_checksum (length b) s d) s d"
    "drop 20 (raw_packet s p d q b) = udp_header p q (length b) (udp_checksum s p d q b) @ b"
    by (simp_all add: raw_packet_def)
  show "take 8 (drop 12 (raw_packet s p d q b)) = le32 s @ le32 d" by (simp add: raw_packet_def i numeral_2_eq_2)
  show "take 2 (drop 24 (raw_packet s p d q b)) = le16 (htons (of_nat (8 + length b)))"
    by (simp add: raw_packet_def udp_header_def)
qed

lemma raw_packet_bytes:
  "raw_packet s p d q b ! 0 = 0x45" "raw_packet s p d q b ! 9 = 17" "get16 (raw_packet s p d q b) 22 = htons q"
proof -
  show "raw_packet s p d q b ! 0 = 0x45" "raw_packet s p d q b ! 9 = 17"
    by (simp_all add: raw_packet_def ip_header_def le16_def)
  have "raw_packet s p d q b = (take 20 (raw_packet s p d q b) @ le16 (htons p)) @ le16 (htons q) @ drop 24 (raw_packet s p d q b)"
    by (simp add: raw_packet_def udp_header_def)
  then show "get16 (raw_packet s p d q b) 22 = htons q"
    using get_append(1) [of "take 20 (raw_packet s p d q b) @ le16 (htons p)" "le16 (htons q) @ drop 24 (raw_packet s p d q b)" 0]
      raw_packet_parts(1) [of s p d q b] by simp
qed

lemma receive_raw_packet:
  assumes "n_answers w = Value k (raw_packet s p d q b) cs # later" and "length b \<le> sizeof_dhcp"
  shows "receiveRawUdp fd port Message_empty w =
    (Success, received b, Some (q = port), net_log (Net_readv fd (28 + sizeof_dhcp)) (w\<lparr>n_answers := later\<rparr>))"
  using assms raw_packet_parts(1,2) [of s p d q b] raw_packet_bytes [of s p d q b]
  by (auto simp: receiveRawUdp_def net_read_def net_answer_def received_def)



end
