(* ===== verification/Dhcp_Lease.thy ===== *)
theory Dhcp_Lease
  imports Dhcp_Run Net_Packets
begin

text \<open>
  What the client learns from the options of a message, and how it puts a lease into effect.
\<close>

section \<open>The meaning of the options\<close>

fun learn_dns :: "u8 list \<Rightarrow> nat list \<Rightarrow> DhcpInfo \<Rightarrow> DhcpInfo" where
  "learn_dns d [] info = info"
| "learn_dns d (k # ks) info = learn_dns d ks (if 4 * k + 4 \<le> length d then info\<lparr>dns := (dns info)[k := get32 d (4 * k)]\<rparr> else info)"

text \<open>Later options replace earlier ones; an option with a wrong length or an unknown code says nothing.\<close>

definition learn :: "dhcp_option \<Rightarrow> DhcpInfo \<Rightarrow> DhcpInfo" where
  "learn = (\<lambda>(c, d) info.
     if c = OPT_LEASE_TIME \<and> length d = 4 then info\<lparr>leaseTime := htonl (get32 d 0)\<rparr>
     else if c = OPT_T1 \<and> length d = 4 then info\<lparr>t1 := htonl (get32 d 0)\<rparr>
     else if c = OPT_T2 \<and> length d = 4 then info\<lparr>t2 := htonl (get32 d 0)\<rparr>
     else if c = OPT_SUBNET_MASK \<and> length d = 4 then info\<lparr>subnetMask := get32 d 0\<rparr>
     else if c = OPT_GATEWAY \<and> 4 \<le> length d then info\<lparr>gateway := get32 d 0\<rparr>
     else if c = OPT_MTU \<and> length d = 2 then info\<lparr>mtu := htons (get16 d 0)\<rparr>
     else if c = OPT_DNS then learn_dns d [0, 1, 2, 3] info
     else if c = OPT_SERVER_ID \<and> length d = 4 then info\<lparr>info_serverId := get32 d 0\<rparr>
     else info)"

lemma get_prefix:
  assumes "drop p xs = d @ r" and "p \<le> length xs"
  shows "i + 4 \<le> length d \<Longrightarrow> p + i + 4 \<le> length xs \<and> get32 xs (p + i) = get32 d i"
    and "i + 2 \<le> length d \<Longrightarrow> p + i + 2 \<le> length xs \<and> get16 xs (p + i) = get16 d i"
proof -
  have xs: "xs = take p xs @ d @ r" using assms(1) by (metis append_take_drop_id)
  have l: "length (take p xs) = p" using assms(2) by simp
  have "length xs = p + length d + length r" using xs l by (metis length_append add.assoc)
  moreover have "get32 xs (p + i) = get32 (d @ r) i" "get16 xs (p + i) = get16 (d @ r) i"
    using get_append [of "take p xs" "d @ r" i] xs l by metis+
  ultimately show "i + 4 \<le> length d \<Longrightarrow> p + i + 4 \<le> length xs \<and> get32 xs (p + i) = get32 d i"
    and "i + 2 \<le> length d \<Longrightarrow> p + i + 2 \<le> length xs \<and> get16 xs (p + i) = get16 d i"
    by (simp_all add: get32_def get16_def nth_append)
qed

lemma store_dns_learn:
  assumes "drop p (d_options (dhcpData m)) = d @ r" and "p \<le> length (d_options (dhcpData m))"
  shows "store_dns m (length d) p ks info = Some (learn_dns d ks info)"
proof (induction ks arbitrary: info)
  case (Cons k ks)
  then show ?case using get_prefix(1) [OF assms, of "4 * k"] by (simp add: opt_word_def)
qed simp

lemma store_option_learn:
  assumes "drop p (d_options (dhcpData m)) = d @ r" and "p \<le> length (d_options (dhcpData m))"
  shows "store_option m c (length d) p info = Some (learn (c, d) info)"
proof -
  have w: "4 \<le> length d \<Longrightarrow> opt_word m p = Some (get32 d 0)" and h: "length d = 2 \<Longrightarrow> opt_half m p = Some (get16 d 0)"
    using get_prefix [OF assms, of 0] by (simp_all add: opt_word_def opt_half_def)
  show ?thesis using w h store_dns_learn [OF assms, of "[0, 1, 2, 3]" info] by (simp add: store_option_def learn_def)
qed

lemma scan_options_learn:
  assumes "valid_opts os" and "d_options (dhcpData m) = pre @ enc_opts os @ OPT_END # rest"
    and "n = length pre + length (enc_opts os) + 1"
  shows "scan_options m n (length pre) info = Some (True, fold learn os info)"
  using assms
proof (induction os arbitrary: pre info)
  case Nil
  then show ?case by (subst scan_options.simps) simp
next
  case (Cons o1 os)
  obtain c d where o1: "o1 = (c, d)" by (cases o1)
  let ?opts = "d_options (dhcpData m)" and ?pre = "pre @ [c, of_nat (length d)] @ d"
  have c: "c \<noteq> OPT_END" "length d < 256" "valid_opts os" using Cons.prems(1) by (simp_all add: o1)
  have at: "?opts ! length pre = c" "?opts ! Suc (length pre) = of_nat (length d)" "length pre + 2 \<le> length ?opts"
    using Cons.prems(2) by (simp_all add: o1 nth_append)
  have d: "drop (length pre + 2) ?opts = d @ (enc_opts os @ OPT_END # rest)" using Cons.prems(2) by (simp add: o1)
  have n: "Suc (length pre) < n" "length d + length pre < n" using Cons.prems(3) by (simp_all add: o1)
  have "store_option m c (length d) (length pre + 2) info = Some (learn (c, d) info)"
    by (rule store_option_learn [OF d at(3)])
  then have s: "scan_options m n (length pre) info = scan_options m n (length ?pre) (learn (c, d) info)"
    using c at n by (subst scan_options.simps) (simp add: Let_def unat_of_nat)
  have "?opts = ?pre @ enc_opts os @ OPT_END # rest" "n = length ?pre + length (enc_opts os) + 1"
    using Cons.prems by (simp_all add: o1)
  from Cons.IH [OF c(3) this] show ?case by (simp add: s o1)
qed

lemma scan_ended: "ended m os \<Longrightarrow> scan_options m (optionsSize m) 4 info = Some (True, fold learn os info)"
proof -
  assume "ended m os"
  then obtain rest where r: "valid_opts os" "d_options (dhcpData m) = DHCP_COOKIE @ enc_opts os @ OPT_END # rest"
      "optionsSize m = length DHCP_COOKIE + length (enc_opts os) + 1"
    by (auto simp: ended_def optionsSize_def)
  have "length DHCP_COOKIE = 4" by (simp add: DHCP_COOKIE_def)
  with scan_options_learn [OF r, of info] show "scan_options m (optionsSize m) 4 info = Some (True, fold learn os info)" by simp
qed

section \<open>Messages that arrive\<close>

lemma ended_size: "ended m os \<Longrightarrow> mSize m \<le> sizeof_dhcp \<and> options_offset \<le> mSize m"
  by (auto simp: ended_def wf_dhcp_def DHCP_COOKIE_def)

text \<open>The bytes of a message, and the message that is made of them at the other end.\<close>

definition data_of :: "Message \<Rightarrow> u8 list" where
  "data_of m = take (mSize m) (dhcp_bytes (dhcpData m))"

lemma message_data_ended:
  assumes "ended m os"
  shows "message_data m = Some (data_of m)" and "length (data_of m) = mSize m" and "length (data_of m) \<le> sizeof_dhcp"
proof -
  have "length (dhcp_bytes (dhcpData m)) = sizeof_dhcp" using assms by (simp add: ended_def dhcp_simps)
  then show "message_data m = Some (data_of m)" "length (data_of m) = mSize m" "length (data_of m) \<le> sizeof_dhcp"
    using ended_size [OF assms] by (simp_all add: message_data_def data_of_def)
qed

lemma received_ended:
  assumes "ended m os"
  shows "ended (received (data_of m)) os" and "same_header m (received (data_of m))"
proof -
  let ?k = "mSize m - options_offset" and ?d = "dhcpData m"
  have s: "options_offset \<le> mSize m" "mSize m \<le> sizeof_dhcp" using ended_size [OF assms] by auto
  have wf: "wf_dhcp ?d" using assms by (simp add: ended_def)
  obtain h where h: "dhcp_bytes ?d = h @ d_options ?d" "length h = options_offset" using dhcp_header [OF wf] by blast
  have ol: "length (d_options ?d) = sizeof_options" using wf by (simp add: wf_dhcp_def)
  obtain z where z: "dhcp_bytes zero_dhcp = z @ d_options zero_dhcp" "length z = options_offset" using dhcp_header [OF wf_zero] by blast
  let ?o = "take ?k (d_options ?d) @ drop ?k (replicate sizeof_options 0)"
  have "data_of m = h @ take ?k (d_options ?d)" using s h by (simp add: data_of_def)
  then have "data_of m @ drop (length (data_of m)) (dhcp_bytes zero_dhcp) = h @ ?o"
    using s z ol message_data_ended(2) [OF assms] h(2) by (simp add: zero_dhcp_def)
  moreover have "h @ ?o = dhcp_bytes (?d\<lparr>d_options := ?o\<rparr>)" using dhcp_bytes_options [OF wf, of ?o] h by simp
  moreover have "wf_dhcp (?d\<lparr>d_options := ?o\<rparr>)" using wf s ol by (simp add: wf_dhcp_def)
  ultimately have r: "dhcpData (received (data_of m)) = ?d\<lparr>d_options := ?o\<rparr>"
    by (simp add: received_def overwrite_def Message_empty_def dhcp_at_bytes')
  then show "same_header m (received (data_of m))" by (auto simp: same_header_def)
  have "mSize (received (data_of m)) = mSize m"
    using received_props(1) [OF message_data_ended(3) [OF assms]] message_data_ended(2) [OF assms] by simp
  then show "ended (received (data_of m)) os"
    using assms r \<open>wf_dhcp (?d\<lparr>d_options := ?o\<rparr>)\<close> by (auto simp: ended_def)
qed

text \<open>C8: A message arrives as it was sent, and its options are understood. For any message whose options are a list of
  codes and data with an end mark, sent by anyone to port 68 and read by the client: the client accepts it exactly
  if it is a reply with the transaction id of its last message and the Ethernet address type; and the scan
  of its options stores what the options mean, one after the other.\<close>

theorem message_understood:
  assumes "ended m os" and "n_answers w = Value k (raw_packet s p d PORT_BOOTP_CLIENT (data_of m)) [] # later"
  shows "\<exists>m' w'. receiveDhcpMessage c w =
      (d_op (dhcpData m) = OP_BOOTREPLY \<and> d_htype (dhcpData m) = HTYPE_ETHER \<and> d_hlen (dhcpData m) = 6 \<and>
       d_xid (dhcpData m) = d_xid (dhcpData (mLastMsg c)), m', w') \<and> n_answers w' = later \<and>
    scan_options m' (optionsSize m') 4 info = Some (True, fold learn os info) \<and> d_yiaddr (dhcpData m') = d_yiaddr (dhcpData m)"
proof -
  let ?m = "received (data_of m)"
  note e = received_ended [OF assms(1)] note h = same_header_fields [OF e(2)]
  have "receiveDhcpMessage c w = (isValidDhcpMessage OP_BOOTREPLY (d_xid (dhcpData (mLastMsg c))) ?m, ?m,
      net_log (Net_readv (mSocket c) (28 + sizeof_dhcp)) (w\<lparr>n_answers := later\<rparr>))"
    using receive_raw_packet [OF assms(2) message_data_ended(3) [OF assms(1)], of "mSocket c" PORT_BOOTP_CLIENT]
    by (simp add: receiveDhcpMessage_def)
  moreover have "isValidDhcpMessage OP_BOOTREPLY x ?m \<longleftrightarrow> d_op (dhcpData m) = OP_BOOTREPLY \<and> d_htype (dhcpData m) = HTYPE_ETHER \<and>
      d_hlen (dhcpData m) = 6 \<and> d_xid (dhcpData m) = x" for x
    using ended_cookie [OF e(1)] h by (auto simp: isValidDhcpMessage_def isValidDhcpMessage_op_def)
  moreover note scan_ended [OF e(1)]
  ultimately show ?thesis using h by simp
qed

text \<open>A reply with a lease time of an hour and nothing else.\<close>

definition hour_reply :: Message where
  "hour_reply = \<lparr>dhcpData = zero_dhcp\<lparr>d_op := OP_BOOTREPLY, d_htype := HTYPE_ETHER, d_hlen := 6,
     d_options := DHCP_COOKIE @ enc_opts [(OPT_LEASE_TIME, [0, 0, 0x0E, 0x10])] @ [OPT_END] @ replicate 1013 0\<rparr>, mSize = options_offset + 11\<rparr>"

lemma hour_reply_ended: "ended hour_reply [(OPT_LEASE_TIME, [0, 0, 0x0E, 0x10])]"
  by (simp add: ended_def hour_reply_def wf_dhcp_def zero_dhcp_def DHCP_COOKIE_def)

theorem message_understood_witness:
  "\<exists>m' w'. receiveDhcpMessage (DhcpClient_new 0) (net0\<lparr>n_answers := [Value 275 (raw_packet 1 67 2 PORT_BOOTP_CLIENT (data_of hour_reply)) []]\<rparr>) =
      (d_op (dhcpData hour_reply) = OP_BOOTREPLY \<and> d_htype (dhcpData hour_reply) = HTYPE_ETHER \<and> d_hlen (dhcpData hour_reply) = 6 \<and>
       d_xid (dhcpData hour_reply) = d_xid (dhcpData (mLastMsg (DhcpClient_new 0))), m', w') \<and> n_answers w' = [] \<and>
    scan_options m' (optionsSize m') 4 zero_info = Some (True, fold learn [(OPT_LEASE_TIME, [0, 0, 0x0E, 0x10])] zero_info) \<and>
    d_yiaddr (dhcpData m') = d_yiaddr (dhcpData hour_reply)"
  by (rule message_understood [OF hour_reply_ended]) simp

end
