(* ===== verification/Dhcp_Machine.thy ===== *)
theory Dhcp_Machine
  imports Dhcp_Lease
begin

text \<open>
  The client as the state machine of RFC 2131: every pass of its loop is defined and makes at most one
  transition of the abstract machine, whatever arrives, except for packets that fill the options to the last
  bytes, which the code reads beyond.
\<close>

section \<open>The abstract machine\<close>

text \<open>
  What a transition is made for: nothing but the start, a timeout that has grown to its maximum, one of the two timers of
  the lease, or a message.
\<close>

datatype cause = Started | Exhausted | T1_passed | T2_passed | Heard Message

inductive dhcp_edge :: "State \<Rightarrow> cause \<Rightarrow> State \<Rightarrow> bool" where
  start: "dhcp_edge Init Started Selecting"
| offered: "message_type m = Some DHCPOFFER \<Longrightarrow> dhcp_edge Selecting (Heard m) Requesting"
| acked: "s = Requesting \<or> s = Renewing \<or> s = Rebinding \<Longrightarrow> message_type m = Some DHCPACK \<Longrightarrow> dhcp_edge s (Heard m) Bound"
| refused: "s = Requesting \<or> s = Renewing \<or> s = Rebinding \<Longrightarrow> message_type m = Some DHCPNAK \<Longrightarrow> dhcp_edge s (Heard m) Init"
| gave_up: "s = Requesting \<or> s = Rebinding \<Longrightarrow> dhcp_edge s Exhausted Init"
| t1_expired: "dhcp_edge Bound T1_passed Renewing"
| t2_expired: "dhcp_edge Renewing T2_passed Rebinding"

inductive_simps edge_from:
  "dhcp_edge Init k s" "dhcp_edge Selecting k s" "dhcp_edge Requesting k s" "dhcp_edge Bound k s" "dhcp_edge Renewing k s" "dhcp_edge Rebinding k s"

inductive_simps edge_heard: "dhcp_edge s (Heard m) s'"

text \<open>What a pass that begins with the client \<open>c\<close> at the time of \<open>w\<close> has to do before it sends or listens to anything.\<close>

definition due :: "DhcpClient \<Rightarrow> net \<Rightarrow> cause option" where
  "due c w =
     (case mState c of
        Init \<Rightarrow> Some Started
      | Selecting \<Rightarrow> None
      | Requesting \<Rightarrow> if 64000 \<le> mNextTimeout c then Some Exhausted else None
      | Bound \<Rightarrow> if mT1 c \<le> fst (now w) then Some T1_passed else None
      | Renewing \<Rightarrow> if mT2 c \<le> fst (now w) then Some T2_passed else None
      | Rebinding \<Rightarrow> if 64000 \<le> mNextTimeout c then Some Exhausted else None)"

text \<open>
  A message that the system has delivered between \<open>w\<close> and \<open>w'\<close>, as it is in the packet behind the 28 bytes of the IP and UDP
  headers, and that is a reply to the last message of \<open>c\<close>.
\<close>

definition heard :: "Message \<Rightarrow> DhcpClient \<Rightarrow> net \<Rightarrow> net \<Rightarrow> bool" where
  "heard m c w w' \<longleftrightarrow> isValidDhcpMessage OP_BOOTREPLY (d_xid (dhcpData (mLastMsg c))) m \<and>
     (\<exists>xs n d cs ys k. n_answers w = xs @ Value n d cs # ys \<and> n_answers w' = drop k ys \<and>
       m = overwrite (drop 28 (take (28 + sizeof_dhcp) d)) Message_empty)"

text \<open>The transitions a pass may make: the one that is due, or else none or one for a message that was heard.\<close>

definition moves :: "DhcpClient \<Rightarrow> net \<Rightarrow> DhcpClient \<Rightarrow> net \<Rightarrow> bool" where
  "moves c w c' w' \<longleftrightarrow>
     (case due c w of
        Some k \<Rightarrow> dhcp_edge (mState c) k (mState c')
      | None \<Rightarrow> mState c' = mState c \<or> (\<exists>m. heard m c' w w' \<and> dhcp_edge (mState c) (Heard m) (mState c')))"

section \<open>The invariant of the client\<close>

definition timeouts :: "u32 set" where
  "timeouts = {0, 4000, 8000, 16000, 32000, 64000}"

definition client_ok :: "DhcpClient \<Rightarrow> bool" where
  "client_ok c \<longleftrightarrow> length (i_mac (mInterface c)) = ETH_ALEN \<and> (mState c = Bound \<or> mNextTimeout c \<in> timeouts)"

text \<open>What a pass changes of the client's identity: nothing.\<close>

definition same_client :: "DhcpClient \<Rightarrow> DhcpClient \<Rightarrow> bool" where
  "same_client c c' \<longleftrightarrow> mInterface c' = mInterface c \<and> mRouter c' = mRouter c \<and> mSocket c' = mSocket c \<and> mOptions c' = mOptions c"

lemma same_client_refl [simp]: "same_client c c"
  by (simp add: same_client_def)

lemma setNextState_simps [simp]:
  "mState (setNextState s c) = s" "mNextTimeout (setNextState s c) = 0" "mInterface (setNextState s c) = mInterface c"
  "same_client c (setNextState s c')= same_client c c'" "mT1 (setNextState s c) = mT1 c" "mT2 (setNextState s c) = mT2 c"
  "mDhcpInfo (setNextState s c) = mDhcpInfo c" "mServerAddress (setNextState s c) = mServerAddress c"
  "mRequestAddress (setNextState s c) = mRequestAddress c" "mLastMsg (setNextState s c) = mLastMsg c"
  "mOptions (setNextState s c) = mOptions c" "mSocket (setNextState s c) = mSocket c" "mRouter (setNextState s c) = mRouter c"
  by (simp_all add: setNextState_def same_client_def)

lemma increaseTimeout_simps [simp]:
  "mState (increaseTimeout c) = mState c" "mInterface (increaseTimeout c) = mInterface c" "same_client c' (increaseTimeout c) = same_client c' c"
  "mSocket (increaseTimeout c) = mSocket c" "mLastMsg (increaseTimeout c) = mLastMsg c" "mServerAddress (increaseTimeout c) = mServerAddress c"
  "mRequestAddress (increaseTimeout c) = mRequestAddress c" "mRouter (increaseTimeout c) = mRouter c" "mOptions (increaseTimeout c) = mOptions c"
  by (simp_all add: increaseTimeout_def same_client_def Let_def)

lemma increaseTimeout_timeouts: "mNextTimeout c \<in> timeouts \<Longrightarrow> mNextTimeout (increaseTimeout c) \<in> timeouts"
  by (auto simp: increaseTimeout_def timeouts_def)

section \<open>Everything but the packets is always defined\<close>

lemma setAddress_defined: "\<exists>r w'. setAddress a m i w = Some (r, w')"
proof -
  obtain r where r: "address_request a m (i_index i) = Some r" using address_request_is by blast
  show ?thesis
    using address_bytes [OF r] by (auto simp: setAddress_def r nl_send_def split: prod.split if_splits)
qed

lemma route_request_is:
  "\<exists>r. route_request g ix = Some r \<and> nlmsg_len r = 44 \<and> nlmsg_type r = 24 \<and> length (nl_buf r) = 256 \<and> nl_msg r = [2, 0, 0, 0, 254, 3, 0, 1] @ le32 0 \<and>
     take 16 (nl_buf r) = le16 8 @ le16 5 @ le32 g @ le16 8 @ le16 4 @ le32 ix"
proof -
  define r0 where "r0 = nl_new 24 (0x001 OR 0x400) ([2, 0, 0, 0, 254, 3, 0, 1] @ le32 0)"
  have r0: "nlmsg_len r0 = 28" "length (nl_msg r0) = 12" "length (nl_buf r0) = 256" by (simp_all add: r0_def)
  note a1 = addRouterAttribute_4 [of "le32 g" r0 0 5, simplified r0, simplified]
  define r1 where "r1 = r0\<lparr>nl_buf := le16 8 @ le16 5 @ le32 g @ drop 8 (nl_buf r0), nlmsg_len := 36\<rparr>"
  have r1: "nlmsg_len r1 = 36" "length (nl_msg r1) = 12" "length (nl_buf r1) = 256" by (simp_all add: r1_def r0)
  have 1: "addRouterAttribute 5 (le32 g) r0 = Some r1" by (simp add: a1 r1_def)
  note a2 = addRouterAttribute_4 [of "le32 ix" r1 8 4, simplified r1, simplified]
  have "route_request g ix = addRouterAttribute 4 (le32 ix) r1"
    unfolding route_request_def Let_def r0_def [symmetric] using 1 by simp
  then show ?thesis by (simp add: a2 r1) (simp add: r1_def r0_def)
qed

lemma route_bytes:
  assumes "route_request g ix = Some r"
  shows "nlmsg_len r = 44" "take 44 (nl_bytes r) = le32 44 @ le16 24 @ le16 (nlmsg_flags r) @ le32 0 @ le32 0
      @ [2, 0, 0, 0, 254, 3, 0, 1] @ le32 0 @ le16 8 @ le16 5 @ le32 g @ le16 8 @ le16 4 @ le32 ix"
    "44 \<le> length (nl_bytes r)"
  using route_request_is [of g ix] assms by (auto simp: nl_bytes_def)

lemma setDefaultGateway_defined: "\<exists>r w'. setDefaultGateway g ix fd w = Some (r, w')"
proof -
  obtain r where r: "route_request g ix = Some r" using route_request_is by blast
  show ?thesis
    using route_bytes [OF r] by (auto simp: setDefaultGateway_def sendNetlinkMessage_def r nl_send_def split: prod.split if_splits)
qed

lemma apply_lease_defined: "\<exists>r w'. apply_lease c w = Some (r, w')"
proof -
  obtain r1 w1 where 1: "bringUp (mInterface c) w = (r1, w1)" by fastforce
  define w3 where "w3 = set_properties c (if mtu (mDhcpInfo c) \<noteq> 0 then snd (setMtu (mtu (mDhcpInfo c)) (mInterface c) w1) else w1)"
  obtain r4 w4 where 4: "setAddress (offeredAddress (mDhcpInfo c)) (subnetMask (mDhcpInfo c)) (mInterface c) w3 = Some (r4, w4)"
    using setAddress_defined by blast
  obtain r5 w5 where 5: "setDefaultGateway (gateway (mDhcpInfo c)) (i_index (mInterface c)) (mRouter c) w4 = Some (r5, w5)"
    using setDefaultGateway_defined by blast
  show ?thesis using 1 4 5 by (auto simp: apply_lease_def Let_def w3_def)
qed

lemma haltNetwork_defined: "\<exists>w'. haltNetwork c w = Some w'"
  using setAddress_defined [of 0 0 "mInterface c" w] by (auto simp: haltNetwork_def)

lemma sendMessage_defined:
  assumes "ended m os"
  shows "\<exists>w'. sendMessage m c w = Some w'"
  using message_data_ended(1) [OF assms] by (auto simp: sendMessage_def sendRawUdp_def split: prod.split)

lemma sendMessage_is:
  assumes "ended m os" and "sendMessage m c w = Some w'"
  shows "\<exists>p r d. net_call (Net_sendmsg (mSocket c) p (Sockaddr_ll (i_index (mInterface c)) (replicate 6 0xFF)) 0) w = (r, d, w') \<and>
    p = raw_packet 0 PORT_BOOTP_CLIENT INADDR_BROADCAST PORT_BOOTP_SERVER (data_of m)"
  using assms(2) message_data_ended(1) [OF assms(1)]
  by (auto simp: sendMessage_def sendRawUdp_def split: bind_splits prod.splits)

lemma uses_sendMessage: "sendMessage m c w = Some w' \<Longrightarrow> uses w w'"
  by (auto simp: sendMessage_def sendRawUdp_def split: bind_splits prod.splits dest: uses_less)

lemma sendDhcpRequest_defined:
  assumes "length (i_mac (mInterface c)) = ETH_ALEN"
  shows "\<exists>m w'. sendDhcpRequest a c w = Some (c\<lparr>mLastMsg := m\<rparr>, w') \<and> uses w w' \<and>
    request (i_mac (mInterface c)) (mRequestAddress c) a (sNextTransactionId w) = Some (m, sNextTransactionId w + 1)"
proof -
  obtain m where m: "request (i_mac (mInterface c)) (mRequestAddress c) a (sNextTransactionId w) = Some (m, sNextTransactionId w + 1)"
      "ended m (request_options (mRequestAddress c) a)"
    using request_ended [OF assms] by blast
  obtain w' where w': "sendMessage m (c\<lparr>mLastMsg := m\<rparr>) (w\<lparr>sNextTransactionId := sNextTransactionId w + 1\<rparr>) = Some w'"
    using sendMessage_defined [OF m(2)] by blast
  then show ?thesis using m uses_sendMessage [OF w'] by (auto simp: sendDhcpRequest_def)
qed

lemma sendDhcpDiscover_defined:
  assumes "length (i_mac (mInterface c)) = ETH_ALEN"
  shows "\<exists>m w'. sendDhcpDiscover c w = Some (c\<lparr>mLastMsg := m\<rparr>, w') \<and> uses w w' \<and>
    discover (i_mac (mInterface c)) (sNextTransactionId w) = Some (m, sNextTransactionId w + 1)"
proof -
  obtain m where m: "discover (i_mac (mInterface c)) (sNextTransactionId w) = Some (m, sNextTransactionId w + 1)" "ended m discover_options"
    using discover_ended [OF assms] by blast
  obtain w' where w': "sendMessage m (c\<lparr>mLastMsg := m\<rparr>) (w\<lparr>sNextTransactionId := sNextTransactionId w + 1\<rparr>) = Some w'"
    using sendMessage_defined [OF m(2)] by blast
  then show ?thesis using m uses_sendMessage [OF w'] by (auto simp: sendDhcpDiscover_def)
qed

section \<open>Packets that leave room\<close>

text \<open>The options must not reach the last three bytes of their array.\<close>

definition roomy :: "Message \<Rightarrow> bool" where
  "roomy m \<longleftrightarrow> wf_dhcp (dhcpData m) \<and> optionsSize m \<le> 1021"

lemma find_option_defined:
  "n \<le> length opts \<Longrightarrow> \<exists>r. find_option c opts n i = Some r \<and> (\<forall>p l. r = Some (p, l) \<longrightarrow> p < n)"
proof (induction c opts n i rule: find_option.induct)
  case (1 c opts n i)
  then show ?case by (subst find_option.simps) auto
qed

lemma getOption_defined: "roomy m \<Longrightarrow> \<exists>r. getOption c m = Some r \<and> (\<forall>p l. r = Some (p, l) \<longrightarrow> p < 1021)"
  using find_option_defined [of "optionsSize m" "d_options (dhcpData m)" c 4]
  by (auto simp: getOption_def roomy_def wf_dhcp_def)

lemma message_type_defined: "roomy m \<Longrightarrow> \<exists>t. message_type m = Some t"
  using getOption_defined [of m OPT_MESSAGE_TYPE]
  by (auto simp: message_type_def opt_byte_def roomy_def wf_dhcp_def split: option.splits)

lemma serverId_defined: "roomy m \<Longrightarrow> \<exists>t. serverId m = Some t"
  using getOption_defined [of m OPT_SERVER_ID]
  by (auto simp: serverId_def address_option_def opt_word_def roomy_def wf_dhcp_def split: option.splits)

lemma store_dns_defined: "p + len \<le> length (d_options (dhcpData m)) \<Longrightarrow> \<exists>info'. store_dns m len p ks info = Some info'"
  by (induction ks arbitrary: info) (auto simp: opt_word_def)

lemma store_option_defined:
  assumes "p + len \<le> length (d_options (dhcpData m))"
  shows "\<exists>info'. store_option m c len p info = Some info'"
  using assms store_dns_defined [OF assms, of "[0, 1, 2, 3]" info]
  by (simp add: store_option_def opt_word_def opt_half_def del: store_dns.simps)

lemma scan_options_defined:
  "wf_dhcp (dhcpData m) \<Longrightarrow> n < sizeof_options \<Longrightarrow> \<exists>r. scan_options m n i info = Some r"
proof (induction m n i info rule: scan_options.induct)
  case (1 m n i info)
  let ?o = "d_options (dhcpData m)" let ?l = "unat (?o ! (i + 1))"
  have l: "length ?o = sizeof_options" using "1.prems" by (simp add: wf_dhcp_def)
  show ?case
  proof (cases "i + 1 < n \<and> ?o ! i \<noteq> OPT_END \<and> \<not> n \<le> ?l + i")
    case True
    then have "i + 2 + ?l \<le> length ?o" using l "1.prems"(2) by simp
    from store_option_defined [OF this] obtain info' where s: "store_option m (?o ! i) ?l (i + 2) info = Some info'" by blast
    have "\<exists>r. scan_options m n (i + 2 + ?l) info' = Some r"
      using True s l "1.prems" by (intro "1.IH" [OF refl _ _ refl refl]) simp_all
    then show ?thesis using True s l "1.prems"(2) by (subst scan_options.simps) (simp add: Let_def)
  next
    case False
    then show ?thesis using l "1.prems"(2) by (subst scan_options.simps) (auto simp: Let_def)
  qed
qed

lemma configureDhcp_is:
  assumes "4 \<le> optionsSize m" and "scan_options m (optionsSize m) 4 zero_info = Some (True, info)" and "leaseTime info \<noteq> 0"
    and "expireSeconds (ucast (if 0 < t1 info then t1 info else leaseTime info div 2)) w = (e1, w1)"
    and "expireSeconds (ucast (if 0 < t2 info then t2 info else leaseTime info * 7 div 8)) w1 = (e2, w2)"
    and "apply_lease (c\<lparr>mDhcpInfo := info\<lparr>offeredAddress := d_yiaddr (dhcpData m)\<rparr>, mT1 := e1, mT2 := e2\<rparr>) w2 = Some (dn, w3)"
  shows "configureDhcp m c w = Some (dn, c\<lparr>mDhcpInfo := info\<lparr>offeredAddress := d_yiaddr (dhcpData m)\<rparr>, mT1 := e1, mT2 := e2\<rparr>, w3)"
  using assms by (simp add: configureDhcp_def Let_def cong: if_cong split del: if_split)

lemma configureDhcp_defined:
  assumes "roomy m"
  shows "\<exists>ok c' w'. configureDhcp m c w = Some (ok, c', w') \<and> same_client c c' \<and> mState c' = mState c \<and> mNextTimeout c' = mNextTimeout c \<and>
    mLastMsg c' = mLastMsg c"
proof (cases "optionsSize m < 4")
  case True
  then show ?thesis by (auto simp: configureDhcp_def)
next
  case False
  obtain ok info where s: "scan_options m (optionsSize m) 4 zero_info = Some (ok, info)"
    using scan_options_defined [of m "optionsSize m"] assms by (fastforce simp: roomy_def)
  show ?thesis
  proof (cases "ok \<and> leaseTime info \<noteq> 0")
    case True
    obtain e1 w1 where 1: "expireSeconds (ucast (if 0 < t1 info then t1 info else leaseTime info div 2)) w = (e1, w1)" by fastforce
    obtain e2 w2 where 2: "expireSeconds (ucast (if 0 < t2 info then t2 info else leaseTime info * 7 div 8)) w1 = (e2, w2)" by fastforce
    obtain dn w3 where 3: "apply_lease (c\<lparr>mDhcpInfo := info\<lparr>offeredAddress := d_yiaddr (dhcpData m)\<rparr>, mT1 := e1, mT2 := e2\<rparr>) w2 = Some (dn, w3)"
      using apply_lease_defined by blast
    show ?thesis using configureDhcp_is [OF _ _ _ 1 2 3] False s True by (simp add: same_client_def)
  next
    case out: False
    then show ?thesis using False s by (cases ok) (auto simp: configureDhcp_def same_client_def Let_def)
  qed
qed

text \<open>What a message that was waited for does: one transition and no timeout, or nothing to state and timeout.\<close>

definition taken :: "(State \<Rightarrow> State \<Rightarrow> bool) \<Rightarrow> bool \<Rightarrow> DhcpClient \<Rightarrow> DhcpClient \<Rightarrow> bool" where
  "taken R dn c c' \<longleftrightarrow> same_client c c' \<and> mLastMsg c' = mLastMsg c \<and>
     (if dn then R (mState c) (mState c') \<and> mNextTimeout c' = 0 else mState c' = mState c \<and> mNextTimeout c' = mNextTimeout c)"

lemma handle_message_defined:
  assumes "roomy m"
  shows "\<exists>dn c' w'. handle_message m c w = Some (dn, c', w') \<and> taken (\<lambda>s. dhcp_edge s (Heard m)) dn c c'"
proof -
  obtain t where t: "message_type m = Some t" using message_type_defined [OF assms] by blast
  obtain s where s: "serverId m = Some s" using serverId_defined [OF assms] by blast
  obtain ok c1 w1 where c: "configureDhcp m c w = Some (ok, c1, w1)" "same_client c c1" "mState c1 = mState c" "mNextTimeout c1 = mNextTimeout c"
      "mLastMsg c1 = mLastMsg c"
    using configureDhcp_defined [OF assms] by blast
  obtain w2 where h: "haltNetwork c w = Some w2" using haltNetwork_defined by blast
  show ?thesis
    using t s c h by (cases "mState c") (auto simp: handle_message_def taken_def same_client_def edge_heard)
qed

text \<open>Answers of the system whose data is at most the 28 bytes of headers and a message with room.\<close>

definition small_reply :: "reply \<Rightarrow> bool" where
  "small_reply a \<longleftrightarrow> (case a of Refused e \<Rightarrow> True | Value n d cs \<Rightarrow> length d \<le> 1285)"

abbreviation small :: "net \<Rightarrow> bool" where
  "small w \<equiv> list_all small_reply (n_answers w)"

lemma small_uses: "uses w w' \<Longrightarrow> small w \<Longrightarrow> small w'"
  using uses_set by (fastforce simp: list_all_iff)

lemma received_roomy: "length b \<le> 1257 \<Longrightarrow> roomy (overwrite b Message_empty)"
  using received_props [of b] by (simp add: roomy_def received_def optionsSize_def)

lemma heard_earlier: "uses v w \<Longrightarrow> heard m c w w' \<Longrightarrow> uses w' v' \<Longrightarrow> heard m c v v'"
proof -
  assume "uses v w" "heard m c w w'" "uses w' v'"
  then obtain j k i xs n d cs ys where a: "n_answers w = drop j (n_answers v)" "n_answers w = xs @ Value n d cs # ys" "n_answers w' = drop k ys"
      "n_answers v' = drop i (n_answers w')" "m = overwrite (drop 28 (take (28 + sizeof_dhcp) d)) Message_empty"
      "isValidDhcpMessage OP_BOOTREPLY (d_xid (dhcpData (mLastMsg c))) m"
    by (auto simp: heard_def uses_def)
  then have "n_answers v = (take j (n_answers v) @ xs) @ Value n d cs # ys" "n_answers v' = drop (i + k) ys"
    by (metis append_assoc append_take_drop_id) (simp add: a)
  then show ?thesis using a(5,6) unfolding heard_def by blast
qed

lemma heard_same: "mLastMsg c' = mLastMsg c \<Longrightarrow> heard m c' w w' = heard m c w w'"
  by (simp add: heard_def)

lemma receive_roomy:
  assumes "small w"
  shows "\<exists>g m w'. receiveDhcpMessage c w = (g, m, w') \<and> uses w w' \<and> (g \<longrightarrow> roomy m \<and> heard m c w w')"
proof -
  obtain n b w1 where r: "net_read (Net_readv (mSocket c) (28 + sizeof_dhcp)) (28 + sizeof_dhcp) w = (n, b, w1)" by (metis prod_cases3)
  have l: "length b \<le> 1285 \<or> n < 0"
    using r assms by (auto simp: net_read_def net_answer_def small_reply_def split: list.splits reply.splits)
  have "n < 0 \<or> (\<exists>k d cs ys. n_answers w = [] @ Value k d cs # ys \<and> n_answers w1 = drop 0 ys \<and> b = take (28 + sizeof_dhcp) d)"
    using r by (auto simp: net_read_def net_answer_def split: list.splits reply.splits)
  then have h: "n < 0 \<or> isValidDhcpMessage OP_BOOTREPLY (d_xid (dhcpData (mLastMsg c))) (overwrite (drop 28 b) Message_empty) \<longrightarrow>
      n < 0 \<or> heard (overwrite (drop 28 b) Message_empty) c w w1"
    unfolding heard_def by blast
  show ?thesis
  proof (cases "n < 0 \<or> length b < 28")
    case True
    then show ?thesis using r uses_less(2) [OF r] by (auto simp: receiveDhcpMessage_def receiveRawUdp_def isValidDhcpMessage_def isValidDhcpMessage_op_def)
  next
    case False
    then show ?thesis using r uses_less(2) [OF r] l h received_roomy [of "drop 28 b"]
      by (auto simp: receiveDhcpMessage_def receiveRawUdp_def)
  qed
qed

definition hears :: "DhcpClient \<Rightarrow> net \<Rightarrow> net \<Rightarrow> State \<Rightarrow> State \<Rightarrow> bool" where
  "hears c w w' s s' \<longleftrightarrow> (\<exists>m. heard m c w w' \<and> dhcp_edge s (Heard m) s')"

lemma hears_earlier: "uses v w \<Longrightarrow> uses w' v' \<Longrightarrow> hears c w w' s s' \<Longrightarrow> hears c v v' s s'"
  unfolding hears_def using heard_earlier by blast

lemma taken_mono: "taken R dn c c' \<Longrightarrow> (\<And>s s'. R s s' \<Longrightarrow> Q s s') \<Longrightarrow> taken Q dn c c'"
  by (auto simp: taken_def)

lemma handle_input_defined:
  assumes "small w"
  shows "\<exists>dn c' w'. handle_input c w = Some (dn, c', w') \<and> uses w w' \<and> taken (hears c w w') dn c c'"
proof -
  obtain g m w1 where r: "receiveDhcpMessage c w = (g, m, w1)" "uses w w1" "g \<longrightarrow> roomy m \<and> heard m c w w1"
    using receive_roomy [OF assms] by blast
  show ?thesis
  proof (cases g)
    case True
    obtain dn c' w' where h: "handle_message m c w1 = Some (dn, c', w')" "taken (\<lambda>s. dhcp_edge s (Heard m)) dn c c'"
      using handle_message_defined [of m c w1] r(3) True by blast
    have u: "uses w1 w'" by (rule uses_handle_message [OF h(1)])
    have "heard m c w w'" using heard_earlier [OF uses_refl _ u] r(3) True by blast
    then have "taken (hears c w w') dn c c'" using h(2) by (elim taken_mono) (auto simp: hears_def)
    then show ?thesis using r True h(1) uses_trans [OF r(2) u] by (auto simp: handle_input_def)
  next
    case False
    then show ?thesis using r by (auto simp: handle_input_def taken_def)
  qed
qed

section \<open>A pass of the loop\<close>

text \<open>What a wait leaves: the same state and timeout, or one transition and no timeout.\<close>

abbreviation waited :: "DhcpClient \<Rightarrow> net \<Rightarrow> DhcpClient \<Rightarrow> net \<Rightarrow> bool" where
  "waited c w c' w' \<equiv> \<exists>dn. taken (hears c w w') dn c c'"

lemma wait_loop_defined:
  "small w \<Longrightarrow> \<exists>c' w'. wait_loop timeout c w = Some (c', w') \<and> waited c w c' w' \<and> uses w w'"
proof (induction timeout c w rule: wait_loop.induct)
  case (1 timeout c w)
  obtain startedAt w1 where n1: "now w = (startedAt, w1)" by fastforce
  obtain res w2 where p: "net_ppoll (mSocket c) timeout w1 = (res, w2)" by fastforce
  have "n_answers w1 = n_answers w" using now_answers(1) [of w] n1 by simp
  then have u: "uses w w2"
    using p by (intro usesI [of _ "if n_answers w1 = [] then 0 else 1"]) (auto simp: net_ppoll_def split: list.splits reply.splits)
  have idle: "waited c w c v" for v by (rule exI [of _ False]) (simp add: taken_def)
  show ?case
  proof (cases "res = 0")
    case True
    then show ?thesis using n1 p u idle by (subst wait_loop.simps) simp
  next
    case False
    obtain dn c1 w3 where h: "(if 0 < res then handle_input c w2 else Some (False, c, w2)) = Some (dn, c1, w3)" "uses w2 w3"
      "taken (hears c w2 w3) dn c c1"
      using handle_input_defined [OF small_uses [OF u "1.prems"], of c] by (cases "0 < res") (auto simp: taken_def)
    have u3: "uses w w3" by (rule uses_trans [OF u h(2)])
    obtain t w4 where n4: "now w3 = (t, w4)" by fastforce
    have u34: "uses w3 w4" using now_answers(1) [of w3] n4 by (intro usesI [of _ 0]) simp
    have u4: "uses w w4" by (rule uses_trans [OF u3 u34])
    have t34: "taken (hears c w w3) dn c c1" "taken (hears c w w4) dn c c1"
      by (rule taken_mono [OF h(3)], rule hears_earlier [OF u], simp_all add: u34)+
    show ?thesis
    proof (cases "dn \<or> startedAt + ucast timeout \<le> t")
      case True
      then show ?thesis using n1 p False h(1) n4 u3 u4 t34 by (subst wait_loop.simps) (auto simp: Let_def)
    next
      case on: False
      have "\<exists>c' w'. wait_loop (ucast (startedAt + ucast timeout - t)) c1 w4 = Some (c', w') \<and> waited c1 w4 c' w' \<and> uses w4 w'"
        using "1.IH" [OF n1 [symmetric] refl p [symmetric] refl False h(1) refl refl _ n4 [symmetric] refl refl] on small_uses [OF u4 "1.prems"]
        by blast
      then obtain c' w' dn' where i: "wait_loop (ucast (startedAt + ucast timeout - t)) c1 w4 = Some (c', w')" "taken (hears c1 w4 w') dn' c1 c'" "uses w4 w'"
        by blast
      have "mLastMsg c1 = mLastMsg c" using h(3) by (simp add: taken_def)
      then have eq: "hears c1 = hears c" by (simp add: hears_def heard_def fun_eq_iff)
      have "taken (hears c w w') dn' c1 c'"
        by (rule taken_mono [OF i(2)], rule hears_earlier [OF u4 uses_refl]) (simp only: eq)
      then have "taken (hears c w w') dn' c c'" using h(3) on by (simp add: taken_def same_client_def split: if_splits)
      then have "waited c w c' w'" by blast
      moreover have "wait_loop timeout c w = wait_loop (ucast (startedAt + ucast timeout - t)) c1 w4"
        using n1 p False h(1) n4 on by (subst wait_loop.simps) (auto simp: Let_def)
      ultimately show ?thesis using i(1) uses_trans [OF u4 i(3)] by metis
    qed
  qed
qed

lemma calculate_keeps:
  assumes "calculateTimeoutMillis c w = (t, w1)"
  shows "n_answers w1 = n_answers w" "n_calls w1 = n_calls w" "sNextTransactionId w1 = sNextTransactionId w" "n_time w1 = n_time w"
proof -
  obtain x v where r: "net_random 1000 w = (x, v)" by fastforce
  then have "n_answers v = n_answers w" "n_calls v = n_calls w" "sNextTransactionId v = sNextTransactionId w" "n_time v = n_time w"
    using net_random_keeps [of 1000 w] by simp_all
  then show "n_answers w1 = n_answers w" "n_calls w1 = n_calls w" "sNextTransactionId w1 = sNextTransactionId w" "n_time w1 = n_time w"
    using assms r by (auto simp: calculateTimeoutMillis_def Let_def split: if_splits)
qed

lemma waitAndReceive_defined:
  assumes "small w"
  shows "\<exists>c' w'. waitAndReceive c w = Some (c', w') \<and> waited c w c' w' \<and> uses w w' \<and> (mNextTimeout c = 0 \<longrightarrow> c' = c)"
proof (cases "mNextTimeout c = kNoTimeout")
  case False
  obtain t w1 where t: "calculateTimeoutMillis c w = (t, w1)" by fastforce
  note a = calculate_keeps(1) [OF t]
  have u: "uses w w1" using a by (intro usesI [of _ 0]) simp
  obtain c' w' dn where r: "wait_loop t c w1 = Some (c', w')" "taken (hears c w1 w') dn c c'" "uses w1 w'"
    using wait_loop_defined [of w1 t c] a assms by auto
  have "taken (hears c w w') dn c c'" by (rule taken_mono [OF r(2)], rule hears_earlier [OF u uses_refl])
  then show ?thesis using False t r uses_trans [OF u r(3)] by (auto simp: waitAndReceive_def)
next
  case True
  then show ?thesis by (auto simp: waitAndReceive_def taken_def intro: exI [of _ False])
qed

lemma act_defined:
  assumes "client_ok c"
  shows "\<exists>c' w'. act c w = Some (c', w') \<and> uses w w' \<and> same_client c c' \<and>
    (case due c w of
       Some k \<Rightarrow> dhcp_edge (mState c) k (mState c') \<and> mNextTimeout c' = 0
     | None \<Rightarrow> mState c' = mState c \<and> (mState c = Bound \<or> mNextTimeout c' \<in> timeouts))"
proof -
  have mac: "length (i_mac (mInterface c)) = ETH_ALEN" using assms by (simp add: client_ok_def)
  have ex: "uses w (snd (expired t w))" "fst (expired t w) \<longleftrightarrow> t \<le> fst (now w)" for t w
    by (simp_all add: expired_def Let_def split: prod.split) (metis snd_conv uses_fields(4) uses_refl)
  have rm: "uses w (snd (remainingMillis t w))" for t w by (simp add: remainingMillis_def Let_def split: prod.split) (metis snd_conv uses_fields(4) uses_refl)
  have inc: "mState c \<noteq> Bound \<Longrightarrow> mNextTimeout (increaseTimeout (c\<lparr>mLastMsg := m\<rparr>)) \<in> timeouts" for m
    using increaseTimeout_timeouts [of "c\<lparr>mLastMsg := m\<rparr>"] assms by (simp add: client_ok_def)
  have keep: "mState (increaseTimeout (c\<lparr>mLastMsg := m\<rparr>)) = mState c" "same_client c (increaseTimeout (c\<lparr>mLastMsg := m\<rparr>))" for m
    by (simp_all add: same_client_def)
  have send: "\<exists>c1 w1. (do { (c1, w1) \<leftarrow> sendDhcpRequest a c w; Some (increaseTimeout c1, w1) }) = Some (c1, w1) \<and> uses w w1 \<and> same_client c c1 \<and>
      mState c1 = mState c \<and> mNextTimeout c1 \<in> timeouts" if "mState c \<noteq> Bound" for a w
    using sendDhcpRequest_defined [OF mac, of a w] inc [OF that] keep by fastforce
  have sendd: "\<exists>c1 w1. (do { (c1, w1) \<leftarrow> sendDhcpDiscover c w; Some (increaseTimeout c1, w1) }) = Some (c1, w1) \<and> uses w w1 \<and> same_client c c1 \<and>
      mState c1 = mState c \<and> mNextTimeout c1 \<in> timeouts" if "mState c \<noteq> Bound" for w
    using sendDhcpDiscover_defined [OF mac, of w] inc [OF that] keep by fastforce
  show ?thesis
  proof (cases "mState c")
    case Init
    then show ?thesis by (simp add: act_def edge_from due_def)
  next
    case Selecting
    then show ?thesis using sendd [of w] by (fastforce simp: act_def due_def)
  next
    case Requesting
    then show ?thesis using send [of "mServerAddress c" w] by (cases "kMaxTimeout \<le> mNextTimeout c") (fastforce simp: act_def edge_from due_def)+
  next
    case Bound
    obtain e w1 where e: "expired (mT1 c) w = (e, w1)" by fastforce
    obtain r w2 where r: "remainingMillis (mT1 c) w1 = (r, w2)" by fastforce
    show ?thesis
      using Bound e r ex [where t = "mT1 c" and w = w] rm [of w1 "mT1 c"] uses_trans
      by (cases e) (auto simp: act_def edge_from due_def same_client_def)
  next
    case Renewing
    obtain e w1 where e: "expired (mT2 c) w = (e, w1)" by fastforce
    then have u: "uses w w1" "e \<longleftrightarrow> mT2 c \<le> fst (now w)" using ex [where t = "mT2 c" and w = w] by simp_all
    show ?thesis
      using Renewing e u send [of "mServerAddress c" w1] uses_trans [OF u(1)] by (cases e) (fastforce simp: act_def edge_from due_def)+
  next
    case Rebinding
    then show ?thesis using send [of INADDR_BROADCAST w] by (cases "kMaxTimeout \<le> mNextTimeout c") (fastforce simp: act_def edge_from due_def)+
  qed
qed

lemma client_step_defined:
  assumes "client_ok c" and "small w"
  shows "\<exists>c' w'. client_step c w = Some (c', w') \<and> client_ok c' \<and> uses w w' \<and> moves c w c' w'"
proof -
  obtain c1 w1 where 1: "act c w = Some (c1, w1)" "uses w w1" "same_client c c1"
    "case due c w of
       Some k \<Rightarrow> dhcp_edge (mState c) k (mState c1) \<and> mNextTimeout c1 = 0
     | None \<Rightarrow> mState c1 = mState c \<and> (mState c = Bound \<or> mNextTimeout c1 \<in> timeouts)"
    using act_defined [OF assms(1)] by blast
  obtain c' w' dn where 2: "waitAndReceive c1 w1 = Some (c', w')" "taken (hears c1 w1 w') dn c1 c'" "uses w1 w'" "mNextTimeout c1 = 0 \<longrightarrow> c' = c1"
    using waitAndReceive_defined [OF small_uses [OF 1(2) assms(2)]] by blast
  have z: "0 \<in> timeouts" by (simp add: timeouts_def)
  have ok: "client_ok c'"
    using 1(3,4) 2(2,4) z assms(1) by (auto simp: client_ok_def taken_def same_client_def split: option.splits if_splits)
  have "moves c w c' w'"
  proof (cases "due c w")
    case None
    have l: "mLastMsg c' = mLastMsg c1" using 2(2) by (simp add: taken_def)
    have "hears c1 w w' s s' \<Longrightarrow> \<exists>m. heard m c' w w' \<and> dhcp_edge s (Heard m) s'" for s s'
      by (auto simp: hears_def heard_same [OF l])
    then have "taken (\<lambda>s s'. \<exists>m. heard m c' w w' \<and> dhcp_edge s (Heard m) s') dn c1 c'"
      using taken_mono [OF 2(2)] hears_earlier [OF 1(2) uses_refl] by (smt (verit, ccfv_threshold))
    then show ?thesis using None 1(4) by (auto simp: moves_def taken_def split: if_splits)
  next
    case (Some k)
    then show ?thesis using 1(4) 2(4) by (simp add: moves_def)
  qed
  then show ?thesis using 1(1) 2(1) uses_trans [OF 1(2) 2(3)] ok by (simp add: client_step_def)
qed

lemma client_run_defined:
  assumes "client_ok c" and "small w"
  shows "\<exists>c' w'. client_run n c w = Some (c', w') \<and> client_ok c' \<and> small w'"
  using assms
proof (induction n arbitrary: c w)
  case (Suc n)
  obtain c1 w1 where "client_step c w = Some (c1, w1)" "client_ok c1" "uses w w1"
    using client_step_defined [OF Suc.prems] by blast
  then show ?case using Suc.IH [of c1 w1] small_uses [OF _ Suc.prems(2)] by simp
qed simp

text \<open>C6: The client runs for ever and makes only the transitions of RFC 2131, each for its own reason. From any client with a
  hardware address and a legal timeout, and for any behaviour of the system (errors, garbage, forged or cut packets, any clock), as long
  as no packet fills the last three bytes of the options: any number of passes of the loop is defined, and so is the next one; the
  timeout stays one of the exponential steps up to 64 seconds outside \<open>Bound\<close>; and the next pass makes the transition that
  is due at its beginning (\<open>Init\<close> to \<open>Selecting\<close>; \<open>Requesting\<close> or \<open>Rebinding\<close> back to \<open>Init\<close> exactly when the timeout has reached
  64 seconds; \<open>Bound\<close> to \<open>Renewing\<close> exactly when the clock has reached T1, \<open>Renewing\<close> to \<open>Rebinding\<close> exactly when it has reached T2),
  and otherwise stays or makes one transition for a message that the system delivered in this pass and that replies to the
  client's last one: an offer from \<open>Selecting\<close> to \<open>Requesting\<close>, and from \<open>Requesting\<close>, \<open>Renewing\<close> or \<open>Rebinding\<close> an acknowledgement to
  \<open>Bound\<close> or a refusal to \<open>Init\<close>.\<close>

theorem dhcp_client_safe:
  assumes "client_ok c" and "small w"
  shows "\<exists>c1 w1 c2 w2. client_run n c w = Some (c1, w1) \<and> client_step c1 w1 = Some (c2, w2) \<and> client_ok c2 \<and> moves c1 w1 c2 w2"
proof -
  obtain c1 w1 where 1: "client_run n c w = Some (c1, w1)" "client_ok c1" "small w1" using client_run_defined [OF assms] by blast
  then show ?thesis using client_step_defined [OF 1(2,3)] by blast
qed

theorem dhcp_client_safe_witness:
  "\<exists>c1 w1 c2 w2. client_run 7 (DhcpClient_new 0) (net0\<lparr>n_answers := [Value 1 [] [], Refused EIO, Value 3 (replicate 1285 255) []]\<rparr>) = Some (c1, w1) \<and>
    client_step c1 w1 = Some (c2, w2) \<and> client_ok c2 \<and> moves c1 w1 c2 w2"
  by (rule dhcp_client_safe)
     (simp_all add: client_ok_def DhcpClient_new_def Interface_new_def timeouts_def small_reply_def)

end
