(* ===== verification/Dhcp_Retry.thy ===== *)
theory Dhcp_Retry
  imports Dhcp_Machine
begin

text \<open>
  How the client keeps trying and gives up, what it makes of extreme leases, and where its reading of options goes
  wrong.
\<close>

section \<open>Requests without an answer\<close>

definition next_timeout :: "u32 \<Rightarrow> u32" where
  "next_timeout b = (if b = 0 then 4000 else if b < 64000 then min 64000 (b * 2) else 64000)"

lemma increase_is_next: "increaseTimeout c = c\<lparr>mNextTimeout := next_timeout (mNextTimeout c)\<rparr>"
  by (cases c) (auto simp: increaseTimeout_def next_timeout_def Let_def)

text \<open>A timeout within a second of its base.\<close>

definition near :: "u32 \<Rightarrow> u32 \<Rightarrow> bool" where
  "near t b \<longleftrightarrow> uint b - 1000 \<le> uint t \<and> uint t \<le> uint b + 1000"

lemma word_shift:
  assumes "- 1000 \<le> a" and "a \<le> (1000 :: int)" and "1000 \<le> uint (b :: u32)" and "uint b \<le> 64000"
  shows "uint (b + of_int a) = uint b + a"
proof -
  have "uint (b + of_int a) = (uint b + a) mod 2 ^ 32"
    by (simp add: uint_word_ariths uint_word_of_int mod_add_right_eq)
  then show ?thesis using assms by simp
qed

lemma timeout_near:
  assumes "calculateTimeoutMillis c w = (t, w1)" and "mNextTimeout c \<in> timeouts" and "mNextTimeout c \<noteq> 0"
  shows "near t (mNextTimeout c) \<and> n_answers w1 = n_answers w \<and> n_calls w1 = n_calls w"
proof (cases "mFuzzNextTimeout c")
  case False
  then show ?thesis using assms(1) by (simp add: calculateTimeoutMillis_def near_def)
next
  case True
  obtain a v where r: "net_random 1000 w = (a, v)" by fastforce
  then have v: "n_answers v = n_answers w" "n_calls v = n_calls w" and a: "- 1000 \<le> a" "a \<le> 1000"
    using net_random_keeps [of 1000 w] net_random_bounds [of 1000 w] by simp_all
  have b: "1000 < uint (mNextTimeout c)" "uint (mNextTimeout c) \<le> 64000" using assms(2,3) by (auto simp: timeouts_def)
  have "uint (of_int (- a) :: u32) \<le> 1000" if "a < 0"
    using a that by (simp only: uint_word_of_int) simp
  then have "\<not> (a < 0 \<and> mNextTimeout c < of_int (- a))" using b(1) by (auto simp: word_less_def)
  then have "t = mNextTimeout c + of_int a" "w1 = v" using assms(1) True r by (auto simp: calculateTimeoutMillis_def)
  then show ?thesis using word_shift [OF a, of "mNextTimeout c"] a b v by (simp add: near_def)
qed

text \<open>
  The request of the client \<open>c\<close> under the transaction id \<open>x\<close>: from its hardware address, with exactly the options of a request for its
  address, the server identifier being its server when it is requesting and 255.255.255.255 when it is rebinding.
\<close>

definition asks_for :: "DhcpClient \<Rightarrow> u32 \<Rightarrow> Message \<Rightarrow> bool" where
  "asks_for c x m \<longleftrightarrow>
     ended m (request_options (mRequestAddress c) (if mState c = Requesting then mServerAddress c else 0xFFFFFFFF)) \<and>
     isValidDhcpMessage OP_BOOTREQUEST (htonl x) m \<and> take ETH_ALEN (d_chaddr (dhcpData m)) = i_mac (mInterface c)"

lemma request_asks:
  assumes "length (i_mac (mInterface c)) = ETH_ALEN"
  shows "\<exists>m. request (i_mac (mInterface c)) (mRequestAddress c) (if mState c = Requesting then mServerAddress c else 0xFFFFFFFF) x = Some (m, x + 1) \<and>
    asks_for c x m"
proof -
  obtain m where m: "request (i_mac (mInterface c)) (mRequestAddress c) (if mState c = Requesting then mServerAddress c else 0xFFFFFFFF) x = Some (m, x + 1)"
      "ended m (request_options (mRequestAddress c) (if mState c = Requesting then mServerAddress c else 0xFFFFFFFF))"
      "same_header (fst (Message_new OP_BOOTREQUEST (i_mac (mInterface c)) DHCPREQUEST x)) m"
    using request_ended [OF assms] by blast
  then show ?thesis
    using valid_ended [OF m(2)] same_header_fields [OF m(3)] assms by (auto simp: asks_for_def Message_new_def)
qed

text \<open>The calls of one try: the message broadcast in a packet from the client's port to the server's, and a wait that times out.\<close>

definition try_calls :: "DhcpClient \<Rightarrow> Message \<times> u32 \<Rightarrow> net_call list" where
  "try_calls c = (\<lambda>(m, t).
     [Net_sendmsg (mSocket c) (raw_packet 0 PORT_BOOTP_CLIENT INADDR_BROADCAST PORT_BOOTP_SERVER (data_of m)) (Sockaddr_ll (i_index (mInterface c)) (replicate 6 0xFF)) 0,
      Net_ppoll (mSocket c) t])"

abbreviation try_script :: "reply \<Rightarrow> reply list" where
  "try_script a \<equiv> [a, Value 0 [] []]"

lemma silent_step:
  assumes "mState c = s" and "s = Requesting \<or> s = Rebinding" and "length (i_mac (mInterface c)) = ETH_ALEN"
    and "mNextTimeout c \<in> timeouts" and "mNextTimeout c < 64000" and "n_answers w = try_script a @ rest"
  shows "\<exists>m t w'. client_step c w = Some (c\<lparr>mLastMsg := m, mNextTimeout := next_timeout (mNextTimeout c)\<rparr>, w') \<and> n_answers w' = rest \<and>
    n_calls w' = n_calls w @ try_calls c (m, t) \<and>
    near t (next_timeout (mNextTimeout c)) \<and> asks_for c (sNextTransactionId w) m \<and> sNextTransactionId w' = sNextTransactionId w + 1"
proof -
  let ?dst = "if mState c = Requesting then mServerAddress c else 0xFFFFFFFF"
  obtain m where m: "request (i_mac (mInterface c)) (mRequestAddress c) ?dst (sNextTransactionId w) = Some (m, sNextTransactionId w + 1)"
      "asks_for c (sNextTransactionId w) m"
    using request_asks [OF assms(3)] by blast
  have e: "ended m (request_options (mRequestAddress c) ?dst)" using m(2) by (simp add: asks_for_def)
  define p where "p = raw_packet 0 PORT_BOOTP_CLIENT INADDR_BROADCAST PORT_BOOTP_SERVER (data_of m)"
  define w0 where "w0 = w\<lparr>sNextTransactionId := sNextTransactionId w + 1\<rparr>"
  obtain w1 where s: "sendMessage m (c\<lparr>mLastMsg := m\<rparr>) w0 = Some w1" using sendMessage_defined [OF e] by blast
  from sendMessage_is [OF e s] obtain r d where
    n: "net_call (Net_sendmsg (mSocket c) p (Sockaddr_ll (i_index (mInterface c)) (replicate 6 0xFF)) 0) w0 = (r, d, w1)"
    by (auto simp: p_def)
  have w1: "n_answers w1 = Value 0 [] [] # rest" "sNextTransactionId w1 = sNextTransactionId w + 1"
    "n_calls w1 = n_calls w @ [Net_sendmsg (mSocket c) p (Sockaddr_ll (i_index (mInterface c)) (replicate 6 0xFF)) 0]"
    using n assms(6) by (auto simp: net_call_def net_answer_def w0_def split: reply.splits)
  define c1 where "c1 = c\<lparr>mLastMsg := m, mNextTimeout := next_timeout (mNextTimeout c)\<rparr>"
  have send: "sendDhcpRequest ?dst c w = Some (c\<lparr>mLastMsg := m\<rparr>, w1)" using m(1) s by (simp add: sendDhcpRequest_def w0_def)
  have act: "act c w = Some (c1, w1)"
    using assms(1,2,5) send by (auto simp: act_def increase_is_next c1_def)
  have nt: "mNextTimeout c1 \<in> timeouts" "mNextTimeout c1 \<noteq> 0"
    using assms(4,5) by (auto simp: c1_def timeouts_def next_timeout_def)
  obtain t w2 where t: "calculateTimeoutMillis c1 w1 = (t, w2)" by fastforce
  note tn = timeout_near [OF t nt]
  note x2 = calculate_keeps(3) [OF t]
  obtain q w3 where q: "now w2 = (q, w3)" by fastforce
  have w3: "n_answers w3 = n_answers w2" "n_calls w3 = n_calls w2" "sNextTransactionId w3 = sNextTransactionId w2"
    using now_answers [of w2] q by simp_all
  have wl: "wait_loop t c1 w2 = Some (c1, (net_log (Net_ppoll (mSocket c) t) w3)\<lparr>n_answers := rest\<rparr>)"
    using q w3 tn w1 by (subst wait_loop.simps) (simp add: net_ppoll_def c1_def)
  have "client_step c w = Some (c1, (net_log (Net_ppoll (mSocket c) t) w3)\<lparr>n_answers := rest\<rparr>)"
    using act nt(2) t wl by (simp add: client_step_def waitAndReceive_def)
  then show ?thesis using m(2) w1 w3 tn x2 by (auto simp: c1_def try_calls_def p_def)
qed

lemma silent_run:
  assumes "s = Requesting \<or> s = Rebinding"
  shows "mState c = s \<Longrightarrow> length (i_mac (mInterface c)) = ETH_ALEN \<Longrightarrow> mNextTimeout c \<in> timeouts \<Longrightarrow>
    (\<And>j. j < length as \<Longrightarrow> (next_timeout ^^ j) (mNextTimeout c) < 64000) \<Longrightarrow>
    n_answers w = concat (map try_script as) @ rest \<Longrightarrow>
    \<exists>m' w' ms ts. client_run (length as) c w = Some (c\<lparr>mLastMsg := m', mNextTimeout := (next_timeout ^^ length as) (mNextTimeout c)\<rparr>, w') \<and>
      n_answers w' = rest \<and> n_calls w' = n_calls w @ concat (map (try_calls c) (zip ms ts)) \<and>
      list_all2 (asks_for c) (map (\<lambda>j. sNextTransactionId w + of_nat j) [0..<length as]) ms \<and> sNextTransactionId w' = sNextTransactionId w + of_nat (length as) \<and>
      list_all2 near ts (map (\<lambda>j. (next_timeout ^^ Suc j) (mNextTimeout c)) [0..<length as])"
proof (induction as arbitrary: c w)
  case Nil
  then show ?case by (auto intro!: exI [of _ "mLastMsg c"])
next
  case (Cons a as)
  let ?b = "mNextTimeout c"
  have "?b < 64000" using Cons.prems(4) [of 0] by simp
  moreover have "n_answers w = try_script a @ (concat (map try_script as) @ rest)" using Cons.prems(5) by simp
  ultimately obtain m t w1 where 1: "client_step c w = Some (c\<lparr>mLastMsg := m, mNextTimeout := next_timeout ?b\<rparr>, w1)"
      "n_answers w1 = concat (map try_script as) @ rest" "near t (next_timeout ?b)"
      "n_calls w1 = n_calls w @ try_calls c (m, t)" "asks_for c (sNextTransactionId w) m" "sNextTransactionId w1 = sNextTransactionId w + 1"
    using silent_step [OF Cons.prems(1) assms Cons.prems(2,3), of w a] by blast
  define c1 where "c1 = c\<lparr>mLastMsg := m, mNextTimeout := next_timeout ?b\<rparr>"
  have tm: "next_timeout ?b \<in> timeouts" using Cons.prems(3) by (auto simp: timeouts_def next_timeout_def)
  have nx: "(next_timeout ^^ j) (mNextTimeout c1) = (next_timeout ^^ Suc j) ?b" for j
    by (simp add: c1_def funpow_swap1)
  have cc: "try_calls c1 = try_calls c" "asks_for c1 = asks_for c" by (simp_all add: try_calls_def asks_for_def c1_def fun_eq_iff)
  have "\<exists>m' w' ms ts. client_run (length as) c1 w1 = Some (c1\<lparr>mLastMsg := m', mNextTimeout := (next_timeout ^^ length as) (mNextTimeout c1)\<rparr>, w') \<and>
      n_answers w' = rest \<and> n_calls w' = n_calls w1 @ concat (map (try_calls c1) (zip ms ts)) \<and>
      list_all2 (asks_for c1) (map (\<lambda>j. sNextTransactionId w1 + of_nat j) [0..<length as]) ms \<and>
      sNextTransactionId w' = sNextTransactionId w1 + of_nat (length as) \<and>
      list_all2 near ts (map (\<lambda>j. (next_timeout ^^ Suc j) (mNextTimeout c1)) [0..<length as])"
    using Cons.prems Cons.prems(4) [of "Suc j" for j] tm 1(2) by (intro Cons.IH) (auto simp: c1_def funpow_swap1)
  then obtain m' w' ms ts where 2: "client_run (length as) c1 w1 = Some (c1\<lparr>mLastMsg := m', mNextTimeout := (next_timeout ^^ length as) (mNextTimeout c1)\<rparr>, w')"
      "n_answers w' = rest" "n_calls w' = n_calls w1 @ concat (map (try_calls c) (zip ms ts))"
      "list_all2 (asks_for c) (map (\<lambda>j. sNextTransactionId w1 + of_nat j) [0..<length as]) ms"
      "sNextTransactionId w' = sNextTransactionId w1 + of_nat (length as)"
      "list_all2 near ts (map (\<lambda>j. (next_timeout ^^ Suc j) (mNextTimeout c1)) [0..<length as])" unfolding cc by blast
  have "client_run (length (a # as)) c w = Some (c\<lparr>mLastMsg := m', mNextTimeout := (next_timeout ^^ length (a # as)) ?b\<rparr>, w')"
    using 1(1) 2(1) nx [of "length as"] by (simp add: c1_def)
  moreover have "n_calls w' = n_calls w @ concat (map (try_calls c) (zip (m # ms) (t # ts)))"
    using 1(4) 2(3) by simp
  moreover have "list_all2 near (t # ts) (map (\<lambda>j. (next_timeout ^^ Suc j) ?b) [0..<length (a # as)])"
    using 1(3) 2(6) by (simp add: nx upt_conv_Cons map_Suc_upt [symmetric] del: upt_Suc funpow.simps) (simp add: comp_def)
  moreover have "list_all2 (asks_for c) (map (\<lambda>j. sNextTransactionId w + of_nat j) [0..<length (a # as)]) (m # ms)"
    using 1(5,6) 2(4) by (simp add: upt_conv_Cons map_Suc_upt [symmetric] del: upt_Suc) (simp add: comp_def ac_simps)
  moreover have "sNextTransactionId w' = sNextTransactionId w + of_nat (length (a # as))" using 1(6) 2(5) by (simp add: ac_simps)
  ultimately show ?case using 2(2) by blast
qed

text \<open>C7: An unanswered client tries five times and starts over. From the moment it asks for an address, or tries to renew one
  from any server, while the system sends its packets (or fails to) and every wait times out, the client makes exactly these calls:
  five times it broadcasts a packet whose data is a DHCPREQUEST from its hardware address for its address, under five consecutive
  transaction ids, naming its server when it is requesting and 255.255.255.255 when it is rebinding, and waits 4, 8, 16, 32 and 64
  seconds for an answer, each up to a second more or less; and the next pass takes it back to \<open>Init\<close>.\<close>

theorem request_gives_up:
  assumes "mState c = Requesting \<or> mState c = Rebinding" and "length (i_mac (mInterface c)) = ETH_ALEN" and "mNextTimeout c = 0"
    and "n_answers w = concat (map try_script as) @ later" and "length as = 5"
  shows "\<exists>c' w' ms ts. client_run 6 c w = Some (c', w') \<and> mState c' = Init \<and> n_answers w' = later \<and>
    n_calls w' = n_calls w @ concat (map (try_calls c) (zip ms ts)) \<and>
    list_all2 (asks_for c) (map (\<lambda>j. sNextTransactionId w + of_nat j) [0..<5]) ms \<and> sNextTransactionId w' = sNextTransactionId w + 5 \<and> list_all2 near ts [4000, 8000, 16000, 32000, 64000]"
proof -
  have nt: "next_timeout 0 = 4000" "next_timeout 4000 = 8000" "next_timeout 8000 = 16000" "next_timeout 16000 = 32000" "next_timeout 32000 = 64000"
    by (simp_all add: next_timeout_def)
  have e5: "5 = Suc (Suc (Suc (Suc (Suc 0))))" by simp
  have nx: "(next_timeout ^^ j) 0 < 64000" if "j < 5" for j
  proof -
    from that have "j = 0 \<or> j = Suc 0 \<or> j = Suc (Suc 0) \<or> j = Suc (Suc (Suc 0)) \<or> j = Suc (Suc (Suc (Suc 0)))" by linarith
    then show ?thesis by (elim disjE) (simp_all add: nt)
  qed
  have 5: "(next_timeout ^^ 5) 0 = 64000" unfolding e5 by (simp add: nt)
  have l: "map (\<lambda>j. (next_timeout ^^ Suc j) 0) [0..<5] = [4000, 8000, 16000, 32000, 64000]"
    unfolding e5 by (simp add: nt)
  obtain m' w1 ms ts where 1: "client_run 5 c w = Some (c\<lparr>mLastMsg := m', mNextTimeout := (next_timeout ^^ 5) 0\<rparr>, w1)"
      "n_answers w1 = later" "n_calls w1 = n_calls w @ concat (map (try_calls c) (zip ms ts))"
      "list_all2 (asks_for c) (map (\<lambda>j. sNextTransactionId w + of_nat j) [0..<5]) ms" "sNextTransactionId w1 = sNextTransactionId w + 5"
      "list_all2 near ts (map (\<lambda>j. (next_timeout ^^ Suc j) 0) [0..<5])"
    using silent_run [OF assms(1) refl assms(2), of as w later] assms(3-5) nx by (auto simp: timeouts_def)
  define c5 where "c5 = c\<lparr>mLastMsg := m', mNextTimeout := (next_timeout ^^ 5) 0\<rparr>"
  have "client_step c5 w1 = Some (setNextState Init c5, w1)"
    using assms(1) 5 by (auto simp: client_step_def act_def c5_def waitAndReceive_def)
  then have 6: "client_run 1 c5 w1 = Some (setNextState Init c5, w1)" by simp
  have "client_run (n + k) c w = client_run n c w \<bind> (\<lambda>(c, w). client_run k c w)" for n k c w
    by (induction n arbitrary: c w) (auto split: bind_splits prod.splits)
  from this [of 5 1 c w] have "client_run 6 c w = Some (setNextState Init c5, w1)" using 1(1) 6 by (simp add: c5_def)
  moreover have "mState (setNextState Init c5) = Init" by simp
  ultimately show ?thesis using 1(2-6) l by metis
qed

theorem request_gives_up_witness:
  "\<exists>c' w' ms ts. client_run 6 ((DhcpClient_new 0)\<lparr>mState := Rebinding, mNextTimeout := 0\<rparr>)
      (net0\<lparr>n_answers := concat (map try_script (replicate 5 (Refused EIO))) @ [Value 9 [] []]\<rparr>) = Some (c', w') \<and>
    mState c' = Init \<and> n_answers w' = [Value 9 [] []] \<and>
    n_calls w' = n_calls (net0\<lparr>n_answers := concat (map try_script (replicate 5 (Refused EIO))) @ [Value 9 [] []]\<rparr>) @
      concat (map (try_calls ((DhcpClient_new 0)\<lparr>mState := Rebinding, mNextTimeout := 0\<rparr>)) (zip ms ts)) \<and>
    list_all2 (asks_for ((DhcpClient_new 0)\<lparr>mState := Rebinding, mNextTimeout := 0\<rparr>))
      (map (\<lambda>j. sNextTransactionId (net0\<lparr>n_answers := concat (map try_script (replicate 5 (Refused EIO))) @ [Value 9 [] []]\<rparr>) + of_nat j) [0..<5]) ms \<and>
    sNextTransactionId w' = sNextTransactionId (net0\<lparr>n_answers := concat (map try_script (replicate 5 (Refused EIO))) @ [Value 9 [] []]\<rparr>) + 5 \<and>
    list_all2 near ts [4000, 8000, 16000, 32000, 64000]"
  by (rule request_gives_up [where as = "replicate 5 (Refused EIO)"]) (simp_all add: DhcpClient_new_def Interface_new_def)

end
