(* ===== verification/Dhcp_Session.thy ===== *)
theory Dhcp_Session
  imports Dhcp_Machine
begin

text \<open>
  From no address to a lease. What the client relies on of a server is an interface (locale); the offers and
  acknowledgements that \<^verbatim>\<open>message.cpp\<close> builds are an interpretation of it.
\<close>

section \<open>Putting a lease into effect\<close>

fun dns_calls :: "u8 list \<Rightarrow> nat \<Rightarrow> u32 list \<Rightarrow> net_call list" where
  "dns_calls nm i [] = []"
| "dns_calls nm i (a # as) = Net_property (take 63 (asc ''vendor.net.'' @ nm @ asc ''.dns'' @ dec (i + 1))) (if a \<noteq> 0 then addrToStr a else []) # dns_calls nm (i + 1) as"

definition property_calls :: "DhcpClient \<Rightarrow> net_call list" where
  "property_calls c = Net_property (take 63 (asc ''vendor.net.'' @ asc (i_name (mInterface c)) @ asc ''.gw'')) (addrToStr (gateway (mDhcpInfo c)))
     # dns_calls (asc (i_name (mInterface c))) 0 (dns (mDhcpInfo c))"

lemma property_set_serve:
  "n_answers w = a # later \<Longrightarrow> property_set n v w = (case a of
     Refused e \<Rightarrow> (net_log (Net_property (take 63 n) v) (w\<lparr>n_answers := later\<rparr>))\<lparr>n_errno := e\<rparr>
   | Value k d cs \<Rightarrow> net_log (Net_property (take 63 n) v) (w\<lparr>n_answers := later\<rparr>))"
  by (simp add: property_set_def net_call_def net_answer_def split: reply.split)

lemma property_set_props:
  assumes "n_answers w = a # later"
  shows "n_answers (property_set n v w) = later" "n_calls (property_set n v w) = n_calls w @ [Net_property (take 63 n) v]"
  using property_set_serve [OF assms] by (simp_all split: reply.split)

lemma set_dns_props:
  "n_answers w = rs @ later \<Longrightarrow> length rs = length as \<Longrightarrow>
   n_answers (set_dns_properties nm i as w) = later \<and> n_calls (set_dns_properties nm i as w) = n_calls w @ dns_calls nm i as"
proof (induction as arbitrary: i w rs)
  case (Cons a as)
  then obtain r rs' where rs: "rs = r # rs'" by (cases rs) auto
  then have "n_answers w = r # (rs' @ later)" using Cons.prems(1) by simp
  note p = property_set_props [OF this, of "asc ''vendor.net.'' @ nm @ asc ''.dns'' @ dec (i + 1)" "if a \<noteq> 0 then addrToStr a else []"]
  show ?case using Cons.IH [OF p(1), of "i + 1"] Cons.prems(2) rs p(2) by simp
qed simp

lemma set_properties_props:
  assumes "n_answers w = rs @ later" and "length rs = 5" and "length (dns (mDhcpInfo c)) = 4"
  shows "n_answers (set_properties c w) = later \<and> n_calls (set_properties c w) = n_calls w @ property_calls c"
proof -
  obtain r rs' where rs: "rs = r # rs'" "length rs' = 4" using assms(2) by (cases rs) auto
  then have "n_answers w = r # (rs' @ later)" using assms(1) by simp
  note p = property_set_props [OF this, of "asc ''vendor.net.'' @ asc (i_name (mInterface c)) @ asc ''.gw''" "addrToStr (gateway (mDhcpInfo c))"]
  show ?thesis
    using set_dns_props [OF p(1), of "dns (mDhcpInfo c)" "asc (i_name (mInterface c))" 0] rs(2) assms(3) p(2)
    by (simp add: set_properties_def Let_def property_calls_def)
qed

text \<open>The answers of a willing system: the interface is up, the properties are set or not, the address and the route are taken.\<close>

definition lease_script :: "u8 list \<Rightarrow> reply list \<Rightarrow> u8 list \<Rightarrow> reply list" where
  "lease_script flags props resp = Value 0 flags [] # props @ [Value 48 [] [], Value (length resp) resp [], Value 44 [] []]"

definition willing :: "u8 list \<Rightarrow> reply list \<Rightarrow> u8 list \<Rightarrow> bool" where
  "willing flags props resp \<longleftrightarrow> flags \<noteq> [] \<and> bit (hd flags) 0 \<and> length props = 5 \<and> netlink_response (take 8192 resp) = Success"

definition route_packet :: "u32 \<Rightarrow> u32 \<Rightarrow> u8 list" where
  "route_packet g ix = take 44 (nl_bytes (the (route_request g ix)))"

lemma route_packet_says:
  "attributes (drop 28 (route_packet g ix)) = Some [(5, le32 g), (4, le32 ix)]" "get16 (route_packet g ix) 4 = 24"
proof -
  obtain r where r: "route_request g ix = Some r" using route_request_is by blast
  define p where "p = route_packet g ix"
  have p: "p = (le32 44 @ le16 24 @ le16 (nlmsg_flags r) @ le32 0 @ le32 0 @ [2, 0, 0, 0, 254, 3, 0, 1] @ le32 0)
      @ (le16 8 @ le16 5 @ le32 g @ (le16 8 @ le16 4 @ le32 ix @ []))"
    using route_bytes(2) [OF r] by (simp add: p_def route_packet_def r)
  have "attributes [] = Some []" by (simp add: attributes.simps)
  then show "attributes (drop 28 (route_packet g ix)) = Some [(5, le32 g), (4, le32 ix)]"
    unfolding p_def [symmetric] p by (simp add: attributes_cons del: append_Nil2)
  show "get16 (route_packet g ix) 4 = 24"
    using get_append(1) [of "le32 44" _ 0] unfolding p_def [symmetric] p by simp
qed

definition lease_calls :: "DhcpClient \<Rightarrow> net_call list" where
  "lease_calls c = [Net_ioctl (i_fd (mInterface c)) SIOCGIFFLAGS (createRequest (mInterface c))] @ property_calls c @
     [Net_sendto (i_fd (mInterface c)) (address_packet (offeredAddress (mDhcpInfo c)) (subnetMask (mDhcpInfo c)) (i_index (mInterface c))) Sockaddr_nl,
      Net_recv (i_fd (mInterface c)) 8192,
      Net_sendto (mRouter c) (route_packet (gateway (mDhcpInfo c)) (i_index (mInterface c))) Sockaddr_nl]"

lemma bringUp_up:
  assumes "n_answers w = Value 0 flags [] # later" and "flags \<noteq> []" and "bit (hd flags) 0"
  shows "bringUp i w = (Success, net_log (Net_ioctl (i_fd i) SIOCGIFFLAGS (createRequest i)) (w\<lparr>n_answers := later\<rparr>))"
proof -
  obtain f fs where f: "flags = f # fs" using assms(2) by (cases flags) auto
  have "bit (get16 (take 24 (flags @ replicate 24 0)) 0) 0" using assms(3) by (simp add: f get16_def bit_simps)
  then have "get16 (take 24 (flags @ replicate 24 0)) 0 AND 1 \<noteq> 0" by (simp add: and_exp_eq_0_iff_not_bit [of _ 0, simplified])
  then show ?thesis using assms(1) by (simp add: bringUp_def setInterfaceUp_def if_ioctl_def net_call_def net_answer_def)
qed

lemma apply_lease_willing:
  assumes "n_answers w = lease_script flags props resp @ later" and "willing flags props resp"
    and "mtu (mDhcpInfo c) = 0" and "mOptions c AND 1 = 0" and "length (dns (mDhcpInfo c)) = 4"
  shows "\<exists>w'. apply_lease c w = Some (True, w') \<and> n_answers w' = later \<and> n_calls w' = n_calls w @ lease_calls c \<and> n_time w' = n_time w"
proof -
  let ?i = "mInterface c" and ?info = "mDhcpInfo c"
  have a: "n_answers w = Value 0 flags [] # (props @ Value 48 [] [] # Value (length resp) resp [] # Value 44 [] [] # later)"
    using assms(1) by (simp add: lease_script_def)
  have wl: "flags \<noteq> []" "bit (hd flags) 0" "length props = 5" "netlink_response (take 8192 resp) = Success"
    using assms(2) by (auto simp: willing_def)
  define w1 where "w1 = net_log (Net_ioctl (i_fd ?i) SIOCGIFFLAGS (createRequest ?i)) (w\<lparr>n_answers := props @ Value 48 [] [] # Value (length resp) resp [] # Value 44 [] [] # later\<rparr>)"
  have up: "bringUp ?i w = (Success, w1)" using bringUp_up [OF a wl(1,2)] by (simp add: w1_def)
  define w2 where "w2 = set_properties c w1"
  have w2: "n_answers w2 = Value 48 [] [] # Value (length resp) resp [] # Value 44 [] [] # later" "n_calls w2 = n_calls w1 @ property_calls c"
    using set_properties_props [OF _ wl(3) assms(5), of w1] by (simp_all add: w1_def w2_def)
  have ps: "n_time (property_set n v w) = n_time w" for n v w
    by (simp add: property_set_def net_call_def net_answer_def split: list.split reply.split)
  have "n_time (set_dns_properties n i as w) = n_time w" for n i as w
    by (induction as arbitrary: i w) (simp_all add: ps)
  then have t2: "n_time w2 = n_time w" by (simp add: w2_def set_properties_def Let_def ps w1_def)
  define w3 where "w3 = net_log (Net_recv (i_fd ?i) 8192) (net_log (Net_sendto (i_fd ?i) (address_packet (offeredAddress ?info) (subnetMask ?info) (i_index ?i)) Sockaddr_nl) w2)\<lparr>n_answers := Value 44 [] [] # later\<rparr>"
  have ad: "setAddress (offeredAddress ?info) (subnetMask ?info) ?i w2 = Some (Success, w3)"
    using setAddress_serve [OF w2(1) wl(4)] by (simp add: w3_def)
  obtain r where r: "route_request (gateway ?info) (i_index ?i) = Some r" using route_request_is by blast
  note b = route_bytes [OF r]
  have w3: "n_answers w3 = Value 44 [] [] # later" by (simp add: w3_def)
  have "setDefaultGateway (gateway ?info) (i_index ?i) (mRouter c) w3 = Some (Success,
      net_log (Net_sendto (mRouter c) (route_packet (gateway ?info) (i_index ?i)) Sockaddr_nl) (w3\<lparr>n_answers := later\<rparr>))"
    using r b nl_send_serve [OF _ w3, of r "mRouter c"] by (simp add: setDefaultGateway_def sendNetlinkMessage_def route_packet_def)
  then have "apply_lease c w = Some (True, net_log (Net_sendto (mRouter c) (route_packet (gateway ?info) (i_index ?i)) Sockaddr_nl) (w3\<lparr>n_answers := later\<rparr>))"
    using up ad assms(3,4) by (simp add: apply_lease_def w2_def)
  then show ?thesis using w2(2) t2 by (simp add: w3_def w1_def lease_calls_def)
qed

section \<open>The server\<close>

definition reply_to :: "Message \<Rightarrow> Message \<Rightarrow> dhcp_option list \<Rightarrow> bool" where
  "reply_to m r opts \<longleftrightarrow> ended r opts \<and> d_op (dhcpData r) = OP_BOOTREPLY \<and> d_htype (dhcpData r) = HTYPE_ETHER \<and> d_hlen (dhcpData r) = 6 \<and>
     d_xid (dhcpData r) = d_xid (dhcpData m)"

lemma receive_reply:
  assumes "reply_to m r opts" and "d_xid (dhcpData (mLastMsg c)) = d_xid (dhcpData m)"
    and "n_answers w = Value k (raw_packet s p d PORT_BOOTP_CLIENT (data_of r)) [] # later"
  shows "receiveDhcpMessage c w = (True, received (data_of r), net_log (Net_readv (mSocket c) (28 + sizeof_dhcp)) (w\<lparr>n_answers := later\<rparr>))"
proof -
  have e: "ended r opts" using assms(1) by (simp add: reply_to_def)
  note h = same_header_fields [OF received_ended(2) [OF e]] ended_cookie [OF received_ended(1) [OF e]]
  have "isValidDhcpMessage OP_BOOTREPLY (d_xid (dhcpData m)) (received (data_of r))"
    using assms(1) h by (simp add: isValidDhcpMessage_def isValidDhcpMessage_op_def reply_to_def)
  then show ?thesis
    using receive_raw_packet [OF assms(3) message_data_ended(3) [OF e], of "mSocket c" PORT_BOOTP_CLIENT] assms(2)
    by (simp add: receiveDhcpMessage_def)
qed

locale lease_server =
  fixes offers :: "Message \<Rightarrow> Message" and acks :: "Message \<Rightarrow> Message"
    and srv :: u32 and lease :: u32 and ack_opts :: "dhcp_option list"
  assumes offers: "wf_dhcp (dhcpData m) \<Longrightarrow> \<exists>opts. reply_to m (offers m) opts \<and> map_of opts OPT_MESSAGE_TYPE = Some [DHCPOFFER] \<and>
      map_of opts OPT_SERVER_ID = Some (le32 srv) \<and> d_yiaddr (dhcpData (offers m)) = lease"
    and acks: "wf_dhcp (dhcpData m) \<Longrightarrow> reply_to m (acks m) ack_opts \<and> d_yiaddr (dhcpData (acks m)) = lease"
    and ack_type: "map_of ack_opts OPT_MESSAGE_TYPE = Some [DHCPACK]"
begin

lemma offer_taken:
  assumes "mState c = Selecting" and "ended (mLastMsg c) opts"
    and "n_answers w = Value k (raw_packet s p d PORT_BOOTP_CLIENT (data_of (offers (received (data_of (mLastMsg c)))))) [] # later"
  shows "handle_input c w = Some (True, setNextState Requesting (c\<lparr>mServerAddress := srv, mRequestAddress := lease\<rparr>),
    net_log (Net_readv (mSocket c) (28 + sizeof_dhcp)) (w\<lparr>n_answers := later\<rparr>))"
proof -
  let ?m = "received (data_of (mLastMsg c))" let ?r = "received (data_of (offers ?m))"
  have m: "wf_dhcp (dhcpData ?m)" "d_xid (dhcpData ?m) = d_xid (dhcpData (mLastMsg c))"
    using received_ended [OF assms(2)] same_header_fields(4) by (auto simp: ended_def)
  obtain os where o: "reply_to ?m (offers ?m) os" "map_of os OPT_MESSAGE_TYPE = Some [DHCPOFFER]" "map_of os OPT_SERVER_ID = Some (le32 srv)"
      "d_yiaddr (dhcpData (offers ?m)) = lease" using offers [OF m(1)] by blast
  have e: "ended (offers ?m) os" using o(1) by (simp add: reply_to_def)
  note re = received_ended [OF e]
  have "message_type ?r = Some DHCPOFFER" by (rule message_type_ended [OF re(1) o(2)])
  moreover have "serverId ?r = Some srv" unfolding serverId_def by (rule address_option_ended [OF re(1) _ o(3)]) simp
  moreover have "d_yiaddr (dhcpData ?r) = lease" using same_header_fields(5) [OF re(2)] o(4) by simp
  ultimately show ?thesis
    using receive_reply [OF o(1) m(2) [symmetric] assms(3)] assms(1) by (simp add: handle_input_def handle_message_def)
qed

lemma ack_taken:
  assumes "mState c = Requesting \<or> mState c = Renewing \<or> mState c = Rebinding" and "ended (mLastMsg c) opts"
    and "n_answers w = Value k (raw_packet s p d PORT_BOOTP_CLIENT (data_of (acks (received (data_of (mLastMsg c)))))) [] # later"
    and "info = (fold learn ack_opts zero_info)\<lparr>offeredAddress := lease\<rparr>" and "leaseTime info \<noteq> 0"
    and "expireSeconds (ucast (if 0 < t1 info then t1 info else leaseTime info div 2))
      (net_log (Net_readv (mSocket c) (28 + sizeof_dhcp)) (w\<lparr>n_answers := later\<rparr>)) = (e1, w1)"
    and "expireSeconds (ucast (if 0 < t2 info then t2 info else leaseTime info * 7 div 8)) w1 = (e2, w2)"
    and "apply_lease (c\<lparr>mDhcpInfo := info, mT1 := e1, mT2 := e2\<rparr>) w2 = Some (True, w3)"
  shows "handle_input c w = Some (True, setNextState Bound (c\<lparr>mDhcpInfo := info, mT1 := e1, mT2 := e2\<rparr>), w3)"
proof -
  let ?m = "received (data_of (mLastMsg c))" let ?r = "received (data_of (acks ?m))" let ?i = "fold learn ack_opts zero_info"
  have m: "wf_dhcp (dhcpData ?m)" "d_xid (dhcpData ?m) = d_xid (dhcpData (mLastMsg c))"
    using received_ended [OF assms(2)] same_header_fields(4) by (auto simp: ended_def)
  have o: "reply_to ?m (acks ?m) ack_opts" "d_yiaddr (dhcpData (acks ?m)) = lease" using acks [OF m(1)] by blast+
  have e: "ended (acks ?m) ack_opts" using o(1) by (simp add: reply_to_def)
  note re = received_ended [OF e]
  have t: "message_type ?r = Some DHCPACK" by (rule message_type_ended [OF re(1) ack_type])
  have y: "d_yiaddr (dhcpData ?r) = lease" using same_header_fields(5) [OF re(2)] o(2) by simp
  have sz: "4 \<le> optionsSize ?r" using ended_cookie [OF re(1), THEN conjunct2] unfolding optionsSize_def by linarith
  have f: "t1 ?i = t1 info" "t2 ?i = t2 info" "leaseTime ?i = leaseTime info" using assms(4) by simp_all
  have "configureDhcp ?r c (net_log (Net_readv (mSocket c) (28 + sizeof_dhcp)) (w\<lparr>n_answers := later\<rparr>)) =
      Some (True, c\<lparr>mDhcpInfo := ?i\<lparr>offeredAddress := d_yiaddr (dhcpData ?r)\<rparr>, mT1 := e1, mT2 := e2\<rparr>, w3)"
  proof (rule configureDhcp_is [OF sz scan_ended [OF re(1)]])
    show "apply_lease (c\<lparr>mDhcpInfo := ?i\<lparr>offeredAddress := d_yiaddr (dhcpData ?r)\<rparr>, mT1 := e1, mT2 := e2\<rparr>) w2 = Some (True, w3)"
      unfolding y assms(4) [symmetric] by (rule assms(8))
  qed (use assms(5-7) in \<open>simp_all only: f not_False_eq_True\<close>)
  then have cfg: "configureDhcp ?r c (net_log (Net_readv (mSocket c) (28 + sizeof_dhcp)) (w\<lparr>n_answers := later\<rparr>)) =
      Some (True, c\<lparr>mDhcpInfo := info, mT1 := e1, mT2 := e2\<rparr>, w3)"
    unfolding y assms(4) [symmetric] .
  have "handle_message ?r c (net_log (Net_readv (mSocket c) (28 + sizeof_dhcp)) (w\<lparr>n_answers := later\<rparr>)) =
      Some (True, setNextState Bound (c\<lparr>mDhcpInfo := info, mT1 := e1, mT2 := e2\<rparr>), w3)"
    using assms(1) t cfg by (auto simp: handle_message_def)
  then show ?thesis
    unfolding handle_input_def receive_reply [OF o(1) m(2) [symmetric] assms(3)] by simp
qed

end

end
