(* ===== verification/Dhcp_Handshake.thy ===== *)
theory Dhcp_Handshake
  imports Dhcp_Session
begin

text \<open>
  The exchange of the four messages: what passes between the client and any server that keeps the contract of
  \<open>lease_server\<close>, and the contract for the offers and acknowledgements of \<^verbatim>\<open>message.cpp\<close>.
\<close>

section \<open>Sending and waiting\<close>

definition sent :: "DhcpClient \<Rightarrow> Message \<Rightarrow> net_call" where
  "sent c m = Net_sendmsg (mSocket c) (raw_packet 0 PORT_BOOTP_CLIENT INADDR_BROADCAST PORT_BOOTP_SERVER (data_of m))
     (Sockaddr_ll (i_index (mInterface c)) (replicate 6 0xFF)) 0"

lemma send_answered:
  assumes "ended m os" and "n_answers w = a # rest"
  shows "\<exists>w1. sendMessage m c w = Some w1 \<and> n_answers w1 = rest \<and> n_calls w1 = n_calls w @ [sent c m] \<and>
    sNextTransactionId w1 = sNextTransactionId w \<and> n_time w1 = n_time w"
proof -
  obtain w1 where s: "sendMessage m c w = Some w1" using sendMessage_defined [OF assms(1)] by blast
  from sendMessage_is [OF assms(1) s] obtain r d where "net_call (sent c m) w = (r, d, w1)" by (auto simp: sent_def)
  then have "n_answers w1 = rest \<and> n_calls w1 = n_calls w @ [sent c m] \<and> sNextTransactionId w1 = sNextTransactionId w \<and> n_time w1 = n_time w"
    using assms(2) by (auto simp: net_call_def net_answer_def split: reply.splits)
  with s show ?thesis by blast
qed

lemma wait_answered:
  assumes "mNextTimeout c \<noteq> 0" and "n_answers w = Value 1 [] [] # rest"
  shows "\<exists>v t. n_answers v = rest \<and> n_time w \<le> n_time v \<and> n_calls v = n_calls w @ [Net_ppoll (mSocket c) t] \<and>
    sNextTransactionId v = sNextTransactionId w \<and> (\<forall>c' w'. handle_input c v = Some (True, c', w') \<longrightarrow> waitAndReceive c w = Some (c', w'))"
proof -
  obtain t w1 where t: "calculateTimeoutMillis c w = (t, w1)" by fastforce
  note k = calculate_keeps [OF t]
  obtain q w2 where q: "now w1 = (q, w2)" by fastforce
  then have w2: "n_answers w2 = n_answers w" "n_calls w2 = n_calls w" "sNextTransactionId w2 = sNextTransactionId w" "n_time w \<le> n_time w2"
    using now_answers [of w1] now_time(1) [of w1] k by simp_all
  define v where "v = (net_log (Net_ppoll (mSocket c) t) w2)\<lparr>n_answers := rest\<rparr>"
  have p: "net_ppoll (mSocket c) t w2 = (1, v)" using w2 assms(2) by (simp add: net_ppoll_def v_def)
  have "waitAndReceive c w = Some (c', w')" if "handle_input c v = Some (True, c', w')" for c' w'
    using assms(1) t q p that by (simp add: waitAndReceive_def) (subst wait_loop.simps, simp)
  then show ?thesis using w2 by (auto simp: v_def intro!: exI [of _ v] exI [of _ t])
qed

lemma expire_is:
  assumes "expireSeconds s w = (e, w1)"
  shows "e = of_nat (n_time w1) + s * 1000" "n_time w \<le> n_time w1" "n_answers w1 = n_answers w" "n_calls w1 = n_calls w"
proof -
  obtain q v where q: "now w = (q, v)" by fastforce
  show "e = of_nat (n_time w1) + s * 1000" "n_time w \<le> n_time w1" "n_answers w1 = n_answers w" "n_calls w1 = n_calls w"
    using assms q now_answers [of w] now_time [of w] by (simp_all add: expireSeconds_def)
qed

section \<open>The passes of the loop\<close>

lemma init_pass: "mState c = Init \<Longrightarrow> client_step c w = Some (setNextState Selecting c, w)"
  by (simp add: client_step_def act_def waitAndReceive_def)

text \<open>A message out, an answer in, in either of the two states that wait for one.\<close>

lemma sent_and_answered:
  assumes "ended m os" and "n_answers w = a # Value 1 [] [] # rest"
  shows "\<exists>w1 v t. sendMessage m (c\<lparr>mLastMsg := m\<rparr>) (w\<lparr>sNextTransactionId := x\<rparr>) = Some w1 \<and>
    n_answers v = rest \<and> n_time w \<le> n_time v \<and> n_calls v = n_calls w @ [sent c m, Net_ppoll (mSocket c) t] \<and> sNextTransactionId v = x \<and>
    (\<forall>c' w'. handle_input (c\<lparr>mLastMsg := m, mNextTimeout := 4000\<rparr>) v = Some (True, c', w') \<longrightarrow>
      waitAndReceive (c\<lparr>mLastMsg := m, mNextTimeout := 4000\<rparr>) w1 = Some (c', w'))"
proof -
  let ?c = "c\<lparr>mLastMsg := m, mNextTimeout := 4000\<rparr>"
  have "n_answers (w\<lparr>sNextTransactionId := x\<rparr>) = a # Value 1 [] [] # rest" using assms(2) by simp
  from send_answered [OF assms(1) this, of "c\<lparr>mLastMsg := m\<rparr>"] obtain w1 where
    s: "sendMessage m (c\<lparr>mLastMsg := m\<rparr>) (w\<lparr>sNextTransactionId := x\<rparr>) = Some w1" "n_answers w1 = Value 1 [] [] # rest"
      "n_calls w1 = n_calls w @ [sent c m]" "sNextTransactionId w1 = x" "n_time w1 = n_time w" by (auto simp: sent_def)
  obtain v t where "n_answers v = rest" "n_time w1 \<le> n_time v" "n_calls v = n_calls w1 @ [Net_ppoll (mSocket ?c) t]"
      "sNextTransactionId v = sNextTransactionId w1" "\<forall>c' w'. handle_input ?c v = Some (True, c', w') \<longrightarrow> waitAndReceive ?c w1 = Some (c', w')"
    using wait_answered [OF _ s(2), of ?c] by auto
  with s show ?thesis by (intro exI [of _ w1] exI [of _ v] exI [of _ t]) simp
qed

lemma selecting_pass:
  assumes "mState c = Selecting" and "mNextTimeout c = 0" and "length (i_mac (mInterface c)) = ETH_ALEN"
    and "discover (i_mac (mInterface c)) (sNextTransactionId w) = Some (m, x)" and "n_answers w = a # Value 1 [] [] # rest"
  shows "\<exists>v t. n_answers v = rest \<and> n_time w \<le> n_time v \<and> n_calls v = n_calls w @ [sent c m, Net_ppoll (mSocket c) t] \<and>
    sNextTransactionId v = x \<and> ended m discover_options \<and>
    (\<forall>c' w'. handle_input (c\<lparr>mLastMsg := m, mNextTimeout := 4000\<rparr>) v = Some (True, c', w') \<longrightarrow> client_step c w = Some (c', w'))"
proof -
  have e: "ended m discover_options" using discover_ended [OF assms(3), of "sNextTransactionId w"] assms(4) by auto
  obtain w1 v t where s: "sendMessage m (c\<lparr>mLastMsg := m\<rparr>) (w\<lparr>sNextTransactionId := x\<rparr>) = Some w1"
    "n_answers v = rest" "n_time w \<le> n_time v" "n_calls v = n_calls w @ [sent c m, Net_ppoll (mSocket c) t]" "sNextTransactionId v = x"
    "\<forall>c' w'. handle_input (c\<lparr>mLastMsg := m, mNextTimeout := 4000\<rparr>) v = Some (True, c', w') \<longrightarrow>
      waitAndReceive (c\<lparr>mLastMsg := m, mNextTimeout := 4000\<rparr>) w1 = Some (c', w')"
    using sent_and_answered [OF e assms(5), of c x] by blast
  have "act c w = Some (c\<lparr>mLastMsg := m, mNextTimeout := 4000\<rparr>, w1)"
    using assms(1,2,4) s(1) by (simp add: act_def sendDhcpDiscover_def increaseTimeout_def)
  then show ?thesis using s e by (intro exI [of _ v] exI [of _ t]) (simp add: client_step_def)
qed

lemma asking_pass:
  assumes "act c w = do { (c1, w1) \<leftarrow> sendDhcpRequest dst c w0; Some (increaseTimeout c1, w1) }" and "mNextTimeout c = 0"
    and "length (i_mac (mInterface c)) = ETH_ALEN"
    and "request (i_mac (mInterface c)) (mRequestAddress c) dst (sNextTransactionId w0) = Some (m, x)" and "n_answers w0 = a # Value 1 [] [] # rest"
  shows "\<exists>v t. n_answers v = rest \<and> n_time w0 \<le> n_time v \<and> n_calls v = n_calls w0 @ [sent c m, Net_ppoll (mSocket c) t] \<and>
    sNextTransactionId v = x \<and> ended m (request_options (mRequestAddress c) dst) \<and>
    (\<forall>c' w'. handle_input (c\<lparr>mLastMsg := m, mNextTimeout := 4000\<rparr>) v = Some (True, c', w') \<longrightarrow> client_step c w = Some (c', w'))"
proof -
  have e: "ended m (request_options (mRequestAddress c) dst)"
    using request_ended [OF assms(3), of "mRequestAddress c" dst "sNextTransactionId w0"] assms(4) by auto
  obtain w1 v t where s: "sendMessage m (c\<lparr>mLastMsg := m\<rparr>) (w0\<lparr>sNextTransactionId := x\<rparr>) = Some w1"
    "n_answers v = rest" "n_time w0 \<le> n_time v" "n_calls v = n_calls w0 @ [sent c m, Net_ppoll (mSocket c) t]" "sNextTransactionId v = x"
    "\<forall>c' w'. handle_input (c\<lparr>mLastMsg := m, mNextTimeout := 4000\<rparr>) v = Some (True, c', w') \<longrightarrow>
      waitAndReceive (c\<lparr>mLastMsg := m, mNextTimeout := 4000\<rparr>) w1 = Some (c', w')"
    using sent_and_answered [OF e assms(5), of c x] by blast
  have "act c w = Some (c\<lparr>mLastMsg := m, mNextTimeout := 4000\<rparr>, w1)"
    using assms(1,2,4) s(1) by (simp add: sendDhcpRequest_def increaseTimeout_def)
  then show ?thesis using s e by (intro exI [of _ v] exI [of _ t]) (simp add: client_step_def)
qed

lemma requesting_pass:
  assumes "mState c = Requesting" and "mNextTimeout c = 0" and "length (i_mac (mInterface c)) = ETH_ALEN"
    and "request (i_mac (mInterface c)) (mRequestAddress c) (mServerAddress c) (sNextTransactionId w) = Some (m, x)"
    and "n_answers w = a # Value 1 [] [] # rest"
  shows "\<exists>v t. n_answers v = rest \<and> n_time w \<le> n_time v \<and> n_calls v = n_calls w @ [sent c m, Net_ppoll (mSocket c) t] \<and>
    sNextTransactionId v = x \<and> ended m (request_options (mRequestAddress c) (mServerAddress c)) \<and>
    (\<forall>c' w'. handle_input (c\<lparr>mLastMsg := m, mNextTimeout := 4000\<rparr>) v = Some (True, c', w') \<longrightarrow> client_step c w = Some (c', w'))"
  by (rule asking_pass [OF _ assms(2-5)]) (simp add: act_def assms(1,2))

section \<open>The exchange\<close>

definition exchange :: "DhcpClient \<Rightarrow> Message \<Rightarrow> Message \<Rightarrow> u32 \<Rightarrow> u32 \<Rightarrow> net_call list" where
  "exchange c dis req t t' = [sent c dis, Net_ppoll (mSocket c) t, Net_readv (mSocket c) (28 + sizeof_dhcp),
     sent c req, Net_ppoll (mSocket c) t', Net_readv (mSocket c) (28 + sizeof_dhcp)]"

text \<open>What the system answers: to the two packets anything, each followed by a message of the server.\<close>

definition exchange_script :: "reply \<Rightarrow> reply \<Rightarrow> nat \<times> u32 \<times> u16 \<times> u32 \<Rightarrow> Message \<Rightarrow> Message \<Rightarrow> reply list" where
  "exchange_script a a' = (\<lambda>(k, s, p, d) off ak. [a, Value 1 [] [], Value k (raw_packet s p d PORT_BOOTP_CLIENT (data_of off)) [],
     a', Value 1 [] [], Value k (raw_packet s p d PORT_BOOTP_CLIENT (data_of ak)) []])"

context lease_server begin

text \<open>An acknowledgement that arrives, in any of the three states that wait for one, binds the client.\<close>

lemma ack_binds:
  assumes "mState c = Requesting \<or> mState c = Renewing \<or> mState c = Rebinding" and "ended (mLastMsg c) opts" and "mOptions c AND 1 = 0"
    and "n_answers w = Value k (raw_packet s p d PORT_BOOTP_CLIENT (data_of (acks (received (data_of (mLastMsg c)))))) [] # lease_script flags props resp @ later"
    and "willing flags props resp"
    and "info = (fold learn ack_opts zero_info)\<lparr>offeredAddress := lease\<rparr>" and "leaseTime info \<noteq> 0" and "mtu info = 0" and "length (dns info) = 4"
  shows "\<exists>c' w' n1 n2. handle_input c w = Some (True, c', w') \<and> mState c' = Bound \<and> mDhcpInfo c' = info \<and> n_answers w' = later \<and>
    n_calls w' = n_calls w @ Net_readv (mSocket c) (28 + sizeof_dhcp) # lease_calls c' \<and> n_time w \<le> n1 \<and> n1 \<le> n2 \<and> n2 \<le> n_time w' \<and>
    mT1 c' = of_nat n1 + ucast (if 0 < t1 info then t1 info else leaseTime info div 2) * 1000 \<and>
    mT2 c' = of_nat n2 + ucast (if 0 < t2 info then t2 info else leaseTime info * 7 div 8) * 1000"
proof -
  define v where "v = net_log (Net_readv (mSocket c) (28 + sizeof_dhcp)) (w\<lparr>n_answers := lease_script flags props resp @ later\<rparr>)"
  obtain e1 u1 where e1: "expireSeconds (ucast (if 0 < t1 info then t1 info else leaseTime info div 2)) v = (e1, u1)" by fastforce
  obtain e2 u2 where e2: "expireSeconds (ucast (if 0 < t2 info then t2 info else leaseTime info * 7 div 8)) u1 = (e2, u2)" by fastforce
  note x1 = expire_is [OF e1] and x2 = expire_is [OF e2]
  define c4 where "c4 = c\<lparr>mDhcpInfo := info, mT1 := e1, mT2 := e2\<rparr>"
  have u2: "n_answers u2 = lease_script flags props resp @ later" using x1(3) x2(3) by (simp add: v_def)
  obtain w5 where 5: "apply_lease c4 u2 = Some (True, w5)" "n_answers w5 = later" "n_calls w5 = n_calls u2 @ lease_calls c4" "n_time w5 = n_time u2"
    using apply_lease_willing [OF u2 assms(5), of c4] assms(3,8,9) by (auto simp: c4_def)
  have "handle_input c w = Some (True, setNextState Bound c4, w5)"
    unfolding c4_def by (rule ack_taken [OF assms(1,2,4,6,7) _ e2]) (use e1 5(1) in \<open>simp_all add: c4_def v_def\<close>)
  moreover have "lease_calls (setNextState Bound c4) = lease_calls c4" by (simp add: lease_calls_def property_calls_def setNextState_def)
  ultimately show ?thesis
    using 5(2-4) x1(1,2,4) x2(1,2,4)
    by (intro exI [of _ "setNextState Bound c4"] exI [of _ w5] exI [of _ "n_time u1"] exI [of _ "n_time u2"]) (simp add: c4_def v_def)
qed

lemma handshake:
  assumes "mState c = Init" and "length (i_mac (mInterface c)) = ETH_ALEN" and "mOptions c AND 1 = 0"
    and "discover (i_mac (mInterface c)) (sNextTransactionId w) = Some (dis, x)"
    and "request (i_mac (mInterface c)) lease srv x = Some (req, x')"
    and "n_answers w = exchange_script a a' q (offers (received (data_of dis))) (acks (received (data_of req))) @ lease_script flags props resp @ later"
    and "willing flags props resp"
    and "info = (fold learn ack_opts zero_info)\<lparr>offeredAddress := lease\<rparr>" and "leaseTime info \<noteq> 0" and "mtu info = 0" and "length (dns info) = 4"
  shows "\<exists>c' w' t t' n1 n2. client_run 3 c w = Some (c', w') \<and> mState c' = Bound \<and> mDhcpInfo c' = info \<and> n_answers w' = later \<and>
    n_calls w' = n_calls w @ exchange c dis req t t' @ lease_calls c' \<and> n_time w \<le> n1 \<and> n1 \<le> n2 \<and> n2 \<le> n_time w' \<and>
    mT1 c' = of_nat n1 + ucast (if 0 < t1 info then t1 info else leaseTime info div 2) * 1000 \<and>
    mT2 c' = of_nat n2 + ucast (if 0 < t2 info then t2 info else leaseTime info * 7 div 8) * 1000"
proof -
  obtain k s p d where q: "q = (k, s, p, d)" by (cases q)
  let ?s = "setNextState Selecting c" and ?off = "offers (received (data_of dis))" and ?ack = "acks (received (data_of req))"
  let ?pkt = "\<lambda>m. Value k (raw_packet s p d PORT_BOOTP_CLIENT (data_of m)) []"
  note ans = assms(6) [unfolded q exchange_script_def prod.case append.simps]
  obtain v1 t where 1: "n_answers v1 = ?pkt ?off # a' # Value 1 [] [] # ?pkt ?ack # lease_script flags props resp @ later" "n_time w \<le> n_time v1"
      "n_calls v1 = n_calls w @ [sent c dis, Net_ppoll (mSocket c) t]" "sNextTransactionId v1 = x" "ended dis discover_options"
      "\<And>c' w'. handle_input (?s\<lparr>mLastMsg := dis, mNextTimeout := 4000\<rparr>) v1 = Some (True, c', w') \<Longrightarrow> client_step ?s w = Some (c', w')"
    using selecting_pass [OF _ _ _ _ ans, of ?s dis x] assms(2,4) by (auto simp: sent_def)
  define c2 where "c2 = setNextState Requesting (?s\<lparr>mLastMsg := dis, mNextTimeout := 4000, mServerAddress := srv, mRequestAddress := lease\<rparr>)"
  define w2 where "w2 = net_log (Net_readv (mSocket c) (28 + sizeof_dhcp)) (v1\<lparr>n_answers := a' # Value 1 [] [] # ?pkt ?ack # lease_script flags props resp @ later\<rparr>)"
  have 2: "client_step ?s w = Some (c2, w2)"
    using offer_taken [of "?s\<lparr>mLastMsg := dis, mNextTimeout := 4000\<rparr>" discover_options v1 k s p d] 1(1,5)
    by (intro 1(6)) (simp add: c2_def w2_def)
  have c2: "mState c2 = Requesting" "mNextTimeout c2 = 0" "mInterface c2 = mInterface c" "mSocket c2 = mSocket c" "mRequestAddress c2 = lease"
      "mServerAddress c2 = srv" "mOptions c2 = mOptions c" by (simp_all add: c2_def)
  have w2: "n_answers w2 = a' # Value 1 [] [] # ?pkt ?ack # lease_script flags props resp @ later" "sNextTransactionId w2 = x" "n_time w2 = n_time v1"
    using 1(4) by (simp_all add: w2_def)
  obtain v3 t' where 3: "n_answers v3 = ?pkt ?ack # lease_script flags props resp @ later" "n_time w2 \<le> n_time v3"
      "n_calls v3 = n_calls w2 @ [sent c req, Net_ppoll (mSocket c) t']" "ended req (request_options lease srv)"
      "\<And>c' w'. handle_input (c2\<lparr>mLastMsg := req, mNextTimeout := 4000\<rparr>) v3 = Some (True, c', w') \<Longrightarrow> client_step c2 w2 = Some (c', w')"
    using requesting_pass [OF c2(1,2) _ _ w2(1), of req x'] assms(2,5) by (auto simp: c2 w2(2) sent_def)
  let ?c3 = "c2\<lparr>mLastMsg := req, mNextTimeout := 4000\<rparr>"
  obtain c' w' n1 n2 where 4: "handle_input ?c3 v3 = Some (True, c', w')" "mState c' = Bound" "mDhcpInfo c' = info" "n_answers w' = later"
      "n_calls w' = n_calls v3 @ Net_readv (mSocket c) (28 + sizeof_dhcp) # lease_calls c'" "n_time v3 \<le> n1" "n1 \<le> n2" "n2 \<le> n_time w'"
      "mT1 c' = of_nat n1 + ucast (if 0 < t1 info then t1 info else leaseTime info div 2) * 1000"
      "mT2 c' = of_nat n2 + ucast (if 0 < t2 info then t2 info else leaseTime info * 7 div 8) * 1000"
    using ack_binds [of ?c3 "request_options lease srv" v3 k s p d flags props resp later info] c2 3(1,4) assms(3,7-11) by auto
  have run: "client_run 3 c w = Some (c', w')"
    using init_pass [OF assms(1), of w] 2 3(5) [OF 4(1)] by (simp add: numeral_3_eq_3)
  have "n_calls w' = n_calls w @ exchange c dis req t t' @ lease_calls c'"
    using 4(5) 3(3) 1(3) by (simp add: w2_def exchange_def)
  then show ?thesis
    using run 4(2-4,6-10) 1(2) 3(2) w2(3)
    by (intro exI [of _ c'] exI [of _ w'] exI [of _ t] exI [of _ t'] exI [of _ n1] exI [of _ n2]) simp
qed

end

end
