(* ===== verification/Dhcp_Server.thy ===== *)
theory Dhcp_Server
  imports Dhcp_Handshake
begin

text \<open>
  The contract of a server holds for the offers and acknowledgements that \<open>offer\<close> and \<open>ack\<close> of
  \<^verbatim>\<open>message.cpp\<close> build, so that the two halves of the repository fit together.
\<close>

section \<open>The server's messages\<close>

definition server_message :: "u8 \<Rightarrow> u32 \<Rightarrow> u32 \<Rightarrow> u32 \<Rightarrow> u32 \<Rightarrow> u32 list \<Rightarrow> u32 \<Rightarrow> Message \<Rightarrow> Message" where
  "server_message t srv lease nmask gw servers x m = fst (the (lease_reply t m srv lease nmask gw servers (length servers) x))"

lemma server_message_is:
  assumes "wf_dhcp (dhcpData m)" and "length servers < 64"
  shows "reply_to m (server_message t srv lease nmask gw servers x m) (lease_options t srv nmask gw servers)"
    and "d_yiaddr (dhcpData (server_message t srv lease nmask gw servers x m)) = lease"
    and "lease_reply t m srv lease nmask gw servers (length servers) x = Some (server_message t srv lease nmask gw servers x m, x + 1)"
proof -
  obtain r where r: "lease_reply t m srv lease nmask gw servers (length servers) x = Some (r, x + 1)"
      "ended r (lease_options t srv nmask gw servers)" "same_header (reply_head t m lease) r"
    using lease_reply_ended [OF assms] by blast
  note h = same_header_fields [OF r(3)]
  show "reply_to m (server_message t srv lease nmask gw servers x m) (lease_options t srv nmask gw servers)"
    and "d_yiaddr (dhcpData (server_message t srv lease nmask gw servers x m)) = lease"
    and "lease_reply t m srv lease nmask gw servers (length servers) x = Some (server_message t srv lease nmask gw servers x m, x + 1)"
    using r(1,2) h by (simp_all add: server_message_def reply_to_def reply_head_fields)
qed

lemma take_63: "length (take 63 xs) < 64"
  by simp

interpretation dhcp_server: lease_server "server_message DHCPOFFER srv lease nmask gw (take 63 servers) x"
    "server_message DHCPACK srv lease nmask gw (take 63 servers) x'" srv lease "lease_options DHCPACK srv nmask gw (take 63 servers)"
  for srv lease nmask gw servers x x'
proof unfold_locales
  fix m :: Message assume m: "wf_dhcp (dhcpData m)"
  note o = server_message_is [OF m take_63]
  show "\<exists>opts. reply_to m (server_message DHCPOFFER srv lease nmask gw (take 63 servers) x m) opts \<and>
      map_of opts OPT_MESSAGE_TYPE = Some [DHCPOFFER] \<and> map_of opts OPT_SERVER_ID = Some (le32 srv) \<and>
      d_yiaddr (dhcpData (server_message DHCPOFFER srv lease nmask gw (take 63 servers) x m)) = lease"
    by (rule exI [of _ "lease_options DHCPOFFER srv nmask gw (take 63 servers)"]) (simp add: o(1,2), simp add: lease_options_def)
  show "reply_to m (server_message DHCPACK srv lease nmask gw (take 63 servers) x' m) (lease_options DHCPACK srv nmask gw (take 63 servers)) \<and>
      d_yiaddr (dhcpData (server_message DHCPACK srv lease nmask gw (take 63 servers) x' m)) = lease"
    by (simp add: o(1,2))
qed (simp add: lease_options_def)

section \<open>The lease the client learns\<close>

text \<open>
  The server writes its lease time of 600 seconds in host order, and the client reads it in network order: it
  learns 1476526080 seconds, almost 47 years.
\<close>

definition lease_info :: "u32 \<Rightarrow> u32 \<Rightarrow> u32 \<Rightarrow> u32 \<Rightarrow> u32 list \<Rightarrow> DhcpInfo" where
  "lease_info srv lease nmask gw servers = \<lparr>t1 = 0, t2 = 0, leaseTime = 1476526080, mtu = 0, dns = take 4 (servers @ [0, 0, 0, 0]), gateway = gw,
     subnetMask = nmask, info_serverId = srv, offeredAddress = lease\<rparr>"

lemma get32_le32s: "get32 (le32 a @ r) 0 = a" "get32 (le32 a @ r) (4 + i) = get32 r i"
proof -
  show "get32 (le32 a @ r) 0 = a" using get32_drop(2) [of 0 "le32 a @ r" a r] by simp
  show "get32 (le32 a @ r) (4 + i) = get32 r i" using get_append(2) [of "le32 a" r i] by simp
qed

lemma learn_dns_servers:
  "dns info = [0, 0, 0, 0] \<Longrightarrow> learn_dns (concat (map le32 servers)) [0, 1, 2, 3] info = info\<lparr>dns := take 4 (servers @ [0, 0, 0, 0])\<rparr>"
proof -
  assume d: "dns info = [0, 0, 0, 0]"
  have z: "get32 (le32 a) 0 = a" for a using get32_le32s(1) [of a "[]"] by simp
  have s: "get32 (le32 a @ r) 4 = get32 r 0" "get32 (le32 a @ r) 8 = get32 r 4" "get32 (le32 a @ r) 12 = get32 r 8" for a r
    using get32_le32s(2) [of a r 0] get32_le32s(2) [of a r 4] get32_le32s(2) [of a r 8] by simp_all
  show ?thesis
  proof (cases servers)
    case Nil
    then show ?thesis using d by simp
  next
    case 1: (Cons a as)
    show ?thesis
    proof (cases as)
      case Nil
      then show ?thesis using d by (simp add: 1 z)
    next
      case 2: (Cons b bs)
      show ?thesis
      proof (cases bs)
        case Nil
        then show ?thesis using d by (simp add: 1 2 z s get32_le32s(1))
      next
        case 3: (Cons c cs)
        show ?thesis
          by (cases cs) (use d in \<open>simp_all add: 1 2 3 z s get32_le32s(1)\<close>)
      qed
    qed
  qed
qed

lemma lease_time_swapped: "htonl kDefaultLeaseTime = 1476526080"
  by (simp add: htonl_def kDefaultLeaseTime_def le32_def get32_def)

lemma lease_learned:
  "(fold learn (lease_options t srv nmask gw servers) zero_info)\<lparr>offeredAddress := lease\<rparr> = lease_info srv lease nmask gw servers"
proof -
  have z: "get32 (le32 a) 0 = a" for a using get32_le32s(1) [of a "[]"] by simp
  show ?thesis
    by (simp add: lease_options_def learn_def z lease_info_def zero_info_def learn_dns_servers lease_time_swapped del: learn_dns.simps One_nat_def)
qed

lemma lease_info_timers:
  fixes srv lease nmask gw servers
  defines "i \<equiv> lease_info srv lease nmask gw servers"
  shows "leaseTime i \<noteq> 0" "mtu i = 0" "length (dns i) = 4" "ucast (if 0 < t1 i then t1 i else leaseTime i div 2) = (738263040 :: 64 word)"
    "ucast (if 0 < t2 i then t2 i else leaseTime i * 7 div 8) = (218218496 :: 64 word)"
  by (simp_all add: i_def lease_info_def)

section \<open>The handshake\<close>

text \<open>C3: From no address to a lease. A client in \<open>Init\<close> that is answered by the repository's own messages, an \<open>offer\<close> made
  from its DISCOVER and an \<open>ack\<close> made from its REQUEST, with any addresses and at most 63 name servers, and a system that lets it
  set them, is \<open>Bound\<close> after three passes. It has sent just these two messages, waited for each answer, and then
  asked the system for exactly what the lease says: the properties, the address with its mask, the default route.
  The lease it knows is the server's, except for the time: the server writes its 600 seconds in host order, the client reads
  1476526080, and since seven eighths of that are computed in 32 bits, T2 is 218218496 seconds and T1 738263040.\<close>

theorem dhcp_handshake:
  assumes "mState c = Init" and "length (i_mac (mInterface c)) = ETH_ALEN" and "mOptions c AND 1 = 0" and "length servers < 64"
    and "discover (i_mac (mInterface c)) (sNextTransactionId w) = Some (dis, x)"
    and "request (i_mac (mInterface c)) lease srv x = Some (req, x')"
    and "offer (received (data_of dis)) srv lease nmask gw servers (length servers) y = Some (off, y')"
    and "ack (received (data_of req)) srv lease nmask gw servers (length servers) z = Some (ak, z')"
    and "n_answers w = exchange_script a a' q off ak @ lease_script flags props resp @ later" and "willing flags props resp"
  shows "\<exists>c' w' t t' n1 n2. client_run 3 c w = Some (c', w') \<and> mState c' = Bound \<and> mDhcpInfo c' = lease_info srv lease nmask gw servers \<and>
    n_answers w' = later \<and> n_calls w' = n_calls w @ exchange c dis req t t' @ lease_calls c' \<and> n_time w \<le> n1 \<and> n1 \<le> n2 \<and> n2 \<le> n_time w' \<and>
    mT1 c' = of_nat n1 + 738263040 * 1000 \<and> mT2 c' = of_nat n2 + 218218496 * 1000"
proof -
  have s: "take 63 servers = servers" using assms(4) by simp
  have o: "off = server_message DHCPOFFER srv lease nmask gw (take 63 servers) y (received (data_of dis))"
    and k: "ak = server_message DHCPACK srv lease nmask gw (take 63 servers) z (received (data_of req))"
    using assms(7,8) by (simp_all add: server_message_def s offer_def ack_def)
  note f = lease_info_timers [of srv lease nmask gw "take 63 servers"]
  from dhcp_server.handshake [OF assms(1-3,5,6) assms(9) [unfolded o k] assms(10) lease_learned [symmetric] f(1-3), unfolded f(4,5)]
  show ?thesis unfolding s .
qed

text \<open>A client on an interface, and the four messages of one exchange.\<close>

definition client0 :: DhcpClient where
  "client0 = (DhcpClient_new 0)\<lparr>mInterface := Interface_new\<lparr>i_name := ''wlan0'', i_fd := 4, i_index := 3\<rparr>, mSocket := 5\<rparr>"

definition discover0 :: Message where
  "discover0 = fst (the (discover (i_mac (mInterface client0)) 1))"

definition request0 :: Message where
  "request0 = fst (the (request (i_mac (mInterface client0)) 0x0F02000A 0x0202000A 2))"

definition reply0 :: "u8 \<Rightarrow> Message \<Rightarrow> Message" where
  "reply0 t m = server_message t 0x0202000A 0x0F02000A 0x00FFFFFF 0x0202000A [0x08080808] 1 (received (data_of m))"

lemma client0_mac: "length (i_mac (mInterface client0)) = ETH_ALEN"
  by (simp add: client0_def Interface_new_def)

lemma messages0:
  "discover (i_mac (mInterface client0)) 1 = Some (discover0, 2)" "request (i_mac (mInterface client0)) 0x0F02000A 0x0202000A 2 = Some (request0, 3)"
  "offer (received (data_of discover0)) 0x0202000A 0x0F02000A 0x00FFFFFF 0x0202000A [0x08080808] (length [0x08080808 :: u32]) 1 = Some (reply0 DHCPOFFER discover0, 2)"
  "ack (received (data_of request0)) 0x0202000A 0x0F02000A 0x00FFFFFF 0x0202000A [0x08080808] (length [0x08080808 :: u32]) 1 = Some (reply0 DHCPACK request0, 2)"
proof -
  obtain m where d: "discover (i_mac (mInterface client0)) 1 = Some (m, 1 + 1)" "ended m discover_options"
    using discover_ended [OF client0_mac, of 1] by blast
  obtain m' where r: "request (i_mac (mInterface client0)) 0x0F02000A 0x0202000A 2 = Some (m', 2 + 1)"
      "ended m' (request_options 0x0F02000A 0x0202000A)"
    using request_ended [OF client0_mac, of "0x0F02000A" "0x0202000A" 2] by blast
  show "discover (i_mac (mInterface client0)) 1 = Some (discover0, 2)" "request (i_mac (mInterface client0)) 0x0F02000A 0x0202000A 2 = Some (request0, 3)"
    using d(1) r(1) by (simp_all add: discover0_def request0_def)
  have "wf_dhcp (dhcpData (received (data_of discover0)))" "wf_dhcp (dhcpData (received (data_of request0)))"
    using received_ended(1) [OF d(2)] received_ended(1) [OF r(2)] d(1) r(1) by (simp_all add: discover0_def request0_def ended_def)
  note w = this
  have l: "length [0x08080808 :: u32] < 64" by simp
  note o = server_message_is(3) [OF w(1) l, of DHCPOFFER "0x0202000A" "0x0F02000A" "0x00FFFFFF" "0x0202000A" 1]
    and a = server_message_is(3) [OF w(2) l, of DHCPACK "0x0202000A" "0x0F02000A" "0x00FFFFFF" "0x0202000A" 1]
  show "offer (received (data_of discover0)) 0x0202000A 0x0F02000A 0x00FFFFFF 0x0202000A [0x08080808] (length [0x08080808 :: u32]) 1 =
      Some (reply0 DHCPOFFER discover0, 2)"
    "ack (received (data_of request0)) 0x0202000A 0x0F02000A 0x00FFFFFF 0x0202000A [0x08080808] (length [0x08080808 :: u32]) 1 =
      Some (reply0 DHCPACK request0, 2)"
    using o a by (simp_all add: offer_def ack_def reply0_def)
qed

definition system0 :: net where
  "system0 = net0\<lparr>n_answers := exchange_script (Value 300 [] []) (Refused EIO) (9, 0x0202000A, 67, 0xFFFFFFFF) (reply0 DHCPOFFER discover0) (reply0 DHCPACK request0) @
     lease_script [1, 0] (replicate 5 (Value 0 [] [])) (replicate 36 0) @ [Value 7 [] []], n_elapses := [3, 20], n_random := [500]\<rparr>"

theorem dhcp_handshake_witness:
  "\<exists>c' w' t t' n1 n2. client_run 3 client0 system0 = Some (c', w') \<and> mState c' = Bound \<and>
    mDhcpInfo c' = lease_info 0x0202000A 0x0F02000A 0x00FFFFFF 0x0202000A [0x08080808] \<and>
    n_answers w' = [Value 7 [] []] \<and> n_calls w' = n_calls system0 @ exchange client0 discover0 request0 t t' @ lease_calls c' \<and>
    n_time system0 \<le> n1 \<and> n1 \<le> n2 \<and> n2 \<le> n_time w' \<and>
    mT1 c' = of_nat n1 + 738263040 * 1000 \<and> mT2 c' = of_nat n2 + 218218496 * 1000"
proof (rule dhcp_handshake [OF _ client0_mac _ _ _ messages0(2) messages0(3) messages0(4)])
  show "mState client0 = Init" "mOptions client0 AND 1 = 0" by (simp_all add: client0_def DhcpClient_new_def)
  show "length [0x08080808 :: u32] < 64" by simp
  show "discover (i_mac (mInterface client0)) (sNextTransactionId system0) = Some (discover0, 2)"
    using messages0(1) by (simp add: system0_def)
  show "n_answers system0 = exchange_script (Value 300 [] []) (Refused EIO) (9, 0x0202000A, 67, 0xFFFFFFFF) (reply0 DHCPOFFER discover0) (reply0 DHCPACK request0) @
      lease_script [1, 0] (replicate 5 (Value 0 [] [])) (replicate 36 0) @ [Value 7 [] []]"
    by (simp add: system0_def)
  show "willing [1, 0] (replicate 5 (Value 0 [] [])) (replicate 36 0)"
    by (simp add: willing_def netlink_response_def get16_def nth_replicate)
qed

end
