(* ===== verification/Dhcp_Renewal.thy ===== *)
theory Dhcp_Renewal
  imports Dhcp_Server
begin

text \<open>
  Keeping a lease: what a bound client does when T1 has passed, with any server that keeps the contract of
  \<open>lease_server\<close> and with the repository's own.
\<close>

section \<open>The clock\<close>

text \<open>The latest time the clock can show.\<close>

definition horizon :: "net \<Rightarrow> nat" where
  "horizon w = n_time w + sum_list (n_elapses w)"

lemma now_horizon:
  assumes "now w = (q, w1)"
  shows "horizon w1 = horizon w" "n_time w1 \<le> horizon w" "n_time w \<le> n_time w1" "q = of_nat (n_time w1)"
    "n_answers w1 = n_answers w" "n_calls w1 = n_calls w" "sNextTransactionId w1 = sNextTransactionId w"
  using assms by (auto simp: now_def Let_def horizon_def split: list.splits)

lemma of_nat_le_64: "b < 2 ^ 64 \<Longrightarrow> (of_nat a :: 64 word) \<le> of_nat b \<longleftrightarrow> a mod 2 ^ 64 \<le> b"
  by (simp add: word_le_nat_alt unat_of_nat)

lemma expired_is:
  assumes "expired (of_nat a) w = (e, w1)" and "horizon w < 2 ^ 64" and "a < 2 ^ 64"
  shows "e \<longleftrightarrow> a \<le> n_time w1" "horizon w1 = horizon w" "n_time w1 \<le> horizon w" "n_time w \<le> n_time w1"
    "n_answers w1 = n_answers w" "n_calls w1 = n_calls w" "sNextTransactionId w1 = sNextTransactionId w"
proof -
  obtain q v where q: "now w = (q, v)" by fastforce
  note h = now_horizon [OF q]
  have v: "w1 = v" "e \<longleftrightarrow> of_nat a \<le> q" using assms(1) q by (simp_all add: expired_def)
  have "n_time v < 2 ^ 64" using h(2) assms(2) by simp
  then have "e \<longleftrightarrow> a \<le> n_time v" using v(2) h(4) of_nat_le_64 [of "n_time v" a] assms(3) by simp
  with h v(1) show "e \<longleftrightarrow> a \<le> n_time w1" "horizon w1 = horizon w" "n_time w1 \<le> horizon w" "n_time w \<le> n_time w1"
    "n_answers w1 = n_answers w" "n_calls w1 = n_calls w" "sNextTransactionId w1 = sNextTransactionId w" by simp_all
qed

section \<open>The passes\<close>

lemma t1_pass:
  assumes "mState c = Bound" and "mT1 c = of_nat a" and "a \<le> n_time w" and "horizon w < 2 ^ 64"
  shows "\<exists>w1. client_step c w = Some (setNextState Renewing c, w1) \<and> horizon w1 = horizon w \<and> n_time w \<le> n_time w1 \<and>
    n_answers w1 = n_answers w \<and> n_calls w1 = n_calls w \<and> sNextTransactionId w1 = sNextTransactionId w"
proof -
  obtain e w1 where e: "expired (of_nat a) w = (e, w1)" by fastforce
  have "n_time w \<le> horizon w" by (simp add: horizon_def)
  then have "a < 2 ^ 64" using assms(3,4) by linarith
  note x = expired_is [OF e assms(4) this]
  have "e" using x(1,4) assms(3) by simp
  then have "client_step c w = Some (setNextState Renewing c, w1)"
    using assms(1,2) e by (simp add: client_step_def act_def waitAndReceive_def)
  then show ?thesis using x by blast
qed

lemma t2_pass:
  assumes "mState c = Renewing" and "mT2 c = of_nat b" and "b \<le> n_time w" and "horizon w < 2 ^ 64"
  shows "\<exists>w1. client_step c w = Some (setNextState Rebinding c, w1) \<and> horizon w1 = horizon w \<and> n_time w \<le> n_time w1 \<and>
    n_answers w1 = n_answers w \<and> n_calls w1 = n_calls w \<and> sNextTransactionId w1 = sNextTransactionId w"
proof -
  obtain e w1 where e: "expired (of_nat b) w = (e, w1)" by fastforce
  have "n_time w \<le> horizon w" by (simp add: horizon_def)
  then have "b < 2 ^ 64" using assms(3,4) by linarith
  note x = expired_is [OF e assms(4) this]
  have "e" using x(1,4) assms(3) by simp
  then have "client_step c w = Some (setNextState Rebinding c, w1)"
    using assms(1,2) e by (simp add: client_step_def act_def waitAndReceive_def)
  then show ?thesis using x by blast
qed

text \<open>A client that asks again: before T2 the server it has, after T2 any server.\<close>

definition asks :: "bool \<Rightarrow> DhcpClient \<Rightarrow> u32" where
  "asks late c = (if late then INADDR_BROADCAST else mServerAddress c)"

lemma renew_pass:
  assumes "mState c = (if late then Rebinding else Renewing)" and "mNextTimeout c = 0" and "length (i_mac (mInterface c)) = ETH_ALEN"
    and "request (i_mac (mInterface c)) (mRequestAddress c) (asks late c) (sNextTransactionId w) = Some (m, x)"
    and "n_answers w = a # Value 1 [] [] # rest" and "mT2 c = of_nat b" and "horizon w < 2 ^ 64" and "\<not> late \<Longrightarrow> horizon w < b \<and> b < 2 ^ 64"
  shows "\<exists>v t. n_answers v = rest \<and> n_time w \<le> n_time v \<and> n_calls v = n_calls w @ [sent c m, Net_ppoll (mSocket c) t] \<and>
    ended m (request_options (mRequestAddress c) (asks late c)) \<and>
    (\<forall>c' w'. handle_input (c\<lparr>mLastMsg := m, mNextTimeout := 4000\<rparr>) v = Some (True, c', w') \<longrightarrow> client_step c w = Some (c', w'))"
proof (cases late)
  case True
  have "act c w = do { (c1, w1) \<leftarrow> sendDhcpRequest (asks late c) c w; Some (increaseTimeout c1, w1) }"
    using assms(1,2) True by (simp add: act_def asks_def)
  from asking_pass [OF this assms(2-5)] show ?thesis by blast
next
  case False
  obtain e w1 where e: "expired (of_nat b) w = (e, w1)" by fastforce
  note x = expired_is [OF e assms(7)]
  have b: "b < 2 ^ 64" "horizon w < b" using assms(8) False by auto
  have "\<not> e" using x(1,3) b by simp
  then have "act c w = do { (c1, w1) \<leftarrow> sendDhcpRequest (asks late c) c w1; Some (increaseTimeout c1, w1) }"
    using assms(1,6) False e by (simp add: act_def asks_def)
  from asking_pass [OF this assms(2,3), of m x a rest] obtain v t where
    "n_answers v = rest" "n_time w1 \<le> n_time v" "n_calls v = n_calls w1 @ [sent c m, Net_ppoll (mSocket c) t]"
    "ended m (request_options (mRequestAddress c) (asks late c))"
    "\<forall>c' w'. handle_input (c\<lparr>mLastMsg := m, mNextTimeout := 4000\<rparr>) v = Some (True, c', w') \<longrightarrow> client_step c w = Some (c', w')"
    using assms(4,5) x(5,7) [OF b(1)] by auto
  then show ?thesis using x(4,6) [OF b(1)] by (intro exI [of _ v] exI [of _ t]) auto
qed

section \<open>The renewal\<close>

text \<open>From \<open>Bound\<close> after T1 to the state that asks, without a packet.\<close>

lemma to_asking:
  assumes "mState c = Bound" and "mT1 c = of_nat a" and "a \<le> n_time w" and "mT2 c = of_nat b" and "horizon w < 2 ^ 64" and "late \<Longrightarrow> b \<le> n_time w"
  shows "\<exists>w1. client_run (if late then 2 else 1) c w = Some (setNextState (if late then Rebinding else Renewing) c, w1) \<and> horizon w1 = horizon w \<and>
    n_time w \<le> n_time w1 \<and> n_answers w1 = n_answers w \<and> n_calls w1 = n_calls w \<and> sNextTransactionId w1 = sNextTransactionId w"
proof -
  obtain w1 where 1: "client_step c w = Some (setNextState Renewing c, w1)" "horizon w1 = horizon w" "n_time w \<le> n_time w1"
      "n_answers w1 = n_answers w" "n_calls w1 = n_calls w" "sNextTransactionId w1 = sNextTransactionId w"
    using t1_pass [OF assms(1-3,5)] by blast
  show ?thesis
  proof (cases late)
    case True
    then have "b \<le> n_time w1" using assms(6) 1(3) by simp
    then obtain w2 where "client_step (setNextState Renewing c) w1 = Some (setNextState Rebinding (setNextState Renewing c), w2)" "horizon w2 = horizon w1"
        "n_time w1 \<le> n_time w2" "n_answers w2 = n_answers w1" "n_calls w2 = n_calls w1" "sNextTransactionId w2 = sNextTransactionId w1"
      using t2_pass [of "setNextState Renewing c" b w1] assms(4,5) 1(2) by auto
    moreover have "setNextState Rebinding (setNextState Renewing c) = setNextState Rebinding c" by (simp add: setNextState_def)
    ultimately show ?thesis using 1 True by (simp add: numeral_2_eq_2)
  next
    case False
    then show ?thesis using 1 by simp
  qed
qed

lemma client_run_add: "client_run (m + n) c w = client_run m c w \<bind> (\<lambda>(c, w). client_run n c w)"
  by (induction m arbitrary: c w) (auto split: bind_splits prod.splits)

definition renewal_calls :: "DhcpClient \<Rightarrow> Message \<Rightarrow> u32 \<Rightarrow> net_call list" where
  "renewal_calls c req t = [sent c req, Net_ppoll (mSocket c) t, Net_readv (mSocket c) (28 + sizeof_dhcp)]"

definition renewal_script :: "reply \<Rightarrow> nat \<times> u32 \<times> u16 \<times> u32 \<Rightarrow> Message \<Rightarrow> reply list" where
  "renewal_script an = (\<lambda>(k, s, p, d) ak. [an, Value 1 [] [], Value k (raw_packet s p d PORT_BOOTP_CLIENT (data_of ak)) []])"

context lease_server begin

lemma renewal:
  assumes "mState c = Bound" and "length (i_mac (mInterface c)) = ETH_ALEN" and "mOptions c AND 1 = 0"
    and "mT1 c = of_nat a" and "a \<le> n_time w" and "mT2 c = of_nat b" and "horizon w < 2 ^ 64" and "if late then b \<le> n_time w else horizon w < b \<and> b < 2 ^ 64"
    and "request (i_mac (mInterface c)) (mRequestAddress c) (asks late c) (sNextTransactionId w) = Some (req, x)"
    and "n_answers w = renewal_script an q (acks (received (data_of req))) @ lease_script flags props resp @ later" and "willing flags props resp"
    and "info = (fold learn ack_opts zero_info)\<lparr>offeredAddress := lease\<rparr>" and "leaseTime info \<noteq> 0" and "mtu info = 0" and "length (dns info) = 4"
  shows "\<exists>c' w' t n1 n2. client_run (if late then 3 else 2) c w = Some (c', w') \<and> mState c' = Bound \<and> mDhcpInfo c' = info \<and> n_answers w' = later \<and>
    n_calls w' = n_calls w @ renewal_calls c req t @ lease_calls c' \<and> n_time w \<le> n1 \<and> n1 \<le> n2 \<and> n2 \<le> n_time w' \<and>
    mT1 c' = of_nat n1 + ucast (if 0 < t1 info then t1 info else leaseTime info div 2) * 1000 \<and>
    mT2 c' = of_nat n2 + ucast (if 0 < t2 info then t2 info else leaseTime info * 7 div 8) * 1000"
proof -
  obtain k s p d where q: "q = (k, s, p, d)" by (cases q)
  let ?c = "setNextState (if late then Rebinding else Renewing) c" and ?pkt = "Value k (raw_packet s p d PORT_BOOTP_CLIENT (data_of (acks (received (data_of req))))) []"
  have "late \<Longrightarrow> b \<le> n_time w" using assms(8) by simp
  from to_asking [OF assms(1,4-7) this] obtain w1 where
    1: "client_run (if late then 2 else 1) c w = Some (?c, w1)" "horizon w1 = horizon w" "n_time w \<le> n_time w1"
      "n_answers w1 = n_answers w" "n_calls w1 = n_calls w" "sNextTransactionId w1 = sNextTransactionId w" by blast
  have r: "request (i_mac (mInterface ?c)) (mRequestAddress ?c) (asks late ?c) (sNextTransactionId w1) = Some (req, x)"
    using assms(9) 1(6) by (cases late) (simp_all add: asks_def)
  have ans: "n_answers w1 = an # Value 1 [] [] # ?pkt # lease_script flags props resp @ later"
    using assms(10) 1(4) by (simp add: renewal_script_def q)
  obtain v t where 2: "n_answers v = ?pkt # lease_script flags props resp @ later" "n_time w1 \<le> n_time v"
      "n_calls v = n_calls w1 @ [sent ?c req, Net_ppoll (mSocket ?c) t]" "ended req (request_options (mRequestAddress ?c) (asks late ?c))"
      "\<And>c' w'. handle_input (?c\<lparr>mLastMsg := req, mNextTimeout := 4000\<rparr>) v = Some (True, c', w') \<Longrightarrow> client_step ?c w1 = Some (c', w')"
    using renew_pass [OF _ _ _ r ans, of b] assms(2,6,7,8) 1(2) by (auto split: if_splits)
  let ?c3 = "?c\<lparr>mLastMsg := req, mNextTimeout := 4000\<rparr>"
  have c3: "mState ?c3 = Requesting \<or> mState ?c3 = Renewing \<or> mState ?c3 = Rebinding"
      "ended (mLastMsg ?c3) (request_options (mRequestAddress ?c) (asks late ?c))" "mOptions ?c3 AND 1 = 0"
      "n_answers v = Value k (raw_packet s p d PORT_BOOTP_CLIENT (data_of (acks (received (data_of (mLastMsg ?c3)))))) [] # lease_script flags props resp @ later"
      "mSocket ?c3 = mSocket c"
    using assms(3) 2(1,4) by simp_all
  obtain c' w' n1 n2 where 4: "handle_input ?c3 v = Some (True, c', w')" "mState c' = Bound" "mDhcpInfo c' = info" "n_answers w' = later"
      "n_calls w' = n_calls v @ Net_readv (mSocket c) (28 + sizeof_dhcp) # lease_calls c'" "n_time v \<le> n1" "n1 \<le> n2" "n2 \<le> n_time w'"
      "mT1 c' = of_nat n1 + ucast (if 0 < t1 info then t1 info else leaseTime info div 2) * 1000"
      "mT2 c' = of_nat n2 + ucast (if 0 < t2 info then t2 info else leaseTime info * 7 div 8) * 1000"
    using ack_binds [OF c3(1-4) assms(11-15)] unfolding c3(5) by blast
  have "client_run ((if late then 2 else 1) + 1) c w = Some (c', w')"
    unfolding client_run_add 1(1) using 2(5) [OF 4(1)] by simp
  then have run: "client_run (if late then 3 else 2) c w = Some (c', w')" by (cases late) (simp_all add: numeral_2_eq_2 numeral_3_eq_3)
  have "sent ?c req = sent c req" by (simp add: sent_def)
  then have "n_calls w' = n_calls w @ renewal_calls c req t @ lease_calls c'" using 4(5) 2(3) 1(5) by (simp add: renewal_calls_def)
  then show ?thesis
    using run 4(2-4,6-10) 1(3) 2(2) by (intro exI [of _ c'] exI [of _ w'] exI [of _ t] exI [of _ n1] exI [of _ n2]) simp
qed

end

text \<open>C4: A lease is kept. When T1 has passed, a bound client asks without further waiting for the address it has: its server, as long
  as the clock stays before T2, or any server (with 255.255.255.255 for its identifier) when T2 has passed too. An \<open>ack\<close> of the
  repository's own for that request binds it again, with the lease set anew and the timers counted from the answer.
  With the T2 before T1 that a lease of this server has, it is always the second way.\<close>

theorem lease_renewed:
  assumes "mState c = Bound" and "length (i_mac (mInterface c)) = ETH_ALEN" and "mOptions c AND 1 = 0" and "length servers < 64"
    and "mT1 c = of_nat a" and "a \<le> n_time w" and "mT2 c = of_nat b" and "horizon w < 2 ^ 64" and "if late then b \<le> n_time w else horizon w < b \<and> b < 2 ^ 64"
    and "request (i_mac (mInterface c)) (mRequestAddress c) (asks late c) (sNextTransactionId w) = Some (req, x)"
    and "ack (received (data_of req)) srv lease nmask gw servers (length servers) z = Some (ak, z')"
    and "n_answers w = renewal_script an q ak @ lease_script flags props resp @ later" and "willing flags props resp"
  shows "\<exists>c' w' t n1 n2. client_run (if late then 3 else 2) c w = Some (c', w') \<and> mState c' = Bound \<and>
    mDhcpInfo c' = lease_info srv lease nmask gw servers \<and> n_answers w' = later \<and>
    n_calls w' = n_calls w @ renewal_calls c req t @ lease_calls c' \<and> n_time w \<le> n1 \<and> n1 \<le> n2 \<and> n2 \<le> n_time w' \<and>
    mT1 c' = of_nat n1 + 738263040 * 1000 \<and> mT2 c' = of_nat n2 + 218218496 * 1000"
proof -
  have s: "take 63 servers = servers" using assms(4) by simp
  have k: "ak = server_message DHCPACK srv lease nmask gw (take 63 servers) z (received (data_of req))"
    using assms(11) by (simp add: server_message_def s ack_def)
  note f = lease_info_timers [of srv lease nmask gw "take 63 servers"]
  from dhcp_server.renewal [OF assms(1-3,5-10) assms(12) [unfolded k] assms(13) lease_learned [symmetric] f(1-3), unfolded f(4,5)]
  show ?thesis unfolding s .
qed

text \<open>The client of the handshake's example, with both timers passed.\<close>

definition bound0 :: DhcpClient where
  "bound0 = client0\<lparr>mState := Bound, mRequestAddress := 0x0F02000A, mServerAddress := 0x0202000A, mT1 := 1000, mT2 := 500\<rparr>"

definition rebind0 :: Message where
  "rebind0 = fst (the (request (i_mac (mInterface client0)) 0x0F02000A INADDR_BROADCAST 1))"

lemma rebind0:
  "request (i_mac (mInterface client0)) 0x0F02000A INADDR_BROADCAST 1 = Some (rebind0, 2)"
  "ack (received (data_of rebind0)) 0x0202000A 0x0F02000A 0x00FFFFFF 0x0202000A [0x08080808] (length [0x08080808 :: u32]) 1 = Some (reply0 DHCPACK rebind0, 2)"
proof -
  obtain m where r: "request (i_mac (mInterface client0)) 0x0F02000A INADDR_BROADCAST 1 = Some (m, 1 + 1)" "ended m (request_options 0x0F02000A INADDR_BROADCAST)"
    using request_ended [OF client0_mac, of "0x0F02000A" INADDR_BROADCAST 1] by blast
  show "request (i_mac (mInterface client0)) 0x0F02000A INADDR_BROADCAST 1 = Some (rebind0, 2)" using r(1) by (simp add: rebind0_def)
  have "wf_dhcp (dhcpData (received (data_of rebind0)))"
    using received_ended(1) [OF r(2)] r(1) by (simp add: rebind0_def ended_def)
  from server_message_is(3) [OF this, of "[0x08080808]" DHCPACK "0x0202000A" "0x0F02000A" "0x00FFFFFF" "0x0202000A" 1]
  show "ack (received (data_of rebind0)) 0x0202000A 0x0F02000A 0x00FFFFFF 0x0202000A [0x08080808] (length [0x08080808 :: u32]) 1 = Some (reply0 DHCPACK rebind0, 2)"
    by (simp add: ack_def reply0_def)
qed

definition system1 :: net where
  "system1 = net0\<lparr>n_answers := renewal_script (Value 300 [] []) (9, 0x0202000A, 67, 0xFFFFFFFF) (reply0 DHCPACK rebind0) @
     lease_script [1, 0] (replicate 5 (Value 0 [] [])) (replicate 36 0) @ [], n_time := 2000\<rparr>"

theorem lease_renewed_witness:
  "\<exists>c' w' t n1 n2. client_run (if True then 3 else 2) bound0 system1 = Some (c', w') \<and> mState c' = Bound \<and>
    mDhcpInfo c' = lease_info 0x0202000A 0x0F02000A 0x00FFFFFF 0x0202000A [0x08080808] \<and> n_answers w' = [] \<and>
    n_calls w' = n_calls system1 @ renewal_calls bound0 rebind0 t @ lease_calls c' \<and> n_time system1 \<le> n1 \<and> n1 \<le> n2 \<and> n2 \<le> n_time w' \<and>
    mT1 c' = of_nat n1 + 738263040 * 1000 \<and> mT2 c' = of_nat n2 + 218218496 * 1000"
proof (rule lease_renewed [where a = 1000 and b = 500, OF _ _ _ _ _ _ _ _ _ _ rebind0(2)])
  show "length (i_mac (mInterface bound0)) = ETH_ALEN" using client0_mac by (simp add: bound0_def)
  show "request (i_mac (mInterface bound0)) (mRequestAddress bound0) (asks True bound0) (sNextTransactionId system1) = Some (rebind0, 2)"
    using rebind0(1) by (simp add: bound0_def asks_def system1_def)
  show "n_answers system1 = renewal_script (Value 300 [] []) (9, 0x0202000A, 67, 0xFFFFFFFF) (reply0 DHCPACK rebind0) @
      lease_script [1, 0] (replicate 5 (Value 0 [] [])) (replicate 36 0) @ []" by (simp add: system1_def)
  show "willing [1, 0] (replicate 5 (Value 0 [] [])) (replicate 36 0)"
    by (simp add: willing_def netlink_response_def get16_def nth_replicate)
qed (simp_all add: bound0_def client0_def DhcpClient_new_def system1_def horizon_def)

end
