(* ===== verification/Dhcp_Nak.thy ===== *)
theory Dhcp_Nak
  imports Dhcp_Renewal
begin

text \<open>
  Losing a lease: what a client does with a \<open>DHCPNAK\<close>, in the three states that wait for the answer to a
  request, and the \<open>nack\<close> of \<^verbatim>\<open>message.cpp\<close> that says so.
\<close>

section \<open>Halting the network\<close>

text \<open>The kernel answers the address request, the flags of the interface say that it is up, and it can be
  brought down.\<close>

definition halt_script :: "u8 list \<Rightarrow> u8 list \<Rightarrow> reply list" where
  "halt_script resp flags = [Value 48 [] [], Value (length resp) resp [], Value 0 flags [], Value 0 [] []]"

definition halt_calls :: "DhcpClient \<Rightarrow> u8 list \<Rightarrow> net_call list" where
  "halt_calls c flags =
     [Net_sendto (i_fd (mInterface c)) (address_packet 0 0 (i_index (mInterface c))) Sockaddr_nl, Net_recv (i_fd (mInterface c)) 8192,
      Net_ioctl (i_fd (mInterface c)) SIOCGIFFLAGS (createRequest (mInterface c)),
      Net_ioctl (i_fd (mInterface c)) (SIOCSIFFLAGS (get16 flags 0 XOR 1)) (createRequest (mInterface c))]"

lemma bringDown_up:
  assumes "n_answers w = Value 0 flags [] # Value 0 [] [] # later" and "2 \<le> length flags" and "bit (hd flags) 0"
  shows "bringDown i w = (Success, net_log (Net_ioctl (i_fd i) (SIOCSIFFLAGS (get16 flags 0 XOR 1)) (createRequest i))
    (net_log (Net_ioctl (i_fd i) SIOCGIFFLAGS (createRequest i)) w\<lparr>n_answers := later\<rparr>))"
proof -
  obtain f f' fs where f: "flags = f # f' # fs" using assms(2) by (cases flags; cases "tl flags") auto
  have g: "get16 (take 24 (flags @ replicate 24 0)) 0 = get16 flags 0" by (simp add: f get16_def)
  have "bit (get16 flags 0) 0" using assms(3) by (simp add: f get16_def bit_simps)
  then have "get16 flags 0 AND 1 \<noteq> 0" by (simp add: and_exp_eq_0_iff_not_bit [of _ 0, simplified])
  then show ?thesis
    using assms(1) g by (simp add: bringDown_def setInterfaceUp_def if_ioctl_def net_call_def net_answer_def)
qed

lemma halted:
  assumes "n_answers w = halt_script resp flags @ later" and "netlink_response (take 8192 resp) = Success"
    and "2 \<le> length flags" and "bit (hd flags) 0"
  shows "\<exists>w'. haltNetwork c w = Some w' \<and> n_answers w' = later \<and> n_calls w' = n_calls w @ halt_calls c flags \<and>
    n_time w' = n_time w \<and> sNextTransactionId w' = sNextTransactionId w"
proof -
  have a: "n_answers w = Value 48 [] [] # Value (length resp) resp [] # Value 0 flags [] # Value 0 [] [] # later"
    using assms(1) by (simp add: halt_script_def)
  define w1 where "w1 = net_log (Net_recv (i_fd (mInterface c)) 8192) (net_log (Net_sendto (i_fd (mInterface c))
    (address_packet 0 0 (i_index (mInterface c))) Sockaddr_nl) w)\<lparr>n_answers := Value 0 flags [] # Value 0 [] [] # later\<rparr>"
  have s: "setAddress 0 0 (mInterface c) w = Some (Success, w1)"
    using setAddress_serve [OF a assms(2)] by (simp add: w1_def)
  have "n_answers w1 = Value 0 flags [] # Value 0 [] [] # later" by (simp add: w1_def)
  from bringDown_up [OF this assms(3,4), of "mInterface c"] s
  show ?thesis by (simp add: haltNetwork_def halt_calls_def w1_def)
qed

section \<open>The message\<close>

lemma nack_reply:
  assumes "wf_dhcp (dhcpData m)" and "nack m s x = Some (nk, x')"
  shows "reply_to m nk [(OPT_MESSAGE_TYPE, [DHCPNAK]), (OPT_SERVER_ID, le32 s)]"
  using nack_ended [OF assms(1), of s x] assms(2) same_header_fields reply_head_fields [of DHCPNAK m 0]
  by (fastforce simp: reply_to_def)

lemma nak_taken:
  assumes "mState c \<in> {Requesting, Renewing, Rebinding}" and "ended (mLastMsg c) opts"
    and "nack (received (data_of (mLastMsg c))) srv z = Some (nk, z')"
    and "n_answers w = Value k (raw_packet s p d PORT_BOOTP_CLIENT (data_of nk)) [] # halt_script resp flags @ later"
    and "netlink_response (take 8192 resp) = Success" and "2 \<le> length flags" and "bit (hd flags) 0"
  shows "\<exists>w'. handle_input c w = Some (True, setNextState Init c, w') \<and> n_answers w' = later \<and>
    n_calls w' = n_calls w @ Net_readv (mSocket c) (28 + sizeof_dhcp) # halt_calls c flags \<and> n_time w' = n_time w \<and>
    sNextTransactionId w' = sNextTransactionId w"
proof -
  let ?m = "received (data_of (mLastMsg c))" let ?r = "received (data_of nk)"
  let ?w = "net_log (Net_readv (mSocket c) (28 + sizeof_dhcp)) (w\<lparr>n_answers := halt_script resp flags @ later\<rparr>)"
  have m: "wf_dhcp (dhcpData ?m)" "d_xid (dhcpData ?m) = d_xid (dhcpData (mLastMsg c))"
    using received_ended [OF assms(2)] same_header_fields(4) by (auto simp: ended_def)
  have o: "reply_to ?m nk [(OPT_MESSAGE_TYPE, [DHCPNAK]), (OPT_SERVER_ID, le32 srv)]"
    by (rule nack_reply [OF m(1) assms(3)])
  have "ended nk [(OPT_MESSAGE_TYPE, [DHCPNAK]), (OPT_SERVER_ID, le32 srv)]" using o by (simp add: reply_to_def)
  then have t: "message_type ?r = Some DHCPNAK"
    by (rule message_type_ended [OF received_ended(1)]) simp
  obtain w' where h: "haltNetwork c ?w = Some w'" "n_answers w' = later" "n_calls w' = n_calls ?w @ halt_calls c flags"
    "n_time w' = n_time ?w" "sNextTransactionId w' = sNextTransactionId ?w"
    using halted [of ?w resp flags later c] assms(5-7) by auto
  have "handle_message ?r c ?w = Some (True, setNextState Init c, w')"
    using assms(1) t h(1) by (auto simp: handle_message_def)
  then have "handle_input c w = Some (True, setNextState Init c, w')"
    using receive_reply [OF o m(2) [symmetric] assms(4)] by (simp add: handle_input_def)
  then show ?thesis using h by auto
qed

section \<open>Starting over\<close>

text \<open>The client is about to ask \<open>dst\<close> for its address: at once after an offer, before T2 to renew it, or after.\<close>

definition about_to_ask :: "DhcpClient \<Rightarrow> u32 \<Rightarrow> net \<Rightarrow> bool" where
  "about_to_ask c dst w \<longleftrightarrow> mNextTimeout c = 0 \<and> length (i_mac (mInterface c)) = ETH_ALEN \<and>
     (mState c = Requesting \<and> dst = mServerAddress c \<or>
      mState c = Renewing \<and> dst = mServerAddress c \<and> horizon w < unat (mT2 c) \<or>
      mState c = Rebinding \<and> dst = INADDR_BROADCAST)"

lemma asks_pass:
  assumes "about_to_ask c dst w" and "request (i_mac (mInterface c)) (mRequestAddress c) dst (sNextTransactionId w) = Some (m, x)"
    and "n_answers w = a # Value 1 [] [] # rest"
  shows "\<exists>v t. n_answers v = rest \<and> n_calls v = n_calls w @ [sent c m, Net_ppoll (mSocket c) t] \<and>
    ended m (request_options (mRequestAddress c) dst) \<and>
    (\<forall>c' w'. handle_input (c\<lparr>mLastMsg := m, mNextTimeout := 4000\<rparr>) v = Some (True, c', w') \<longrightarrow> client_step c w = Some (c', w'))"
proof -
  have c: "mNextTimeout c = 0" "length (i_mac (mInterface c)) = ETH_ALEN" using assms(1) by (simp_all add: about_to_ask_def)
  consider "mState c = Requesting" "dst = mServerAddress c"
    | "mState c = Renewing" "dst = mServerAddress c" "horizon w < unat (mT2 c)" | "mState c = Rebinding" "dst = INADDR_BROADCAST"
    using assms(1) by (auto simp: about_to_ask_def)
  then show ?thesis
  proof cases
    case 1
    then show ?thesis using requesting_pass [OF 1(1) c _ assms(3)] assms(2) by blast
  next
    case 2
    have b: "unat (mT2 c) < 2 ^ 64" using unsigned_less [of "mT2 c", where 'a = nat] by simp
    have "mState c = (if False then Rebinding else Renewing)" "mT2 c = of_nat (unat (mT2 c))" "horizon w < 2 ^ 64"
      "\<not> False \<Longrightarrow> horizon w < unat (mT2 c) \<and> unat (mT2 c) < 2 ^ 64"
      using 2 b by auto
    from renew_pass [OF this(1) c _ assms(3) this(2,3,4), of m x] show ?thesis
      using assms(2) 2(2) by (auto simp: asks_def)
  next
    case 3
    have "act c w = do { (c1, w1) \<leftarrow> sendDhcpRequest dst c w; Some (increaseTimeout c1, w1) }"
      using 3 c(1) by (simp add: act_def)
    from asking_pass [OF this c assms(2,3)] show ?thesis by blast
  qed
qed

text \<open>C5: A refused lease is given up and the client starts over. In each of the three states in which it waits for the answer
  to a request, a \<open>nack\<close> that \<^verbatim>\<open>message.cpp\<close> builds for that request makes the client set the address
  0.0.0.0 with an empty mask and bring the interface down, in this order and nothing else, and the next
  pass takes it from \<open>Init\<close> to \<open>Selecting\<close>, without waiting, where it looks for a server again. The request for the
  address is \<open>RTM_NEWADDR\<close>, so no message ever asks the kernel to remove the address of the lease.\<close>

theorem nak_starts_over:
  assumes "about_to_ask c dst w" and "request (i_mac (mInterface c)) (mRequestAddress c) dst (sNextTransactionId w) = Some (req, x)"
    and "nack (received (data_of req)) srv z = Some (nk, z')"
    and "n_answers w = [a, Value 1 [] [], Value k (raw_packet s p d PORT_BOOTP_CLIENT (data_of nk)) []] @ halt_script resp flags @ later"
    and "netlink_response (take 8192 resp) = Success" and "2 \<le> length flags" and "bit (hd flags) 0"
  shows "\<exists>w' t. client_step c w = Some (setNextState Init (c\<lparr>mLastMsg := req\<rparr>), w') \<and>
    client_run 2 c w = Some (setNextState Selecting (c\<lparr>mLastMsg := req\<rparr>), w') \<and> n_answers w' = later \<and>
    n_calls w' = n_calls w @ [sent c req, Net_ppoll (mSocket c) t, Net_readv (mSocket c) (28 + sizeof_dhcp)] @ halt_calls c flags \<and>
    get16 (address_packet 0 0 (i_index (mInterface c))) 4 = 20"
proof -
  let ?c = "c\<lparr>mLastMsg := req, mNextTimeout := 4000\<rparr>"
  obtain v t where v: "n_answers v = Value k (raw_packet s p d PORT_BOOTP_CLIENT (data_of nk)) [] # halt_script resp flags @ later"
    "n_calls v = n_calls w @ [sent c req, Net_ppoll (mSocket c) t]" "ended req (request_options (mRequestAddress c) dst)"
    "\<And>c' w'. handle_input ?c v = Some (True, c', w') \<Longrightarrow> client_step c w = Some (c', w')"
    using asks_pass [OF assms(1,2)] assms(4) by auto
  have st: "mState ?c \<in> {Requesting, Renewing, Rebinding}" using assms(1) by (auto simp: about_to_ask_def)
  have "ended (mLastMsg ?c) (request_options (mRequestAddress c) dst)" "nack (received (data_of (mLastMsg ?c))) srv z = Some (nk, z')"
    using v(3) assms(3) by simp_all
  from nak_taken [OF st this v(1) assms(5-7)] obtain w' where w': "handle_input ?c v = Some (True, setNextState Init ?c, w')" "n_answers w' = later"
    "n_calls w' = n_calls v @ Net_readv (mSocket c) (28 + sizeof_dhcp) # halt_calls c flags"
    by (auto simp: halt_calls_def)
  have c: "setNextState q ?c = setNextState q (c\<lparr>mLastMsg := req\<rparr>)" for q by (simp add: setNextState_def)
  have 1: "client_step c w = Some (setNextState Init (c\<lparr>mLastMsg := req\<rparr>), w')" using v(4) [OF w'(1)] by (simp add: c)
  have "client_step (setNextState Init (c\<lparr>mLastMsg := req\<rparr>)) w' = Some (setNextState Selecting (c\<lparr>mLastMsg := req\<rparr>), w')"
    using init_pass [of "setNextState Init (c\<lparr>mLastMsg := req\<rparr>)" w'] by (simp add: setNextState_def)
  then show ?thesis
    using 1 w' v(2) address_packet_says [of 0 0 "i_index (mInterface c)"] by (intro exI [of _ w'] exI [of _ t]) (simp add: numeral_2_eq_2)
qed


text \<open>The client of the renewal's example, whose request to any server is refused.\<close>

definition rebinding0 :: DhcpClient where
  "rebinding0 = bound0\<lparr>mState := Rebinding, mNextTimeout := 0\<rparr>"

definition nak0 :: Message where
  "nak0 = fst (the (nack (received (data_of rebind0)) 0x0202000A 1))"

lemma nak0: "nack (received (data_of rebind0)) 0x0202000A 1 = Some (nak0, 2)"
proof -
  obtain m where r: "request (i_mac (mInterface client0)) 0x0F02000A INADDR_BROADCAST 1 = Some (m, 1 + 1)" "ended m (request_options 0x0F02000A INADDR_BROADCAST)"
    using request_ended [OF client0_mac, of "0x0F02000A" INADDR_BROADCAST 1] by blast
  have "wf_dhcp (dhcpData (received (data_of rebind0)))"
    using received_ended(1) [OF r(2)] r(1) by (simp add: rebind0_def ended_def)
  from nack_ended [OF this, of "0x0202000A" 1] show ?thesis by (auto simp: nak0_def)
qed

definition system2 :: net where
  "system2 = net0\<lparr>n_answers := [Value 300 [] [], Value 1 [] [], Value 9 (raw_packet 0x0202000A 67 0xFFFFFFFF PORT_BOOTP_CLIENT (data_of nak0)) []] @
     halt_script (replicate 36 0) [1, 0] @ []\<rparr>"

theorem nak_starts_over_witness:
  "\<exists>w' t. client_step rebinding0 system2 = Some (setNextState Init (rebinding0\<lparr>mLastMsg := rebind0\<rparr>), w') \<and>
    client_run 2 rebinding0 system2 = Some (setNextState Selecting (rebinding0\<lparr>mLastMsg := rebind0\<rparr>), w') \<and> n_answers w' = [] \<and>
    n_calls w' = n_calls system2 @ [sent rebinding0 rebind0, Net_ppoll (mSocket rebinding0) t, Net_readv (mSocket rebinding0) (28 + sizeof_dhcp)] @
      halt_calls rebinding0 [1, 0] \<and>
    get16 (address_packet 0 0 (i_index (mInterface rebinding0))) 4 = 20"
proof (rule nak_starts_over [OF _ _ nak0])
  show "about_to_ask rebinding0 INADDR_BROADCAST system2"
    using client0_mac by (simp add: about_to_ask_def rebinding0_def bound0_def)
  show "request (i_mac (mInterface rebinding0)) (mRequestAddress rebinding0) INADDR_BROADCAST (sNextTransactionId system2) = Some (rebind0, 2)"
    using rebind0(1) by (simp add: rebinding0_def bound0_def system2_def)
  show "n_answers system2 = [Value 300 [] [], Value 1 [] [], Value 9 (raw_packet 0x0202000A 67 0xFFFFFFFF PORT_BOOTP_CLIENT (data_of nak0)) []] @
      halt_script (replicate 36 0) [1, 0] @ []" by (simp add: system2_def)
  show "netlink_response (take 8192 (replicate 36 0)) = Success"
    by (simp add: netlink_response_def get16_def nth_replicate)
qed simp_all

end
