(* ===== verification/Addr_Text.thy ===== *)
theory Addr_Text
  imports Dhcp_Client
begin

text \<open>
  Addresses as text: \<open>addrToStr\<close> of the common library, \<^verbatim>\<open>dhcp_recovery/common/utils.cpp\<close>, which
  nothing in the repository calls, beside the function of the same name in the client, which it agrees with.
\<close>

text \<open>\<open>inet_ntop\<close> fails when the text and its NUL do not fit the buffer.\<close>

definition inet_ntop :: "u32 \<Rightarrow> nat \<Rightarrow> u8 list option" where
  "inet_ntop address sz =
     (let b = map (\<lambda>x. dec (unat x)) (le32 address); s = b ! 0 @ [0x2E] @ b ! 1 @ [0x2E] @ b ! 2 @ [0x2E] @ b ! 3
      in if sz \<le> length s then None else Some s)"

abbreviation (input) INET_ADDRSTRLEN :: nat where "INET_ADDRSTRLEN \<equiv> 16"

definition common_addrToStr :: "u32 \<Rightarrow> u8 list" where
  "common_addrToStr address = (case inet_ntop address INET_ADDRSTRLEN of None \<Rightarrow> asc ''[unknown]'' | Some buffer \<Rightarrow> buffer)"

lemma dec_length: "n < 10 ^ k \<Longrightarrow> 0 < k \<Longrightarrow> length (dec n) \<le> k"
proof (induction k arbitrary: n)
  case (Suc k)
  show ?case
  proof (cases "n < 10")
    case False
    then have "k \<noteq> 0" "n div 10 < 10 ^ k" using Suc.prems(1) by (auto intro!: Nat.gr0I)
    then show ?thesis using False Suc.IH [of "n div 10"] by (simp add: dec.simps [of n])
  qed (simp add: dec.simps [of n])
qed simp

lemma byte_length: "length (dec (unat (b :: u8))) \<le> 3"
  using unsigned_less [of b, where 'a = nat] by (intro dec_length) simp_all

text \<open>The buffer is large enough for every address, and reading four numbers with dots between them gives back its bytes.\<close>

theorem address_text_reads_back:
  "common_addrToStr address = addrToStr address \<and> length (addrToStr address) < INET_ADDRSTRLEN \<and>
    sscanf [Fd, Fch 0x2E, Fd, Fch 0x2E, Fd, Fch 0x2E, Fd] (addrToStr address) = Some (map ucast (le32 address))"
proof -
  obtain a b c d where l: "le32 address = [a, b, c, d]" by (simp add: le32_def)
  have t: "addrToStr address = dec (unat a) @ 0x2E # dec (unat b) @ 0x2E # dec (unat c) @ 0x2E # dec (unat d)"
    by (simp add: addrToStr_def l)
  have fits: "length (addrToStr address) < 16"
    using byte_length [of a] byte_length [of b] byte_length [of c] byte_length [of d] by (simp add: t)
  then have "common_addrToStr address = addrToStr address"
    by (simp add: common_addrToStr_def inet_ntop_def Let_def l t)
  moreover have "unat (x :: u8) < 2 ^ 31" for x
    using unsigned_less [of x, where 'a = nat] by simp
  then have "scan_d (dec (unat x) @ r) = ScanOk (ucast x) r" if "r = [] \<or> hd r = 0x2E" for x :: u8 and r
    using scan_d_dec [of "unat x" r] that by (auto simp: isdigit_def)
  then have "scan_d (dec (unat x) @ 0x2E # r) = ScanOk (ucast x) (0x2E # r)" "scan_d (dec (unat x)) = ScanOk (ucast x) []" for x :: u8 and r
    by (simp, metis append_Nil2)
  then have "sscanf [Fd, Fch 0x2E, Fd, Fch 0x2E, Fd, Fch 0x2E, Fd] (addrToStr address) = Some (map ucast (le32 address))"
    by (simp add: t l)
  ultimately show ?thesis using fits by simp
qed

end
