(* ===== verification/Boot_Text.thy ===== *)
theory Boot_Text
  imports Prelude "HOL-Library.Sublist"
begin

text \<open>
  Replacing text in the boot loader's configuration: \<open>findAndReplace\<close> of \<^verbatim>\<open>bootctrl/x86_boot_control.cpp\<close>, a
  reference definition of replacement, and what a replacement does to a configuration that names a slot.
\<close>

section \<open>The loop\<close>

text \<open>\<open>std::string::find\<close> from a position.\<close>

function find_from :: "string \<Rightarrow> string \<Rightarrow> nat \<Rightarrow> nat option" where
  "find_from content f pos =
     (if length content < pos then None else if prefix f (drop pos content) then Some pos else find_from content f (pos + 1))"
  by pat_completeness auto

termination
  by (relation "measure (\<lambda>(content, f, pos). Suc (length content) - pos)") auto

declare find_from.simps [simp del]

text \<open>The loop would not end for an empty text to find, so its result is optional.\<close>

partial_function (option) replace_loop :: "string \<Rightarrow> string \<Rightarrow> nat option \<Rightarrow> string \<Rightarrow> string option" where
  "replace_loop findStr replaceStr pos content =
     (case pos of
        None \<Rightarrow> Some content
      | Some p \<Rightarrow>
          (let content' = take p content @ replaceStr @ drop (p + length findStr) content
           in replace_loop findStr replaceStr (find_from content' findStr (p + length replaceStr)) content'))"

definition findAndReplace :: "string \<Rightarrow> string \<Rightarrow> string \<Rightarrow> string option" where
  "findAndReplace content findStr replaceStr = replace_loop findStr replaceStr (find_from content findStr 0) content"

section \<open>The reference definition\<close>

text \<open>Every occurrence from the left, not looking again at what was put in.\<close>

function replace_all :: "string \<Rightarrow> string \<Rightarrow> string \<Rightarrow> string" where
  "replace_all f r [] = []"
| "replace_all f r (x # xs) =
     (if f \<noteq> [] \<and> prefix f (x # xs) then r @ replace_all f r (drop (length f) (x # xs)) else x # replace_all f r xs)"
  by pat_completeness auto

termination
  by (relation "measure (\<lambda>(f, r, s). length s)") (auto simp: length_Cons)

lemma replace_loop_None [simp]: "replace_loop f r None content = Some content"
  by (subst replace_loop.simps) simp

lemma find_from_at: "prefix f s \<Longrightarrow> find_from (pre @ s) f (length pre) = Some (length pre)"
  by (subst find_from.simps) simp

lemma find_from_later: "\<not> prefix f (x # xs) \<Longrightarrow> find_from (pre @ x # xs) f (length pre) = find_from (pre @ x # xs) f (length (pre @ [x]))"
  by (subst find_from.simps) simp

lemma find_from_end: "f \<noteq> [] \<Longrightarrow> find_from pre f (length pre) = None"
  by (subst find_from.simps) (simp, subst find_from.simps, simp)

lemma replace_loop_step:
  "prefix f s \<Longrightarrow> replace_loop f r (Some (length pre)) (pre @ s) =
     replace_loop f r (find_from ((pre @ r) @ drop (length f) s) f (length (pre @ r))) ((pre @ r) @ drop (length f) s)"
  by (subst replace_loop.simps) (simp add: Let_def)

lemma replace_loop_all:
  assumes "f \<noteq> []"
  shows "replace_loop f r (find_from (pre @ s) f (length pre)) (pre @ s) = Some (pre @ replace_all f r s)"
  using assms
proof (induction f r s arbitrary: pre rule: replace_all.induct)
  case (1 f r)
  then show ?case by (simp add: find_from_end)
next
  case (2 f r x xs)
  show ?case
  proof (cases "prefix f (x # xs)")
    case True
    then show ?thesis
      using "2.IH"(1) [of "pre @ r"] "2.prems" by (simp add: find_from_at replace_loop_step del: append_assoc drop_Cons)
  next
    case False
    then show ?thesis
      using "2.IH"(2) [of "pre @ [x]"] "2.prems" by (simp add: find_from_later)
  qed
qed

lemma find_and_replace_is: "f \<noteq> [] \<Longrightarrow> findAndReplace content f r = Some (replace_all f r content)"
  using replace_loop_all [of f r "[]" content] by (simp add: findAndReplace_def)

section \<open>What replacing is\<close>

text \<open>The text between the occurrences stays, and they are replaced.\<close>

fun join :: "string \<Rightarrow> string list \<Rightarrow> string" where
  "join sep [] = []"
| "join sep [p] = p"
| "join sep (p # q # ps) = p @ sep @ join sep (q # ps)"

text \<open>\<open>cuts f ps\<close>: cutting \<open>join f ps\<close> at \<open>f\<close> from the left, without overlaps, gives \<open>ps\<close>.\<close>

definition cuts :: "string \<Rightarrow> string list \<Rightarrow> bool" where
  "cuts f ps \<longleftrightarrow> ps \<noteq> [] \<and> list_all (\<lambda>p. \<not> sublist f (p @ butlast f)) (butlast ps) \<and> \<not> sublist f (last ps)"

lemma join_Cons: "ps \<noteq> [] \<Longrightarrow> join sep (p # ps) = p @ sep @ join sep ps"
  by (cases ps) auto

lemma join_grow: "join sep ((x # p) # ps) = x # join sep (p # ps)"
  by (cases ps) auto

lemma butlast_without: "f \<noteq> [] \<Longrightarrow> \<not> sublist f (butlast f)"
  using sublist_length_le [of f "butlast f"] by (cases "length f") auto

lemma cuts_next: "f \<noteq> [] \<Longrightarrow> cuts f ps \<Longrightarrow> cuts f ([] # ps)"
  using butlast_without [of f] by (simp add: cuts_def)

lemma cuts_grow:
  assumes "cuts f (p # ps)" and "\<not> prefix f (x # join f (p # ps))"
  shows "cuts f ((x # p) # ps)"
proof (cases ps)
  case Nil
  then show ?thesis using assms by (simp add: cuts_def sublist_Cons_right)
next
  case (Cons q qs)
  have "\<not> prefix f ((x # p) @ butlast f)"
  proof
    assume "prefix f ((x # p) @ butlast f)"
    moreover have "prefix ((x # p) @ butlast f) (x # join f (p # ps))"
      using prefixeq_butlast [of f] by (auto simp: Cons intro: prefix_order.order_trans)
    ultimately show False using assms(2) prefix_order.order_trans by blast
  qed
  then show ?thesis using assms(1) by (simp add: cuts_def Cons sublist_Cons_right)
qed

lemma replace_all_cuts:
  assumes "f \<noteq> []"
  shows "\<exists>ps. cuts f ps \<and> s = join f ps \<and> (\<forall>r. replace_all f r s = join r ps)"
proof (induction s rule: length_induct)
  case (1 s)
  show ?case
  proof (cases "prefix f s")
    case True
    then obtain t where s: "s = f @ t" by (auto simp: prefix_def)
    then have "length t < length s" using assms by simp
    with 1 obtain ps where ps: "cuts f ps" "t = join f ps" "\<forall>r. replace_all f r t = join r ps" by blast
    then have ne: "ps \<noteq> []" by (simp add: cuts_def)
    have "replace_all f r s = r @ replace_all f r t" for r using assms s by (cases f) auto
    then show ?thesis
      using ps cuts_next [OF assms ps(1)] join_Cons [OF ne] by (intro exI [of _ "[] # ps"]) (simp add: s)
  next
    case False
    show ?thesis
    proof (cases s)
      case Nil
      then show ?thesis using assms by (intro exI [of _ "[[]]"]) (simp add: cuts_def)
    next
      case (Cons x xs)
      with 1 obtain ps where ps: "cuts f ps" "xs = join f ps" "\<forall>r. replace_all f r xs = join r ps" by auto
      obtain p qs where q: "ps = p # qs" using ps(1) by (cases ps) (auto simp: cuts_def)
      have "replace_all f r s = x # replace_all f r xs" for r using False Cons by auto
      moreover have "cuts f ((x # p) # qs)" using cuts_grow [of f p qs x] ps False Cons q by simp
      ultimately show ?thesis using ps Cons q by (intro exI [of _ "(x # p) # qs"]) (simp add: join_grow)
    qed
  qed
qed

text \<open>C30: Replacing always ends, and does what it should. For any content and any text to find that is not empty, the loop of
  \<open>findAndReplace\<close>, which edits the string in place and searches on behind each replacement, returns: there is a way
  of cutting the content at the text from the left without overlaps, and the result is the same pieces joined by the replacement.\<close>

theorem findAndReplace_returns:
  assumes "findStr \<noteq> []"
  shows "\<exists>ps. cuts findStr ps \<and> content = join findStr ps \<and> findAndReplace content findStr replaceStr = Some (join replaceStr ps)"
  using replace_all_cuts [OF assms, of content] find_and_replace_is [OF assms] by auto

theorem findAndReplace_returns_witness:
  "\<exists>ps. cuts ''aa'' ps \<and> ''aaab'' = join ''aa'' ps \<and> findAndReplace ''aaab'' ''aa'' ''baa'' = Some (join ''baa'' ps)"
  by (rule findAndReplace_returns) simp

section \<open>Texts without occurrences, and separators\<close>

lemma replace_all_none: "\<not> sublist f s \<Longrightarrow> replace_all f r s = s"
  by (induction f r s rule: replace_all.induct) (auto simp: sublist_Cons_right)

lemma replace_all_whole: "f \<noteq> [] \<Longrightarrow> replace_all f r f = r"
  by (cases f) auto

lemma sublist_same_length: "sublist xs ys \<Longrightarrow> length xs = length ys \<Longrightarrow> xs = ys"
  by (auto simp: sublist_def)

lemma prefix_before: "c \<notin> set f \<Longrightarrow> prefix f (xs @ c # ys) \<longleftrightarrow> prefix f xs"
proof (induction f arbitrary: xs)
  case (Cons a f)
  then show ?case by (cases xs) auto
qed simp

lemma replace_all_skip: "\<not> (f \<noteq> [] \<and> prefix f (x # xs)) \<Longrightarrow> replace_all f r (x # xs) = x # replace_all f r xs"
  by auto

lemma replace_all_separator:
  "c \<notin> set f \<Longrightarrow> replace_all f r (xs @ c # ys) = replace_all f r xs @ c # replace_all f r ys"
proof (induction f r xs rule: replace_all.induct)
  case (1 f r)
  then show ?case by (cases f) auto
next
  case (2 f r x xs)
  show ?case
  proof (cases "f \<noteq> [] \<and> prefix f (x # xs)")
    case True
    then have "length f \<le> length (x # xs)" using prefix_length_le by blast
    then have "drop (length f) ((x # xs) @ c # ys) = drop (length f) (x # xs) @ c # ys" by (simp only: drop_append) simp
    moreover have "prefix f ((x # xs) @ c # ys)" using True by (simp only: prefix_before [OF "2.prems"])
    ultimately show ?thesis using "2.IH"(1) [OF True "2.prems"] True by (simp del: drop_Cons)
  next
    case False
    then have n: "\<not> (f \<noteq> [] \<and> prefix f (x # (xs @ c # ys)))" using prefix_before [OF "2.prems", of "x # xs" ys] by simp
    show ?thesis using "2.IH"(2) [OF False "2.prems"] by (simp only: append_Cons replace_all_skip [OF n] replace_all_skip [OF False])
  qed
qed

end
