(* ===== verification/Boot_Control.thy ===== *)
theory Boot_Control
  imports Boot_Text Prelude
begin

text \<open>
  The boot control of the A/B slots, \<^verbatim>\<open>bootctrl/BootControl.cpp\<close> and \<^verbatim>\<open>bootctrl/x86_boot_control.cpp\<close>. The library that
  keeps the slots' metadata (\<open>impl_\<close>) is not part of the repository: it is a parameter, a record of its operations
  on a state of any type. The world has the system properties and the files; \<open>w_room\<close> is how many bytes can be
  written. A result \<open>None\<close> is a null pointer used as a string, or a loop that does not end.
\<close>

section \<open>The configuration of the boot loader\<close>

record boot_world =
  w_props :: "string \<Rightarrow> string"
  w_files :: "string \<Rightarrow> string option"
  w_locked :: "string \<Rightarrow> bool"
  w_room :: nat

text \<open>\<open>android::base::GetProperty\<close>: the default for a property that is not set or empty.\<close>

definition GetProperty :: "string \<Rightarrow> string \<Rightarrow> boot_world \<Rightarrow> string" where
  "GetProperty key dflt w = (if w_props w key = [] then dflt else w_props w key)"

definition boot_texts :: "string list" where
  "boot_texts = [''kernel'', ''initrd'', ''androidboot.slot_suffix='', ''SLOT='']"

fun replace_texts :: "string list \<Rightarrow> string \<Rightarrow> string \<Rightarrow> string \<Rightarrow> string option" where
  "replace_texts [] old_suffix new_suffix content = Some content"
| "replace_texts (t # ts) old_suffix new_suffix content = do {
     c \<leftarrow> findAndReplace content (t @ old_suffix) (t @ new_suffix);
     replace_texts ts old_suffix new_suffix c
   }"

definition cfg_filename :: "boot_world \<Rightarrow> string" where
  "cfg_filename w =
     (let filename = GetProperty ''ro.boot.bootctrl_bootcfg'' [] w in if filename = [] then ''/boot/grub/android.cfg'' else filename)"

definition SetBootSlot :: "string option \<Rightarrow> boot_world \<Rightarrow> (bool \<times> boot_world) option" where
  "SetBootSlot new_suffix w =
     (let filename = cfg_filename w; old_suffix = GetProperty ''ro.boot.slot_suffix'' [] w
      in if old_suffix = [] then Some (False, w)
         else (case w_files w filename of
                 None \<Rightarrow> Some (False, w)
               | Some content \<Rightarrow> do {
                   new \<leftarrow> new_suffix;
                   content' \<leftarrow> replace_texts boot_texts old_suffix new content;
                   if w_locked w filename then Some (False, w)
                   else Some (True, w\<lparr>w_files := (w_files w)(filename \<mapsto> take (w_room w) content')\<rparr>)
                 }))"

section \<open>The service\<close>

record 's boot_impl =
  impl_Init :: "'s \<Rightarrow> bool \<times> 's"
  impl_GetNumberSlots :: "'s \<Rightarrow> u32"
  impl_GetCurrentSlot :: "'s \<Rightarrow> u32"
  impl_MarkBootSuccessful :: "'s \<Rightarrow> bool \<times> 's"
  impl_GetSuffix :: "u32 \<Rightarrow> 's \<Rightarrow> string option"
  impl_SetActiveBootSlot :: "u32 \<Rightarrow> 's \<Rightarrow> bool \<times> 's"
  impl_SetSlotAsUnbootable :: "u32 \<Rightarrow> 's \<Rightarrow> bool \<times> 's"
  impl_IsValidSlot :: "u32 \<Rightarrow> 's \<Rightarrow> bool"
  impl_IsSlotBootable :: "u32 \<Rightarrow> 's \<Rightarrow> bool"
  impl_IsSlotMarkedSuccessful :: "u32 \<Rightarrow> 's \<Rightarrow> bool"
  impl_SetSnapshotMergeStatus :: "u32 \<Rightarrow> 's \<Rightarrow> bool \<times> 's"
  impl_GetSnapshotMergeStatus :: "'s \<Rightarrow> u32"
  impl_GetActiveBootSlot :: "'s \<Rightarrow> u32"

datatype BoolResult = BoolResult_FALSE | BoolResult_TRUE | INVALID_SLOT

record CommandResult =
  success :: bool
  errMsg :: string

definition command_result :: "bool \<Rightarrow> CommandResult" where
  "command_result ok = (if ok then \<lparr>success = True, errMsg = ''Success''\<rparr> else \<lparr>success = False, errMsg = ''Operation failed''\<rparr>)"

definition BootControl_Init :: "'s boot_impl \<Rightarrow> 's \<Rightarrow> bool \<times> 's" where
  "BootControl_Init impl s = impl_Init impl s"

definition getNumberSlots :: "'s boot_impl \<Rightarrow> 's \<Rightarrow> u32" where
  "getNumberSlots impl s = impl_GetNumberSlots impl s"

definition getCurrentSlot :: "'s boot_impl \<Rightarrow> 's \<Rightarrow> u32" where
  "getCurrentSlot impl s = impl_GetCurrentSlot impl s"

definition markBootSuccessful :: "'s boot_impl \<Rightarrow> 's \<Rightarrow> CommandResult \<times> 's" where
  "markBootSuccessful impl s = (let (ok, s1) = impl_MarkBootSuccessful impl s in (command_result ok, s1))"

definition setActiveBootSlot :: "'s boot_impl \<Rightarrow> u32 \<Rightarrow> 's \<Rightarrow> boot_world \<Rightarrow> (CommandResult \<times> 's \<times> boot_world) option" where
  "setActiveBootSlot impl slot s w =
     (let new_suffix = impl_GetSuffix impl slot s; (ok, s1) = impl_SetActiveBootSlot impl slot s
      in if \<not> ok then Some (command_result False, s1, w)
         else do {
           (ok2, w1) \<leftarrow> SetBootSlot new_suffix w;
           Some (command_result ok2, s1, w1)
         })"

definition setSlotAsUnbootable :: "'s boot_impl \<Rightarrow> u32 \<Rightarrow> 's \<Rightarrow> CommandResult \<times> 's" where
  "setSlotAsUnbootable impl slot s = (let (ok, s1) = impl_SetSlotAsUnbootable impl slot s in (command_result ok, s1))"

definition isSlotBootable :: "'s boot_impl \<Rightarrow> u32 \<Rightarrow> 's \<Rightarrow> BoolResult" where
  "isSlotBootable impl slot s =
     (if \<not> impl_IsValidSlot impl slot s then INVALID_SLOT
      else if impl_IsSlotBootable impl slot s then BoolResult_TRUE else BoolResult_FALSE)"

definition isSlotMarkedSuccessful :: "'s boot_impl \<Rightarrow> u32 \<Rightarrow> 's \<Rightarrow> BoolResult" where
  "isSlotMarkedSuccessful impl slot s =
     (if \<not> impl_IsValidSlot impl slot s then INVALID_SLOT
      else if impl_IsSlotMarkedSuccessful impl slot s then BoolResult_TRUE else BoolResult_FALSE)"

definition getSuffix :: "'s boot_impl \<Rightarrow> u32 \<Rightarrow> 's \<Rightarrow> string" where
  "getSuffix impl slot s = (case impl_GetSuffix impl slot s of Some sfx \<Rightarrow> sfx | None \<Rightarrow> [])"

definition setSnapshotMergeStatus :: "'s boot_impl \<Rightarrow> u32 \<Rightarrow> 's \<Rightarrow> bool \<times> 's" where
  "setSnapshotMergeStatus impl status s = impl_SetSnapshotMergeStatus impl status s"

definition getSnapshotMergeStatus :: "'s boot_impl \<Rightarrow> 's \<Rightarrow> u32" where
  "getSnapshotMergeStatus impl s = impl_GetSnapshotMergeStatus impl s"

definition getActiveBootSlot :: "'s boot_impl \<Rightarrow> 's \<Rightarrow> u32" where
  "getActiveBootSlot impl s = impl_GetActiveBootSlot impl s"

text \<open>The module is created, or there is none.\<close>

definition HIDL_FETCH_IBootControl :: "'s boot_impl \<Rightarrow> 's \<Rightarrow> 's option" where
  "HIDL_FETCH_IBootControl impl s = (let (ok, s1) = BootControl_Init impl s in if \<not> ok then None else Some s1)"

section \<open>Configurations that name a slot\<close>

text \<open>
  A configuration is a list of pieces, each with the character behind it. A piece is one of the four texts followed by the
  suffix of the slot, or any other text without these. The characters behind the pieces are none that occur
  in the texts and suffixes: blanks, slashes, quotes, the ends of lines.
\<close>

datatype piece = Slot string | Other string

fun piece_text :: "(string \<Rightarrow> string) \<Rightarrow> piece \<Rightarrow> string" where
  "piece_text sfx (Slot t) = t @ sfx t"
| "piece_text sfx (Other s) = s"

fun cfg_text :: "(string \<Rightarrow> string) \<Rightarrow> (piece \<times> char) list \<Rightarrow> string" where
  "cfg_text sfx [] = []"
| "cfg_text sfx ((p, c) # ps) = piece_text sfx p @ c # cfg_text sfx ps"

definition separator :: "char \<Rightarrow> bool" where
  "separator c \<longleftrightarrow> c \<notin> set (concat boot_texts @ ''_ab'')"

fun piece_ok :: "piece \<Rightarrow> bool" where
  "piece_ok (Slot t) = (t \<in> set boot_texts)"
| "piece_ok (Other s) = list_all (\<lambda>t. \<not> sublist (t @ ''_a'') s \<and> \<not> sublist (t @ ''_b'') s) boot_texts"

definition cfg_ok :: "(piece \<times> char) list \<Rightarrow> bool" where
  "cfg_ok ps \<longleftrightarrow> list_all (\<lambda>(p, c). piece_ok p \<and> separator c) ps"

abbreviation ab :: "string \<Rightarrow> bool" where
  "ab s \<equiv> s = ''_a'' \<or> s = ''_b''"

lemma texts_apart:
  "list_all (\<lambda>t. list_all (\<lambda>t'. t = t' \<or> list_all (\<lambda>x. list_all (\<lambda>y. \<not> sublist (t @ x) (t' @ y)) [''_a'', ''_b'']) [''_a'', ''_b'']) boot_texts) boot_texts"
  unfolding boot_texts_def by code_simp

lemma replace_slot:
  assumes "t \<in> set boot_texts" and "t' \<in> set boot_texts" and "ab old" and "ab s"
  shows "replace_all (t @ old) (t @ new) (t' @ s) = t' @ (if t = t' \<and> s = old then new else s)"
proof -
  have ne: "t @ old \<noteq> []" using assms(3) by auto
  have other: "replace_all (t @ old) (t @ new) (t' @ s) = t' @ s" if "\<not> sublist (t @ old) (t' @ s)"
    by (rule replace_all_none [OF that])
  consider "t \<noteq> t'" | "t = t'" "s = old" | "t = t'" "s \<noteq> old" by blast
  then show ?thesis
  proof cases
    case 1
    then have "\<not> sublist (t @ old) (t' @ s)" using texts_apart assms by (auto simp: list_all_iff)
    then show ?thesis using other 1 by simp
  next
    case 2
    then show ?thesis using replace_all_whole [OF ne] by simp
  next
    case 3
    then have "length (t @ old) = length (t' @ s)" "t @ old \<noteq> t' @ s" using assms(3,4) by auto
    then have "\<not> sublist (t @ old) (t' @ s)" using sublist_same_length by blast
    then show ?thesis using other 3 by simp
  qed
qed

lemma replace_cfg:
  assumes "t \<in> set boot_texts" and "ab old" and "ab new" and "\<And>t'. t' \<in> set boot_texts \<Longrightarrow> ab (sfx t')" and "sfx t = old"
  shows "cfg_ok ps \<Longrightarrow> replace_all (t @ old) (t @ new) (cfg_text sfx ps) = cfg_text (sfx(t := new)) ps"
proof (induction ps)
  case (Cons pc ps)
  obtain p c where pc: "pc = (p, c)" by (cases pc)
  have p: "piece_ok p" "separator c" "cfg_ok ps" using Cons.prems by (simp_all add: pc cfg_ok_def)
  have c: "c \<notin> set (t @ old)" using p(2) assms(1,2) by (auto simp: separator_def)
  have "replace_all (t @ old) (t @ new) (piece_text sfx p) = piece_text (sfx(t := new)) p"
  proof (cases p)
    case (Slot t')
    then have "t' \<in> set boot_texts" using p(1) by simp
    then show ?thesis using replace_slot [OF assms(1) _ assms(2) assms(4)] assms(5) Slot by auto
  next
    case (Other s)
    then have "\<not> sublist (t @ old) s" using p(1) assms(1,2) by (auto simp: list_all_iff)
    then show ?thesis using replace_all_none Other by auto
  qed
  then show ?case using Cons.IH [OF p(3)] by (simp only: pc cfg_text.simps replace_all_separator [OF c])
qed simp

lemma replace_texts_cfg:
  "set ts \<subseteq> set boot_texts \<Longrightarrow> distinct ts \<Longrightarrow> ab old \<Longrightarrow> ab new \<Longrightarrow> (\<And>t'. t' \<in> set boot_texts \<Longrightarrow> ab (sfx t')) \<Longrightarrow>
   (\<And>t. t \<in> set ts \<Longrightarrow> sfx t = old) \<Longrightarrow> cfg_ok ps \<Longrightarrow>
   replace_texts ts old new (cfg_text sfx ps) = Some (cfg_text (\<lambda>t. if t \<in> set ts then new else sfx t) ps)"
proof (induction ts arbitrary: sfx)
  case (Cons t ts)
  have r: "replace_all (t @ old) (t @ new) (cfg_text sfx ps) = cfg_text (sfx(t := new)) ps"
    using Cons.prems by (intro replace_cfg) auto
  have "t @ old \<noteq> []" using Cons.prems(3) by auto
  then have "replace_texts (t # ts) old new (cfg_text sfx ps) = replace_texts ts old new (cfg_text (sfx(t := new)) ps)"
    using r by (simp add: find_and_replace_is)
  also have "\<dots> = Some (cfg_text (\<lambda>t'. if t' \<in> set ts then new else (sfx(t := new)) t') ps)"
    using Cons.prems by (intro Cons.IH) auto
  also have "(\<lambda>t'. if t' \<in> set ts then new else (sfx(t := new)) t') = (\<lambda>t'. if t' \<in> set (t # ts) then new else sfx t')"
    by (simp add: fun_eq_iff)
  finally show ?case .
qed simp

lemma cfg_text_cong: "cfg_ok ps \<Longrightarrow> (\<And>t. t \<in> set boot_texts \<Longrightarrow> f t = g t) \<Longrightarrow> cfg_text f ps = cfg_text g ps"
proof (induction ps)
  case (Cons pc ps)
  obtain p c where pc: "pc = (p, c)" by (cases pc)
  have "piece_text f p = piece_text g p" using Cons.prems by (cases p) (auto simp: pc cfg_ok_def)
  then show ?case using Cons by (simp add: pc cfg_ok_def)
qed simp

lemma replace_boot_texts:
  assumes "ab old" and "ab new" and "cfg_ok ps"
  shows "replace_texts boot_texts old new (cfg_text (\<lambda>t. old) ps) = Some (cfg_text (\<lambda>t. new) ps)"
proof -
  have "distinct boot_texts" by (simp add: boot_texts_def)
  then have "replace_texts boot_texts old new (cfg_text (\<lambda>t. old) ps) = Some (cfg_text (\<lambda>t. if t \<in> set boot_texts then new else old) ps)"
    using assms by (intro replace_texts_cfg) auto
  also have "cfg_text (\<lambda>t. if t \<in> set boot_texts then new else old) ps = cfg_text (\<lambda>t. new) ps"
    by (rule cfg_text_cong [OF assms(3)]) simp
  finally show ?thesis .
qed

text \<open>What is not there is not replaced: the texts with the other suffix stay.\<close>

lemma replace_boot_texts_other:
  assumes "ab old" and "ab s" and "s \<noteq> old" and "cfg_ok ps"
  shows "set ts \<subseteq> set boot_texts \<Longrightarrow> replace_texts ts old new (cfg_text (\<lambda>t. s) ps) = Some (cfg_text (\<lambda>t. s) ps)"
proof (induction ts)
  case (Cons t ts)
  have t: "t \<in> set boot_texts" using Cons.prems by simp
  have "replace_all (t @ old) (t @ new) (cfg_text (\<lambda>t. s) ps) = cfg_text (\<lambda>t. s) ps"
    using assms(4)
  proof (induction ps)
    case (Cons pc ps)
    obtain p c where pc: "pc = (p, c)" by (cases pc)
    have p: "piece_ok p" "separator c" "cfg_ok ps" using Cons.prems by (simp_all add: pc cfg_ok_def)
    have c: "c \<notin> set (t @ old)" using p(2) t assms(1) by (auto simp: separator_def)
    have "replace_all (t @ old) (t @ new) (piece_text (\<lambda>t. s) p) = piece_text (\<lambda>t. s) p"
    proof (cases p)
      case (Slot t')
      then show ?thesis using replace_slot [OF t _ assms(1,2)] p(1) assms(3) by simp
    next
      case (Other s')
      then have "\<not> sublist (t @ old) s'" using p(1) t assms(1) by (auto simp: list_all_iff)
      then show ?thesis using replace_all_none Other by auto
    qed
    then show ?case using Cons.IH [OF p(3)] by (simp add: pc replace_all_separator [OF c])
  qed simp
  then show ?case using Cons assms(1) by (auto simp: find_and_replace_is)
qed simp

section \<open>Switching\<close>

lemma SetBootSlot_is:
  assumes "w_props w ''ro.boot.slot_suffix'' = old" and "old \<noteq> []" and "w_files w (cfg_filename w) = Some content"
    and "\<not> w_locked w (cfg_filename w)" and "replace_texts boot_texts old new content = Some content'" and "length content' \<le> w_room w"
  shows "SetBootSlot (Some new) w = Some (True, w\<lparr>w_files := (w_files w)(cfg_filename w \<mapsto> content')\<rparr>)"
  using assms by (simp add: SetBootSlot_def GetProperty_def Let_def)

lemma setActiveBootSlot_is:
  assumes "impl_GetSuffix impl slot s = Some new" and "impl_SetActiveBootSlot impl slot s = (True, s')"
    and "SetBootSlot (Some new) w = Some (ok, w')"
  shows "setActiveBootSlot impl slot s w = Some (command_result ok, s', w')"
  using assms by (simp add: setActiveBootSlot_def)

lemma cfg_filename_files [simp]: "cfg_filename (w\<lparr>w_files := fs\<rparr>) = cfg_filename w"
  by (simp add: cfg_filename_def GetProperty_def)

text \<open>C31: Switching the slot switches the configuration, and back. A configuration that names the running slot in any of the four
  ways, between separators, names the new slot everywhere afterwards and is otherwise the same, no other file changes, and
  Success is reported; and after a restart in the new slot, switching back restores the files exactly.\<close>

theorem slot_switched:
  assumes "cfg_ok ps" and "ab old" and "ab new" and "w_props w ''ro.boot.slot_suffix'' = old"
    and "w_files w (cfg_filename w) = Some (cfg_text (\<lambda>t. old) ps)" and "\<not> w_locked w (cfg_filename w)"
    and "length (cfg_text (\<lambda>t. new) ps) \<le> w_room w" and "length (cfg_text (\<lambda>t. old) ps) \<le> w_room w"
    and "impl_GetSuffix impl slot s = Some new" and "impl_SetActiveBootSlot impl slot s = (True, s1)"
    and "impl_GetSuffix impl slot' s2 = Some old" and "impl_SetActiveBootSlot impl slot' s2 = (True, s3)"
  shows "\<exists>w1 w2. setActiveBootSlot impl slot s w = Some (\<lparr>success = True, errMsg = ''Success''\<rparr>, s1, w1) \<and>
    w_files w1 = (w_files w)(cfg_filename w \<mapsto> cfg_text (\<lambda>t. new) ps) \<and>
    setActiveBootSlot impl slot' s2 (w1\<lparr>w_props := (w_props w1)(''ro.boot.slot_suffix'' := new)\<rparr>) =
      Some (\<lparr>success = True, errMsg = ''Success''\<rparr>, s3, w2) \<and> w_files w2 = w_files w"
proof -
  define w1 where "w1 = w\<lparr>w_files := (w_files w)(cfg_filename w \<mapsto> cfg_text (\<lambda>t. new) ps)\<rparr>"
  define v where "v = w1\<lparr>w_props := (w_props w1)(''ro.boot.slot_suffix'' := new)\<rparr>"
  have f: "cfg_filename v = cfg_filename w" by (simp add: v_def w1_def cfg_filename_def GetProperty_def)
  have "SetBootSlot (Some new) w = Some (True, w1)" unfolding w1_def
    by (rule SetBootSlot_is [OF assms(4) _ assms(5,6) replace_boot_texts [OF assms(2,3,1)] assms(7)]) (use assms(2) in auto)
  note one = setActiveBootSlot_is [OF assms(9,10) this]
  have "SetBootSlot (Some old) v = Some (True, v\<lparr>w_files := (w_files v)(cfg_filename v \<mapsto> cfg_text (\<lambda>t. old) ps)\<rparr>)"
    by (rule SetBootSlot_is [OF _ _ _ _ replace_boot_texts [OF assms(3,2,1)]])
       (use assms(3,6,8) f in \<open>auto simp: v_def w1_def\<close>)
  note two = setActiveBootSlot_is [OF assms(11,12) this]
  have "(w_files v)(cfg_filename v \<mapsto> cfg_text (\<lambda>t. old) ps) = w_files w"
    using assms(5) by (simp add: f fun_eq_iff) (simp add: v_def w1_def)
  moreover have "w_files w1 = (w_files w)(cfg_filename w \<mapsto> cfg_text (\<lambda>t. new) ps)" by (simp add: w1_def)
  ultimately show ?thesis
    using one two by (intro exI [of _ w1] exI [of _ "v\<lparr>w_files := w_files w\<rparr>"]) (simp add: v_def [symmetric] command_result_def)
qed

text \<open>C32: A second switch before the restart is lost. When the slot has been switched and is switched back in the same boot, Success
  is reported again and the slots' metadata has the old slot active, but the configuration still names the new slot: the
  text to look for is built from the slot that is running, which the configuration no longer names.\<close>

theorem second_switch_lost:
  assumes "cfg_ok ps" and "ab old" and "ab new" and "old \<noteq> new" and "w_props w ''ro.boot.slot_suffix'' = old"
    and "w_files w (cfg_filename w) = Some (cfg_text (\<lambda>t. old) ps)" and "\<not> w_locked w (cfg_filename w)"
    and "length (cfg_text (\<lambda>t. new) ps) \<le> w_room w"
    and "impl_GetSuffix impl slot s = Some new" and "impl_SetActiveBootSlot impl slot s = (True, s1)"
    and "impl_GetSuffix impl slot' s1 = Some old" and "impl_SetActiveBootSlot impl slot' s1 = (True, s2)"
  shows "\<exists>w1 w2. setActiveBootSlot impl slot s w = Some (\<lparr>success = True, errMsg = ''Success''\<rparr>, s1, w1) \<and>
    setActiveBootSlot impl slot' s1 w1 = Some (\<lparr>success = True, errMsg = ''Success''\<rparr>, s2, w2) \<and>
    w_files w2 (cfg_filename w2) = Some (cfg_text (\<lambda>t. new) ps)"
proof -
  define w1 where "w1 = w\<lparr>w_files := (w_files w)(cfg_filename w \<mapsto> cfg_text (\<lambda>t. new) ps)\<rparr>"
  have "SetBootSlot (Some new) w = Some (True, w1)" unfolding w1_def
    by (rule SetBootSlot_is [OF assms(5) _ assms(6,7) replace_boot_texts [OF assms(2,3,1)] assms(8)]) (use assms(2) in auto)
  note one = setActiveBootSlot_is [OF assms(9,10) this]
  have "replace_texts boot_texts old old (cfg_text (\<lambda>t. new) ps) = Some (cfg_text (\<lambda>t. new) ps)"
    by (rule replace_boot_texts_other [OF assms(2,3) _ assms(1)]) (use assms(4) in auto)
  then have "SetBootSlot (Some old) w1 = Some (True, w1\<lparr>w_files := (w_files w1)(cfg_filename w1 \<mapsto> cfg_text (\<lambda>t. new) ps)\<rparr>)"
    by (rule SetBootSlot_is [rotated 4]) (use assms(2,5,7,8) in \<open>auto simp: w1_def\<close>)
  note two = setActiveBootSlot_is [OF assms(11,12) this]
  show ?thesis
    by (rule exI [of _ w1], rule exI [of _ "w1\<lparr>w_files := (w_files w1)(cfg_filename w1 \<mapsto> cfg_text (\<lambda>t. new) ps)\<rparr>"])
       (use one two in \<open>simp add: command_result_def\<close>)
qed

text \<open>A name that goes on after the suffix is changed inside.\<close>

lemma replaced_inside_a_name: "replace_texts boot_texts ''_a'' ''_b'' ''linux /kernel_android'' = Some ''linux /kernel_bndroid''"
  by (simp add: boot_texts_def find_and_replace_is)

text \<open>A failure to change the configuration is reported after the metadata has been changed.\<close>

lemma failed_switch_activates:
  assumes "impl_SetActiveBootSlot impl slot s = (True, s1)" and "w_props w ''ro.boot.slot_suffix'' = old" and "w_files w (cfg_filename w) = None"
  shows "setActiveBootSlot impl slot s w = Some (\<lparr>success = False, errMsg = ''Operation failed''\<rparr>, s1, w)"
  using assms by (simp add: setActiveBootSlot_def SetBootSlot_def Let_def command_result_def)

section \<open>Witnesses\<close>

text \<open>A library whose state is the active slot, of two.\<close>

definition impl0 :: "u32 boot_impl" where
  "impl0 = \<lparr>impl_Init = (\<lambda>s. (True, s)), impl_GetNumberSlots = (\<lambda>s. 2), impl_GetCurrentSlot = (\<lambda>s. 0), impl_MarkBootSuccessful = (\<lambda>s. (True, s)),
     impl_GetSuffix = (\<lambda>k s. if k = 0 then Some ''_a'' else if k = 1 then Some ''_b'' else None), impl_SetActiveBootSlot = (\<lambda>k s. if k < 2 then (True, k) else (False, s)),
     impl_SetSlotAsUnbootable = (\<lambda>k s. (k < 2, s)), impl_IsValidSlot = (\<lambda>k s. k < 2), impl_IsSlotBootable = (\<lambda>k s. k < 2),
     impl_IsSlotMarkedSuccessful = (\<lambda>k s. k < 2), impl_SetSnapshotMergeStatus = (\<lambda>k s. (True, s)), impl_GetSnapshotMergeStatus = (\<lambda>s. 0), impl_GetActiveBootSlot = (\<lambda>s. s)\<rparr>"

definition grub0 :: "(piece \<times> char) list" where
  "grub0 = [(Other ''linux'', CHR '' ''), (Other [], CHR ''/''), (Slot ''kernel'', CHR '' ''), (Slot ''SLOT='', CHR '' ''), (Slot ''androidboot.slot_suffix='', CHR 0x0A),
     (Other ''initrd'', CHR '' ''), (Other [], CHR ''/''), (Slot ''initrd'', CHR 0x0A)]"

definition boot_world0 :: boot_world where
  "boot_world0 = \<lparr>w_props = (\<lambda>k. if k = ''ro.boot.slot_suffix'' then ''_a'' else []),
     w_files = (\<lambda>f. if f = ''/boot/grub/android.cfg'' then Some (cfg_text (\<lambda>t. ''_a'') grub0) else None), w_locked = (\<lambda>f. False), w_room = 4096\<rparr>"

lemma grub0_ok: "cfg_ok grub0"
  unfolding grub0_def cfg_ok_def separator_def boot_texts_def by code_simp

lemma boot_world0_simps:
  "w_props boot_world0 ''ro.boot.slot_suffix'' = ''_a''" "cfg_filename boot_world0 = ''/boot/grub/android.cfg''"
  "w_files boot_world0 ''/boot/grub/android.cfg'' = Some (cfg_text (\<lambda>t. ''_a'') grub0)" "\<not> w_locked boot_world0 f"
  "length (cfg_text (\<lambda>t. ''_a'') grub0) \<le> w_room boot_world0" "length (cfg_text (\<lambda>t. ''_b'') grub0) \<le> w_room boot_world0"
  by (simp_all add: boot_world0_def cfg_filename_def GetProperty_def grub0_def)

theorem slot_switched_witness:
  "\<exists>w1 w2. setActiveBootSlot impl0 1 0 boot_world0 = Some (\<lparr>success = True, errMsg = ''Success''\<rparr>, 1, w1) \<and>
    w_files w1 = (w_files boot_world0)(cfg_filename boot_world0 \<mapsto> cfg_text (\<lambda>t. ''_b'') grub0) \<and>
    setActiveBootSlot impl0 0 1 (w1\<lparr>w_props := (w_props w1)(''ro.boot.slot_suffix'' := ''_b'')\<rparr>) =
      Some (\<lparr>success = True, errMsg = ''Success''\<rparr>, 0, w2) \<and> w_files w2 = w_files boot_world0"
  by (rule slot_switched [where old = "''_a''", OF grub0_ok]) (simp_all add: boot_world0_simps impl0_def)

theorem second_switch_lost_witness:
  "\<exists>w1 w2. setActiveBootSlot impl0 1 0 boot_world0 = Some (\<lparr>success = True, errMsg = ''Success''\<rparr>, 1, w1) \<and>
    setActiveBootSlot impl0 0 1 w1 = Some (\<lparr>success = True, errMsg = ''Success''\<rparr>, 0, w2) \<and>
    w_files w2 (cfg_filename w2) = Some (cfg_text (\<lambda>t. ''_b'') grub0)"
  by (rule second_switch_lost [where old = "''_a''", OF grub0_ok]) (simp_all add: boot_world0_simps impl0_def)

end
