(* ===== verification/Misc_Partition.thy ===== *)
theory Misc_Partition
  imports CLib
begin

text \<open>
  The data of the misc partition, \<^verbatim>\<open>bootctrl/boot_control_definition.h\<close>: the message of the boot loader
  with its space for A/B devices, and the block of slot metadata kept in that space. The functions that load
  and save the block are declared there and live outside the repository. The layout is that of the x86_64
  ABI: bit-fields fill a byte from its lowest bit on, and, the structures being packed, run on into the next
  byte. The 2048 bytes of the message proper belong to another header.
\<close>

section \<open>The structures\<close>

record slot_metadata =
  sm_priority :: "4 word"
  sm_tries_remaining :: "3 word"
  sm_successful_boot :: "1 word"
  sm_verity_corrupted :: "1 word"
  sm_reserved :: "7 word"

abbreviation (input) BOOT_CTRL_MAGIC :: u32 where "BOOT_CTRL_MAGIC \<equiv> 0x42414342"
abbreviation (input) BOOT_CTRL_VERSION :: u8 where "BOOT_CTRL_VERSION \<equiv> 1"

record bootloader_control =
  bc_slot_suffix :: "u8 list"
  bc_magic :: u32
  bc_version :: u8
  bc_nb_slot :: "3 word"
  bc_recovery_tries_remaining :: "3 word"
  bc_merge_status :: "3 word"
  bc_reserved0 :: "u8 list"
  bc_slot_info :: "slot_metadata list"
  bc_reserved1 :: "u8 list"
  bc_crc32_le :: u32

record bootloader_message_ab =
  ab_message :: "u8 list"
  ab_slot_suffix :: "u8 list"
  ab_update_channel :: "u8 list"
  ab_reserved :: "u8 list"

text \<open>The sizes of the arrays.\<close>

definition wf_control :: "bootloader_control \<Rightarrow> bool" where
  "wf_control c \<longleftrightarrow> length (bc_slot_suffix c) = 4 \<and> length (bc_reserved0 c) = 1 \<and> length (bc_slot_info c) = 4 \<and> length (bc_reserved1 c) = 8"

definition wf_message_ab :: "bootloader_message_ab \<Rightarrow> bool" where
  "wf_message_ab m \<longleftrightarrow> length (ab_message m) = 2048 \<and> length (ab_slot_suffix m) = 32 \<and> length (ab_update_channel m) = 128 \<and>
     length (ab_reserved m) = 1888"

section \<open>In memory\<close>

definition slot_bits :: "slot_metadata \<Rightarrow> u16" where
  "slot_bits s = ucast (sm_priority s) OR push_bit 4 (ucast (sm_tries_remaining s)) OR push_bit 7 (ucast (sm_successful_boot s)) OR
     push_bit 8 (ucast (sm_verity_corrupted s)) OR push_bit 9 (ucast (sm_reserved s))"

definition slot_of_bits :: "u16 \<Rightarrow> slot_metadata" where
  "slot_of_bits w = \<lparr>sm_priority = ucast w, sm_tries_remaining = ucast (drop_bit 4 w), sm_successful_boot = ucast (drop_bit 7 w),
     sm_verity_corrupted = ucast (drop_bit 8 w), sm_reserved = ucast (drop_bit 9 w)\<rparr>"

text \<open>The three fields after the version take nine bits; the other seven of the two bytes are padding.\<close>

definition status_bits :: "bootloader_control \<Rightarrow> u16" where
  "status_bits c = ucast (bc_nb_slot c) OR push_bit 3 (ucast (bc_recovery_tries_remaining c)) OR push_bit 6 (ucast (bc_merge_status c))"

definition control_bytes :: "bootloader_control \<Rightarrow> u8 list" where
  "control_bytes c = bc_slot_suffix c @ le32 (bc_magic c) @ [bc_version c] @ le16 (status_bits c) @ bc_reserved0 c @
     concat (map (\<lambda>s. le16 (slot_bits s)) (bc_slot_info c)) @ bc_reserved1 c @ le32 (bc_crc32_le c)"

definition control_of_bytes :: "u8 list \<Rightarrow> bootloader_control" where
  "control_of_bytes b = (let st = get16 b 9 in
     \<lparr>bc_slot_suffix = take 4 b, bc_magic = get32 b 4, bc_version = b ! 8, bc_nb_slot = ucast st,
      bc_recovery_tries_remaining = ucast (drop_bit 3 st), bc_merge_status = ucast (drop_bit 6 st), bc_reserved0 = take 1 (drop 11 b),
      bc_slot_info = map (\<lambda>i. slot_of_bits (get16 b (12 + 2 * i))) [0..<4], bc_reserved1 = take 8 (drop 20 b), bc_crc32_le = get32 b 28\<rparr>)"

definition message_ab_bytes :: "bootloader_message_ab \<Rightarrow> u8 list" where
  "message_ab_bytes m = ab_message m @ ab_slot_suffix m @ ab_update_channel m @ ab_reserved m"

section \<open>What the assertions of the header say, and more\<close>

lemma slot_fields: "slot_of_bits (slot_bits s) = s"
proof -
  have "ucast (slot_bits s) = sm_priority s" "ucast (drop_bit 4 (slot_bits s)) = sm_tries_remaining s"
    "ucast (drop_bit 7 (slot_bits s)) = sm_successful_boot s" "ucast (drop_bit 8 (slot_bits s)) = sm_verity_corrupted s"
    "ucast (drop_bit 9 (slot_bits s)) = sm_reserved s"
    unfolding slot_bits_def by (rule word_eq_bits; simp add: upt_rec bit_simps bit_out_of_range)+
  then show ?thesis by (simp add: slot_of_bits_def)
qed

lemma slot_all_bits: "slot_bits (slot_of_bits w) = w"
  unfolding slot_bits_def slot_of_bits_def by (rule word_eq_bits) (simp add: upt_rec bit_simps bit_out_of_range, simp add: eval_nat_numeral)

lemma status_fields:
  "ucast (status_bits c) = bc_nb_slot c" "ucast (drop_bit 3 (status_bits c)) = bc_recovery_tries_remaining c"
  "ucast (drop_bit 6 (status_bits c)) = bc_merge_status c"
  unfolding status_bits_def by (rule word_eq_bits; simp add: upt_rec bit_simps bit_out_of_range)+

lemma length_control_bytes: "wf_control c \<Longrightarrow> length (control_bytes c) = 32"
proof -
  assume c: "wf_control c"
  have "length (concat (map (\<lambda>s. le16 (slot_bits s)) xs)) = 2 * length xs" for xs
    by (induction xs) auto
  then show ?thesis using c by (simp add: control_bytes_def wf_control_def)
qed

lemma get_slots:
  assumes "length xs = 12" and "length ss = 4"
  shows "map (\<lambda>i. slot_of_bits (get16 (xs @ concat (map (\<lambda>s. le16 (slot_bits s)) ss) @ r) (12 + 2 * i))) [0..<4] = ss"
proof -
  obtain a b c d where s: "ss = [a, b, c, d]"
    using assms(2) by (auto simp: length_Suc_conv numeral_eq_Suc)
  have g: "get16 (xs @ ys) (12 + j) = get16 ys j" for ys j
    using get_append(1) [of xs ys j] assms(1) by simp
  have n: "get16 (le16 x @ ys) (2 + j) = get16 ys j" for x ys j
    using get_append(1) [of "le16 x" ys j] by simp
  show ?thesis
    using n [of _ _ 0] n [of _ _ 2] n [of _ _ 4]
    by (simp add: s upt_rec g slot_fields)
qed

text \<open>The layout is what the header asserts, and loses nothing: the block takes 32 bytes, as many as the space
  for the slot suffix; the checksum is the last four, so that it covers exactly the 28 before it; and
  every field is read back from the bytes, the merge status included, whose three bits lie in two bytes.\<close>

theorem control_block_layout:
  assumes "wf_control c"
  shows "length (control_bytes c) = 32 \<and> control_of_bytes (control_bytes c) = c \<and> drop 28 (control_bytes c) = le32 (bc_crc32_le c)"
proof -
  obtain a0 a1 a2 a3 where a: "bc_slot_suffix c = [a0, a1, a2, a3]"
    using assms by (auto simp: wf_control_def length_Suc_conv numeral_eq_Suc)
  obtain r where r: "bc_reserved0 c = [r]"
    using assms by (auto simp: wf_control_def length_Suc_conv)
  define slots where "slots = concat (map (\<lambda>s. le16 (slot_bits s)) (bc_slot_info c))"
  have l: "length slots = 8" "length (bc_slot_info c) = 4" "length (bc_reserved1 c) = 8"
    using assms length_control_bytes [OF assms] by (simp_all add: wf_control_def control_bytes_def slots_def)
  define hd12 where "hd12 = [a0, a1, a2, a3] @ le32 (bc_magic c) @ [bc_version c] @ le16 (status_bits c) @ [r]"
  have h: "length hd12 = 12" by (simp add: hd12_def)
  have b: "control_bytes c = hd12 @ slots @ bc_reserved1 c @ le32 (bc_crc32_le c)"
    by (simp add: control_bytes_def a r hd12_def slots_def)
  have "get32 (control_bytes c) 4 = bc_magic c" "control_bytes c ! 8 = bc_version c" "get16 (control_bytes c) 9 = status_bits c"
    "take 4 (control_bytes c) = bc_slot_suffix c" "take 1 (drop 11 (control_bytes c)) = bc_reserved0 c"
    unfolding b hd12_def a r by (simp_all add: get32_def get16_def le32_def le16_def get_le16 get_le32)
  moreover have "get32 (control_bytes c) 28 = bc_crc32_le c" "take 8 (drop 20 (control_bytes c)) = bc_reserved1 c"
    "drop 28 (control_bytes c) = le32 (bc_crc32_le c)"
    using get_append(2) [of "hd12 @ slots @ bc_reserved1 c" "le32 (bc_crc32_le c)" 0] h l unfolding b by simp_all
  moreover have "map (\<lambda>i. slot_of_bits (get16 (control_bytes c) (12 + 2 * i))) [0..<4] = bc_slot_info c"
    unfolding b slots_def by (rule get_slots [OF h l(2)])
  ultimately show ?thesis
    using assms length_control_bytes [OF assms] status_fields [of c]
    by (simp add: control_of_bytes_def Let_def)
qed

lemma message_ab_size: "wf_message_ab m \<Longrightarrow> length (message_ab_bytes m) = 4096"
  by (simp add: wf_message_ab_def message_ab_bytes_def)

end
