(* ===== verification/Init_Properties.thy ===== *)
theory Init_Properties
  imports Prelude "HOL-Library.Multiset"
begin

text \<open>
  The properties set when the device starts: \<^verbatim>\<open>libinit/libinit_utils.cpp\<close>, \<^verbatim>\<open>libinit/libinit_dalvik_heap.cpp\<close> and
  \<^verbatim>\<open>libinit/init_x86.cpp\<close>. The property area of the system is a map; whether it takes a value is a parameter, and so
  are the files of the machine, what a failed read leaves in its string, the order in which the entries of an
  unordered map are visited, and the size of the memory. \<open>None\<close> is the last character of an empty string taken away.
\<close>

record init_world =
  i_props :: "string \<Rightarrow> string option"
  i_takes :: "string \<Rightarrow> string \<Rightarrow> bool"
  i_files :: "string \<Rightarrow> string option"
  i_stale :: "string \<Rightarrow> string \<Rightarrow> string"
  i_order :: "(string \<times> string) list \<Rightarrow> (string \<times> string) list"
  i_ram :: "64 word"

section \<open>Setting a property\<close>

definition property_override :: "string \<Rightarrow> string \<Rightarrow> bool \<Rightarrow> init_world \<Rightarrow> init_world" where
  "property_override prop val add w =
     (case i_props w prop of
        Some old \<Rightarrow> if i_takes w prop val then w\<lparr>i_props := (i_props w)(prop \<mapsto> val)\<rparr> else w
      | None \<Rightarrow> if add then (if i_takes w prop val then w\<lparr>i_props := (i_props w)(prop \<mapsto> val)\<rparr> else w) else w)"

definition ro_props_default_source_order :: "string list" where
  "ro_props_default_source_order = [''bliss.'', ''odm.'', ''odm_dlkm.'', ''product.'', ''system.'', ''system_ext.'', ''vendor.'', ''vendor_dlkm.'', '''']"

definition prop_name :: "string \<Rightarrow> bool \<Rightarrow> string \<Rightarrow> string" where
  "prop_name prop product source = (if product then ''ro.product.'' @ source @ prop else ''ro.'' @ source @ ''build.'' @ prop)"

definition set_ro_build_prop :: "string \<Rightarrow> string \<Rightarrow> bool \<Rightarrow> init_world \<Rightarrow> init_world" where
  "set_ro_build_prop prop val product w =
     fold (\<lambda>source. property_override (prop_name prop product source) val True) ro_props_default_source_order w"

section \<open>The heap of the runtime\<close>

record dalvik_heap_info =
  heapstartsize :: string
  heapgrowthlimit :: string
  heapsize :: string
  heapminfree :: string
  heapmaxfree :: string
  heaptargetutilization :: string

definition dalvik_heap_info_16384 :: dalvik_heap_info where
  "dalvik_heap_info_16384 = \<lparr>heapstartsize = ''32m'', heapgrowthlimit = ''448m'', heapsize = ''640m'', heapminfree = ''16m'',
     heapmaxfree = ''64m'', heaptargetutilization = ''0.4''\<rparr>"

definition dalvik_heap_info_12288 :: dalvik_heap_info where
  "dalvik_heap_info_12288 = \<lparr>heapstartsize = ''24m'', heapgrowthlimit = ''384m'', heapsize = ''512m'', heapminfree = ''8m'',
     heapmaxfree = ''56m'', heaptargetutilization = ''0.42''\<rparr>"

definition dalvik_heap_info_8192 :: dalvik_heap_info where
  "dalvik_heap_info_8192 = \<lparr>heapstartsize = ''24m'', heapgrowthlimit = ''256m'', heapsize = ''512m'', heapminfree = ''8m'',
     heapmaxfree = ''48m'', heaptargetutilization = ''0.46''\<rparr>"

definition dalvik_heap_info_6144 :: dalvik_heap_info where
  "dalvik_heap_info_6144 = \<lparr>heapstartsize = ''16m'', heapgrowthlimit = ''256m'', heapsize = ''512m'', heapminfree = ''8m'',
     heapmaxfree = ''32m'', heaptargetutilization = ''0.5''\<rparr>"

definition dalvik_heap_info_4096 :: dalvik_heap_info where
  "dalvik_heap_info_4096 = \<lparr>heapstartsize = ''8m'', heapgrowthlimit = ''256m'', heapsize = ''512m'', heapminfree = ''8m'',
     heapmaxfree = ''16m'', heaptargetutilization = ''0.6''\<rparr>"

definition dalvik_heap_info_2048 :: dalvik_heap_info where
  "dalvik_heap_info_2048 = \<lparr>heapstartsize = ''8m'', heapgrowthlimit = ''128m'', heapsize = ''256m'', heapminfree = ''512k'',
     heapmaxfree = ''8m'', heaptargetutilization = ''0.75''\<rparr>"

definition dalvik_heap_info_1024 :: dalvik_heap_info where
  "dalvik_heap_info_1024 = \<lparr>heapstartsize = ''8m'', heapgrowthlimit = ''96m'', heapsize = ''256m'', heapminfree = ''512k'',
     heapmaxfree = ''8m'', heaptargetutilization = ''0.75''\<rparr>"

text \<open>\<open>GB(1.3)\<close> is computed in floating point: 1395864371.2.\<close>

definition heap_select :: "64 word \<Rightarrow> nat" where
  "heap_select totalram =
     (if 15 * 1024 * 1024 * 1024 < totalram then 8
      else if 11 * 1024 * 1024 * 1024 < totalram then 7
      else if 7 * 1024 * 1024 * 1024 < totalram then 6
      else if 5 * 1024 * 1024 * 1024 < totalram then 5
      else if 3 * 1024 * 1024 * 1024 < totalram then 4
      else if 1395864371 < totalram then 3 else 2)"

definition heap_row :: "nat \<Rightarrow> dalvik_heap_info" where
  "heap_row k =
     (if k = 8 then dalvik_heap_info_16384 else if k = 7 then dalvik_heap_info_12288 else if k = 6 then dalvik_heap_info_8192
      else if k = 5 then dalvik_heap_info_6144 else if k = 4 then dalvik_heap_info_4096 else if k = 3 then dalvik_heap_info_2048
      else dalvik_heap_info_1024)"

definition set_dalvik_heap :: "init_world \<Rightarrow> init_world" where
  "set_dalvik_heap w =
     (let dhi = heap_row (heap_select (i_ram w));
          w1 = property_override ''dalvik.vm.heapstartsize'' (heapstartsize dhi) True w;
          w2 = property_override ''dalvik.vm.heapgrowthlimit'' (heapgrowthlimit dhi) True w1;
          w3 = property_override ''dalvik.vm.heapsize'' (heapsize dhi) True w2;
          w4 = property_override ''dalvik.vm.heaptargetutilization'' (heaptargetutilization dhi) True w3;
          w5 = property_override ''dalvik.vm.heapminfree'' (heapminfree dhi) True w4
      in property_override ''dalvik.vm.heapmaxfree'' (heapmaxfree dhi) True w5)"

section \<open>The identity of the machine\<close>

definition kDmiIdPath :: string where
  "kDmiIdPath = ''/sys/devices/virtual/dmi/id/''"

definition kDmiIdToPropertyMap :: "(string \<times> string) list" where
  "kDmiIdToPropertyMap = [(''bios_version'', ''ro.boot.bootloader''), (''product_serial'', ''ro.bliss.serialnumber''),
     (''board_name'', ''ro.product.board'')]"

definition kDmiIdToRoBuildPropMap :: "(string \<times> string) list" where
  "kDmiIdToRoBuildPropMap = [(''product_name'', ''name''), (''chassis_vendor'', ''brand''), (''board_name'', ''model''),
     (''sys_vendor'', ''manufacturer'')]"

definition kLenovoDmiIdToRoBuildPropMap :: "(string \<times> string) list" where
  "kLenovoDmiIdToRoBuildPropMap = [(''product_family'', ''name''), (''chassis_vendor'', ''brand''), (''board_name'', ''model''),
     (''sys_vendor'', ''manufacturer'')]"

text \<open>\<open>android::base::ReadFileToString\<close> into a string that holds \<open>old\<close>, and \<open>GetProperty\<close>.\<close>

definition ReadFileToString :: "string \<Rightarrow> string \<Rightarrow> init_world \<Rightarrow> bool \<times> string" where
  "ReadFileToString path old w = (case i_files w path of Some c \<Rightarrow> (True, c) | None \<Rightarrow> (False, i_stale w path old))"

definition init_GetProperty :: "string \<Rightarrow> string \<Rightarrow> init_world \<Rightarrow> string" where
  "init_GetProperty key dflt w = (case i_props w key of Some (c # v) \<Rightarrow> c # v | _ \<Rightarrow> dflt)"

definition is_lenovo :: "init_world \<Rightarrow> bool option" where
  "is_lenovo w =
     (let (ok, val) = ReadFileToString (kDmiIdPath @ ''sys_vendor'') [] w
      in if ok then (if val = [] then None else Some (butlast val = ''Lenovo'' \<or> butlast val = ''LENOVO'')) else Some False)"

definition set_misc_properties :: "init_world \<Rightarrow> init_world" where
  "set_misc_properties w =
     (if init_GetProperty ''ro.boot.insecure_adb'' [] w = ''1''
      then property_override ''ro.secure'' ''0'' True (property_override ''ro.adb.secure'' ''0'' True w) else w)"

text \<open>The loops over the maps. The string that is read into is the same in every pass.\<close>

fun dmi_loop :: "(string \<Rightarrow> string \<Rightarrow> init_world \<Rightarrow> init_world) \<Rightarrow> (string \<times> string) list \<Rightarrow> string \<Rightarrow> init_world \<Rightarrow> string \<times> init_world" where
  "dmi_loop set_prop [] val w = (val, w)"
| "dmi_loop set_prop ((f, prop) # m) val w =
     (let val1 = snd (ReadFileToString (kDmiIdPath @ f) val w)
      in if val1 = [] then dmi_loop set_prop m val1 w
         else dmi_loop set_prop m (butlast val1) (set_prop prop (butlast val1) w))"

definition set_properties_from_dmi_id :: "init_world \<Rightarrow> init_world option" where
  "set_properties_from_dmi_id w =
     (let (val, w1) = dmi_loop (\<lambda>prop v. property_override prop v True) (i_order w kDmiIdToPropertyMap) [] w
      in do {
        lenovo \<leftarrow> is_lenovo w1;
        Some (snd (dmi_loop (\<lambda>prop v. set_ro_build_prop prop v True)
          (i_order w (if lenovo then kLenovoDmiIdToRoBuildPropMap else kDmiIdToRoBuildPropMap)) val w1))
      })"

definition vendor_load_properties :: "init_world \<Rightarrow> init_world option" where
  "vendor_load_properties w = set_properties_from_dmi_id (set_misc_properties (set_dalvik_heap w))"

section \<open>Sizes\<close>

text \<open>The KiB of a size that ends in \<open>m\<close> or \<open>k\<close>.\<close>

definition number :: "string \<Rightarrow> nat" where
  "number s = foldl (\<lambda>a c. 10 * a + (of_char c - 48)) 0 s"

definition kib :: "string \<Rightarrow> nat" where
  "kib s = (if last s = CHR ''m'' then 1024 * number (butlast s) else number (butlast s))"

abbreviation willing_area :: "init_world \<Rightarrow> bool" where
  "willing_area w \<equiv> i_takes w = (\<lambda>p v. True)"

lemma property_override_taken [simp]:
  "willing_area w \<Longrightarrow> property_override p v True w = w\<lparr>i_props := (i_props w)(p \<mapsto> v)\<rparr>"
  by (simp add: property_override_def split: option.split)

definition heap_entries :: "64 word \<Rightarrow> (string \<times> string) list" where
  "heap_entries totalram =
     (let d = heap_row (heap_select totalram)
      in [(''dalvik.vm.heapstartsize'', heapstartsize d), (''dalvik.vm.heapgrowthlimit'', heapgrowthlimit d), (''dalvik.vm.heapsize'', heapsize d),
          (''dalvik.vm.heaptargetutilization'', heaptargetutilization d), (''dalvik.vm.heapminfree'', heapminfree d), (''dalvik.vm.heapmaxfree'', heapmaxfree d)])"

lemma set_dalvik_heap_is:
  "willing_area w \<Longrightarrow> set_dalvik_heap w = w\<lparr>i_props := i_props w ++ map_of (heap_entries (i_ram w))\<rparr>"
  by (simp add: set_dalvik_heap_def heap_entries_def Let_def map_add_upd_left fun_eq_iff map_add_def)

lemma heap_select_mono:
  assumes "a \<le> b"
  shows "heap_select a \<le> heap_select b"
proof -
  have "k < a \<Longrightarrow> k < b" for k using assms by simp
  then show ?thesis by (simp add: heap_select_def)
qed

lemma heap_select_range: "heap_select a \<in> set [2, 3, 4, 5, 6, 7, 8]"
  by (simp add: heap_select_def)

definition row_sizes :: "dalvik_heap_info \<Rightarrow> nat list" where
  "row_sizes d = map kib [heapstartsize d, heapgrowthlimit d, heapsize d, heapminfree d, heapmaxfree d]"

lemma row_sizes_values:
  "row_sizes (heap_row 2) = [8192, 98304, 262144, 512, 8192]" "row_sizes (heap_row 3) = [8192, 131072, 262144, 512, 8192]"
  "row_sizes (heap_row 4) = [8192, 262144, 524288, 8192, 16384]" "row_sizes (heap_row 5) = [16384, 262144, 524288, 8192, 32768]"
  "row_sizes (heap_row 6) = [24576, 262144, 524288, 8192, 49152]" "row_sizes (heap_row 7) = [24576, 393216, 524288, 8192, 57344]"
  "row_sizes (heap_row 8) = [32768, 458752, 655360, 16384, 65536]"
  by (simp_all add: row_sizes_def heap_row_def kib_def number_def dalvik_heap_info_16384_def dalvik_heap_info_12288_def dalvik_heap_info_8192_def
    dalvik_heap_info_6144_def dalvik_heap_info_4096_def dalvik_heap_info_2048_def dalvik_heap_info_1024_def)

lemma rows_grow:
  "list_all (\<lambda>k. list_all (\<lambda>k'. k \<le> k' \<longrightarrow> list_all2 (\<le>) (row_sizes (heap_row k)) (row_sizes (heap_row k'))) [2, 3, 4, 5, 6, 7, 8]) [2, 3, 4, 5, 6, 7, 8]"
  by (simp add: row_sizes_values)

text \<open>The start size is at most the growth limit, that at most the heap size, and the least free memory at most the most.\<close>

fun sizes_fit :: "nat list \<Rightarrow> bool" where
  "sizes_fit [start, growth, heap, minfree, maxfree] = (start \<le> growth \<and> growth \<le> heap \<and> minfree \<le> maxfree)"
| "sizes_fit _ = False"

lemma rows_fit: "list_all (\<lambda>k. sizes_fit (row_sizes (heap_row k))) [2, 3, 4, 5, 6, 7, 8]"
  by (simp add: row_sizes_values)

definition size_props :: "string list" where
  "size_props = [''dalvik.vm.heapstartsize'', ''dalvik.vm.heapgrowthlimit'', ''dalvik.vm.heapsize'', ''dalvik.vm.heapminfree'', ''dalvik.vm.heapmaxfree'']"

definition prop_kib :: "init_world \<Rightarrow> string \<Rightarrow> nat" where
  "prop_kib w p = kib (the (i_props w p))"

lemma prop_kibs: "willing_area w \<Longrightarrow> map (prop_kib (set_dalvik_heap w)) size_props = row_sizes (heap_row (heap_select (i_ram w)))"
  by (simp add: size_props_def prop_kib_def set_dalvik_heap_is heap_entries_def row_sizes_def Let_def)

text \<open>C34: The heap fits the machine. On a machine with at least as much memory no size of the runtime's heap is smaller, up to
  any size of the memory, and on every machine the start size is at most the growth limit, the growth limit at most the heap size,
  and the least free memory at most the most.\<close>

theorem heap_fits:
  assumes "willing_area w" and "willing_area w'" and "i_ram w \<le> i_ram w'"
  shows "list_all2 (\<le>) (map (prop_kib (set_dalvik_heap w)) size_props) (map (prop_kib (set_dalvik_heap w')) size_props) \<and>
    sizes_fit (map (prop_kib (set_dalvik_heap w)) size_props)"
  unfolding prop_kibs [OF assms(1)] prop_kibs [OF assms(2)]
  using rows_grow rows_fit heap_select_range [of "i_ram w"] heap_select_range [of "i_ram w'"] heap_select_mono [OF assms(3)]
  unfolding list_all_iff by blast

definition init_world0 :: init_world where
  "init_world0 = \<lparr>i_props = (\<lambda>p. if p = ''ro.boot.insecure_adb'' then Some ''1'' else None), i_takes = (\<lambda>p v. True),
     i_files = (\<lambda>f. if f = kDmiIdPath @ ''sys_vendor'' then Some ''LENOVO!'' else if f = kDmiIdPath @ ''product_family'' then Some ''Yoga!'' else None),
     i_stale = (\<lambda>p s. []), i_order = rev, i_ram = 0x100000000\<rparr>"

theorem heap_fits_witness:
  "list_all2 (\<le>) (map (prop_kib (set_dalvik_heap init_world0)) size_props) (map (prop_kib (set_dalvik_heap (init_world0\<lparr>i_ram := 0x1000000000\<rparr>))) size_props) \<and>
    sizes_fit (map (prop_kib (set_dalvik_heap init_world0)) size_props)"
  by (rule heap_fits) (simp_all add: init_world0_def)

section \<open>What the identity of the machine sets\<close>

text \<open>What the file says: its content but the last character, the end of the line. A file that is missing or empty says nothing.\<close>

definition said :: "init_world \<Rightarrow> string \<Rightarrow> string option" where
  "said w f = (case i_files w (kDmiIdPath @ f) of Some (c # cs) \<Rightarrow> Some (butlast (c # cs)) | _ \<Rightarrow> None)"

fun entries :: "(string \<Rightarrow> string list) \<Rightarrow> init_world \<Rightarrow> string \<times> string \<Rightarrow> (string \<times> string) list" where
  "entries names w (f, prop) = (case said w f of Some v \<Rightarrow> map (\<lambda>n. (n, v)) (names prop) | None \<Rightarrow> [])"

definition ro_names :: "string \<Rightarrow> string list" where
  "ro_names prop = map (prop_name prop True) ro_props_default_source_order"

abbreviation same_machine :: "init_world \<Rightarrow> init_world \<Rightarrow> bool" where
  "same_machine w w' \<equiv> i_files w' = i_files w \<and> i_takes w' = i_takes w \<and> i_stale w' = i_stale w \<and> i_order w' = i_order w \<and> i_ram w' = i_ram w"

lemma set_names:
  "willing_area w \<Longrightarrow> fold (\<lambda>n. property_override n v True) ns w = w\<lparr>i_props := i_props w ++ map_of (rev (map (\<lambda>n. (n, v)) ns))\<rparr>"
proof (induction ns arbitrary: w)
  case (Cons n ns)
  then show ?case by (simp add: map_add_assoc [symmetric]) (simp add: map_add_def fun_eq_iff split: option.split)
qed simp

lemma set_ro_build_prop_is: "set_ro_build_prop prop v True w = fold (\<lambda>n. property_override n v True) (ro_names prop) w"
  by (simp add: set_ro_build_prop_def ro_names_def fold_map comp_def)

lemma dmi_loop_is:
  assumes "\<And>prop v w. willing_area w \<Longrightarrow> act prop v w = w\<lparr>i_props := i_props w ++ map_of (rev (map (\<lambda>n. (n, v)) (names prop)))\<rparr>"
  shows "willing_area w \<Longrightarrow> i_stale w = (\<lambda>p s. []) \<Longrightarrow>
    \<exists>v. dmi_loop act m val w = (v, w\<lparr>i_props := i_props w ++ map_of (rev (concat (map (entries names w) m)))\<rparr>)"
proof (induction m arbitrary: val w)
  case (Cons fp m)
  obtain f pr where fp: "fp = (f, pr)" by (cases fp)
  have e: "entries names (w\<lparr>i_props := ps\<rparr>) = entries names w" for ps by (rule ext) (auto simp: said_def)
  show ?case
  proof (cases "said w f")
    case None
    then have "snd (ReadFileToString (kDmiIdPath @ f) val w) = []"
      using Cons.prems(2) by (simp add: said_def ReadFileToString_def split: option.splits list.splits)
    then show ?thesis using Cons.IH [OF Cons.prems] None by (simp add: fp)
  next
    case (Some v)
    then obtain c cs where c: "snd (ReadFileToString (kDmiIdPath @ f) val w) = c # cs" "v = butlast (c # cs)"
      by (auto simp: said_def ReadFileToString_def split: option.splits list.splits)
    let ?w = "w\<lparr>i_props := i_props w ++ map_of (rev (map (\<lambda>n. (n, v)) (names pr)))\<rparr>"
    have "\<exists>u. dmi_loop act m v ?w = (u, ?w\<lparr>i_props := i_props ?w ++ map_of (rev (concat (map (entries names ?w) m)))\<rparr>)"
      using Cons.prems by (intro Cons.IH) simp_all
    then show ?thesis
      using c Some assms [OF Cons.prems(1), of pr v] by (simp add: fp e map_add_assoc)
  qed
qed simp

lemma map_of_same_entries:
  assumes "distinct (map fst xs)" and "mset xs = mset ys"
  shows "map_of (rev xs) = map_of ys"
proof -
  have "distinct (map fst ys)" using assms by (metis mset_eq_imp_distinct_iff mset_map)
  moreover have "distinct (map fst (rev xs))" using assms(1) by (simp add: rev_map [symmetric])
  moreover have "set (rev xs) = set ys" using assms(2) by (metis set_rev set_mset_mset)
  ultimately show ?thesis by (simp add: map_of_inject_set)
qed

lemma set_concat_some:
  assumes "\<And>y. h y = g y \<or> h y = []"
  shows "set (concat (map h m)) \<subseteq> set (concat (map g m))"
proof (induction m)
  case (Cons x m)
  have "set (h x) \<subseteq> set (g x)" using assms [of x] by auto
  then show ?case using Cons by auto
qed simp

lemma distinct_some:
  assumes "\<And>y. h y = g y \<or> h y = []"
  shows "distinct (concat (map g m)) \<Longrightarrow> distinct (concat (map h m))"
proof (induction m)
  case (Cons x m)
  have "set (h x) \<subseteq> set (g x)" "distinct (h x)" using assms [of x] Cons.prems by auto
  moreover have "set (h x) \<inter> set (concat (map h m)) = {}"
    using calculation(1) set_concat_some [of h g m, OF assms] Cons.prems by (simp only: concat.simps list.map distinct_append) blast
  moreover have "distinct (concat (map h m))" using Cons by simp
  ultimately show ?case by (simp only: concat.simps list.map distinct_append)
qed simp

lemma loop_entries:
  assumes "distinct (concat (map (names \<circ> snd) m))" and "\<And>m. mset (i_order w m) = mset m"
  shows "map_of (rev (concat (map (entries names w) (i_order w m)))) = map_of (concat (map (entries names w) m))"
proof -
  let ?e = "concat (map (entries names w) m)"
  have k: "map fst (concat (map (entries names w) m)) = concat (map (map fst \<circ> entries names w) m)" for m by (simp add: map_concat)
  have "(map fst \<circ> entries names w) x = (names \<circ> snd) x \<or> (map fst \<circ> entries names w) x = []" for x
    by (cases x) (simp add: comp_def split: option.split)
  then have "distinct (map fst ?e)" unfolding k by (rule distinct_some [OF _ assms(1)])
  moreover have "mset (concat (map (entries names w) (i_order w m))) = mset ?e"
    using assms(2) by (simp add: mset_concat flip: sum_mset_sum_list mset_map) (metis mset_map)
  ultimately show ?thesis using map_of_same_entries by (metis mset_eq_imp_distinct_iff mset_map)
qed

lemma names_distinct:
  "distinct (concat (map ((\<lambda>p. [p]) \<circ> snd) kDmiIdToPropertyMap))"
  "distinct (concat (map (ro_names \<circ> snd) kDmiIdToRoBuildPropMap))" "distinct (concat (map (ro_names \<circ> snd) kLenovoDmiIdToRoBuildPropMap))"
  unfolding kDmiIdToPropertyMap_def kDmiIdToRoBuildPropMap_def kLenovoDmiIdToRoBuildPropMap_def ro_names_def prop_name_def ro_props_default_source_order_def
  by code_simp+

definition misc_entries :: "init_world \<Rightarrow> (string \<times> string) list" where
  "misc_entries w = (if init_GetProperty ''ro.boot.insecure_adb'' [] w = ''1'' then [(''ro.adb.secure'', ''0''), (''ro.secure'', ''0'')] else [])"

lemma set_misc_properties_is:
  "willing_area w \<Longrightarrow> set_misc_properties w = w\<lparr>i_props := i_props w ++ map_of (misc_entries w)\<rparr>"
  by (simp add: set_misc_properties_def misc_entries_def map_add_def fun_eq_iff)

lemma misc_after_heap: "misc_entries (w\<lparr>i_props := i_props w ++ map_of (heap_entries r)\<rparr>) = misc_entries w"
  by (simp add: misc_entries_def init_GetProperty_def heap_entries_def Let_def map_add_def)

definition lenovo :: "init_world \<Rightarrow> bool" where
  "lenovo w \<longleftrightarrow> said w ''sys_vendor'' = Some ''Lenovo'' \<or> said w ''sys_vendor'' = Some ''LENOVO''"

lemma is_lenovo_is: "i_files w (kDmiIdPath @ ''sys_vendor'') \<noteq> Some [] \<Longrightarrow> is_lenovo w = Some (lenovo w)"
  by (auto simp: is_lenovo_def lenovo_def said_def ReadFileToString_def split: option.split list.split)

lemma keeps_machine:
  "said (w\<lparr>i_props := ps\<rparr>) = said w" "entries names (w\<lparr>i_props := ps\<rparr>) = entries names w" "lenovo (w\<lparr>i_props := ps\<rparr>) = lenovo w"
  by (auto simp: said_def lenovo_def fun_eq_iff)

lemma dmi_properties_are:
  assumes "willing_area w" and "i_stale w = (\<lambda>p s. [])" and "\<And>m. mset (i_order w m) = mset m" and "i_files w (kDmiIdPath @ ''sys_vendor'') \<noteq> Some []"
  shows "set_properties_from_dmi_id w = Some (w\<lparr>i_props := i_props w ++ map_of (concat (map (entries (\<lambda>p. [p]) w) kDmiIdToPropertyMap)) ++
    map_of (concat (map (entries ro_names w) (if lenovo w then kLenovoDmiIdToRoBuildPropMap else kDmiIdToRoBuildPropMap)))\<rparr>)"
proof -
  let ?ro = "if lenovo w then kLenovoDmiIdToRoBuildPropMap else kDmiIdToRoBuildPropMap"
  obtain v where "dmi_loop (\<lambda>prop v. property_override prop v True) (i_order w kDmiIdToPropertyMap) [] w =
      (v, w\<lparr>i_props := i_props w ++ map_of (rev (concat (map (entries (\<lambda>p. [p]) w) (i_order w kDmiIdToPropertyMap))))\<rparr>)"
    using dmi_loop_is [where names = "\<lambda>p. [p]", OF _ assms(1,2)] by fastforce
  then have 1: "dmi_loop (\<lambda>prop v. property_override prop v True) (i_order w kDmiIdToPropertyMap) [] w =
      (v, w\<lparr>i_props := i_props w ++ map_of (concat (map (entries (\<lambda>p. [p]) w) kDmiIdToPropertyMap))\<rparr>)"
    by (simp only: loop_entries [OF names_distinct(1) assms(3)])
  let ?w = "w\<lparr>i_props := i_props w ++ map_of (concat (map (entries (\<lambda>p. [p]) w) kDmiIdToPropertyMap))\<rparr>"
  have ro: "set_ro_build_prop p v True u = u\<lparr>i_props := i_props u ++ map_of (rev (map (\<lambda>n. (n, v)) (ro_names p)))\<rparr>" if "willing_area u" for p v u
    using set_names [OF that] by (simp add: set_ro_build_prop_is)
  obtain v' where "dmi_loop (\<lambda>prop v. set_ro_build_prop prop v True) (i_order w ?ro) v ?w =
      (v', ?w\<lparr>i_props := i_props ?w ++ map_of (rev (concat (map (entries ro_names ?w) (i_order w ?ro))))\<rparr>)"
    using dmi_loop_is [where names = ro_names and act = "\<lambda>prop v. set_ro_build_prop prop v True", OF ro, of ?w "i_order w ?ro" v] assms(1,2) by auto
  moreover have "map_of (rev (concat (map (entries ro_names w) (i_order w ?ro)))) = map_of (concat (map (entries ro_names w) ?ro))"
    by (rule loop_entries [OF _ assms(3)]) (simp add: names_distinct(2,3))
  ultimately have 2: "dmi_loop (\<lambda>prop v. set_ro_build_prop prop v True) (i_order w ?ro) v ?w =
      (v', ?w\<lparr>i_props := i_props ?w ++ map_of (concat (map (entries ro_names w) ?ro))\<rparr>)"
    by (simp only: keeps_machine)
  have "is_lenovo ?w = Some (lenovo w)" using is_lenovo_is [of ?w] assms(4) by (simp add: keeps_machine)
  then show ?thesis using 1 2 by (simp add: set_properties_from_dmi_id_def)
qed



end
