(* ===== verification/Recovery_UI.thy ===== *)
theory Recovery_UI
  imports Init_Properties
begin

text \<open>
  The device of the recovery system, \<^verbatim>\<open>librecovery_ui/recovery_ui.cpp\<close>: a user interface that always counts as
  connected by USB, on a device with one Ethernet interface. The classes it builds on are outside the repository;
  an \<open>EthernetDevice\<close> is what its constructor is given. The name of the interface is what the DHCP client of the
  recovery system is started with.
\<close>

datatype RecoveryUI = x86RecoveryUI

fun IsUsbConnected :: "RecoveryUI \<Rightarrow> bool" where
  "IsUsbConnected x86RecoveryUI = True"

datatype Device = EthernetDevice RecoveryUI string

text \<open>\<open>GetProperty\<close> gives the default for a property that is unset or empty.\<close>

definition ui_GetProperty :: "string \<Rightarrow> string \<Rightarrow> init_world \<Rightarrow> string" where
  "ui_GetProperty key default_value w = (case i_props w key of None \<Rightarrow> default_value | Some v \<Rightarrow> if v = [] then default_value else v)"

definition make_device :: "init_world \<Rightarrow> Device" where
  "make_device w =
     (let eth_device = ui_GetProperty ''vendor.recovery.ethernet.dhcp.iface'' ''eth0'' w in EthernetDevice x86RecoveryUI eth_device)"

text \<open>Whatever the properties are, the device has an interface with a name, the one the property asks for if any.\<close>

lemma device_has_interface:
  "\<exists>ui eth. make_device w = EthernetDevice ui eth \<and> IsUsbConnected ui \<and> eth \<noteq> [] \<and>
     (\<forall>v. i_props w ''vendor.recovery.ethernet.dhcp.iface'' = Some v \<longrightarrow> v \<noteq> [] \<longrightarrow> eth = v)"
  by (auto simp: make_device_def ui_GetProperty_def Let_def split: option.splits)

end
