(* ===== verification/Spec2Isabelle.thy ===== *)
theory Spec2Isabelle
  imports Serial_Catalog Serial_Identity Usb_Session Usb_Open Tablet_Client List_Memory Serial_Log Input_Session Small_Tools Dhcp_Retry Dhcp_Renewal Dhcp_Nak Addr_Text Boot_Control Misc_Partition Recovery_UI
begin

text \<open>
  A model of the programs of this Android device tree: the tablet drivers under \<^verbatim>\<open>src/wacom\<close> with the
  daemon that feeds them to the input system, two small daemons, the DHCP client of the recovery system under
  \<^verbatim>\<open>src/dhcp_recovery\<close>, the boot control of the A/B slots under \<^verbatim>\<open>src/bootctrl\<close>, and the properties set
  at the start under \<^verbatim>\<open>src/libinit\<close>.

  \<^bold>\<open>The tablets.\<close> \<^verbatim>\<open>wacserial.c\<close> drives Wacom and tablet PC digitizers on a serial line: it configures the
  line, asks the tablet who it is, chooses a parser by protocol and ROM version, and then turns packets
  into the state of \<^verbatim>\<open>wactablet.h\<close>. \<^verbatim>\<open>wacusb.c\<close> does the same for USB tablets whose packets the kernel
  delivers as input events. \<^verbatim>\<open>wactablet.c\<close> opens a device by its class and passes every call on a handle to
  its driver. \<^verbatim>\<open>wacom-input.c\<close> opens a tablet, makes a virtual input device and turns the tablet's states into events.
  \<^item> \<open>Prelude\<close>, \<open>CLib\<close>: integers, results, lists, bytes in memory; the C library functions the code calls.
  \<^item> \<open>World\<close>: the kernel. A system call takes its answer from a list, so a theorem over all worlds
    covers every behaviour of the kernel; calls and the port's settings are recorded.
  \<^item> \<open>Tablet_State\<close>: \<^verbatim>\<open>wactablet.h\<close> and \<open>WacomCopyState\<close>.
  \<^item> \<open>Catalog\<close>: the interface (locale) of a list of devices with a lookup by name.
  \<^item> \<open>Serial_Tables\<close>, \<open>Serial_Catalog\<close>: the device tables of \<^verbatim>\<open>wacserial.c\<close> and the searches in them.
  \<^item> \<open>Serial_Parse\<close>: the parsers, under one interface (locale). \<open>Serial_Proto\<close>: the packets of the
    protocols as data, with their encodings and meanings. \<open>Serial_Ranges\<close>: the ranges the parsers
    keep. \<open>Serial_Packets\<close>: the theorems about packets.
  \<^item> \<open>Serial_IO\<close>: sending, requests, configuring, opening, reading. \<open>Serial_Exchange\<close>, \<open>Serial_Read\<close>,
    \<open>Serial_Open\<close>: lemmas on these. \<open>Serial_Session\<close>, \<open>Serial_Identity\<close>: the theorems about sessions.
  \<^item> \<open>Linux_Input\<close>: input events and bit masks. \<open>Usb_Tables\<close>, \<open>Usb_Driver\<close>: \<^verbatim>\<open>wacusb.c\<close>.
    \<open>Usb_Channels\<close>, \<open>Usb_Reports\<close>: what a report means for the channels, and that the driver computes it.
    \<open>Usb_Open\<close>, \<open>Usb_Session\<close>: opening and reading.
  \<^item> \<open>Wactablet\<close>, \<open>Tablet_Device\<close>, \<open>Tablet_Client\<close>: \<^verbatim>\<open>wactablet.c\<close>, its drivers as an interface (locale)
    and what its callers rely on. \<open>List_Memory\<close>: who owns the memory of the lists and of the engine, over a heap
    with byte addresses. \<open>Serial_Log\<close>: the log functions of \<^verbatim>\<open>wacserial.c\<close> and its dump of packets.
  \<^item> \<open>Wacom_Input\<close>, \<open>Input_Session\<close>: \<^verbatim>\<open>wacom-input.c\<close>, and a whole run of it on a tablet PC.
  \<^item> \<open>Small_Tools\<close>: \<^verbatim>\<open>tablet-mode.c\<close> and \<^verbatim>\<open>io_switch.c\<close>.

  \<^bold>\<open>The DHCP client.\<close> \<^verbatim>\<open>message.cpp\<close> builds and reads DHCP messages, \<^verbatim>\<open>socket.cpp\<close> wraps them in UDP
  packets, \<^verbatim>\<open>interface.cpp\<close> and \<^verbatim>\<open>router.cpp\<close> set addresses and routes by netlink, \<^verbatim>\<open>dhcpclient.cpp\<close> is the state
  machine over them.
  \<^item> \<open>Dhcp_Message\<close>: the messages. \<open>Dhcp_Options\<close>: their options as a list, and that building and reading agree.
  \<^item> \<open>Net_World\<close>: the system the client talks to, its clock and timers. \<open>Net_Socket\<close>, \<open>Net_Packets\<close>: packets,
    with the checksums of the RFCs. \<open>Net_Interface\<close>: interfaces, netlink messages and routes.
  \<^item> \<open>Dhcp_Client\<close>: the members and operations of the client. \<open>Dhcp_Run\<close>: waiting, the loop, \<open>main\<close>.
  \<^item> \<open>Dhcp_Lease\<close>: what the client learns of a message. \<open>Dhcp_Machine\<close>: the abstract state machine and that the client
    follows it. \<open>Dhcp_Retry\<close>: requests that nobody answers.
  \<^item> \<open>Dhcp_Session\<close>: the interface (locale) of a server. \<open>Dhcp_Handshake\<close>: the exchange with any such server.
    \<open>Dhcp_Server\<close>: the messages of the repository's own \<open>offer\<close> and \<open>ack\<close> as an interpretation.
    \<open>Dhcp_Renewal\<close>: keeping a lease. \<open>Dhcp_Nak\<close>: losing it.
  \<^item> \<open>Addr_Text\<close>: \<open>addrToStr\<close> of \<^verbatim>\<open>common/utils.cpp\<close>, which nothing calls, and that it agrees with the client's own.

  \<^bold>\<open>Booting.\<close>
  \<^item> \<open>Boot_Text\<close>: the replacement loop of \<^verbatim>\<open>x86_boot_control.cpp\<close>, a loop that may not end, and that it does what
    a reference definition says. \<open>Boot_Control\<close>: \<^verbatim>\<open>x86_boot_control.cpp\<close> and the service of \<^verbatim>\<open>BootControl.cpp\<close>
    over a library of slots that is a parameter, and configurations as lists of pieces.
  \<^item> \<open>Misc_Partition\<close>: the data declared in \<^verbatim>\<open>boot_control_definition.h\<close> for the library outside the repository,
    and its layout in memory.
  \<^item> \<open>Init_Properties\<close>: \<^verbatim>\<open>libinit_utils.cpp\<close>, \<^verbatim>\<open>libinit_dalvik_heap.cpp\<close>, \<^verbatim>\<open>init_x86.cpp\<close>.
  \<^item> \<open>Recovery_UI\<close>: \<^verbatim>\<open>recovery_ui.cpp\<close>, the device of the recovery system.

  \<^bold>\<open>Conventions.\<close> An \<open>int\<close> is a 32-bit word read by \<open>sint\<close>. A result \<open>None\<close> stands for undefined
  behaviour (an index outside an array, a null pointer, signed overflow in \<open>sscanf\<close>) or a failed
  \<open>assert\<close>. Pointers into constant tables are the entries themselves, since the code compares them
  only for identity of entries that differ. Allocation is taken to succeed, except in \<open>List_Memory\<close>, where
  the calls of \<open>malloc\<close> that still succeed are counted. The machine is little-endian.

  \<^bold>\<open>Termination.\<close> Every loop is a total function. A loop that waits for input consumes an answer in each
  pass, and an exhausted list of answers reads as an error of the call, or as a timeout of \<open>ppoll\<close>. The endless loops
  of the daemons are given by a pass (a step function) and a number of passes, and the theorems about them
  hold for every number or for the exact number they name.

  \<^bold>\<open>Not modelled.\<close> Messages for logs other than those of \<open>Serial_Log\<close> (their texts do not feed back into the
  programs), usage texts, the end of \<open>main\<close> of \<^verbatim>\<open>wacom-input.c\<close> behind its endless loop, the memory of handles, the
  macros for the Bluetooth stack, which is outside the repository, and the Android make files and shell scripts.
\<close>

end
